(* ===== verification/Prelude.thy ===== *)
theory Prelude
  imports Main "HOL-Library.Word" "HOL-Library.AList"
begin

text \<open>
  Shared vocabulary of the development: the machine integers of the C++ code, results that
  carry an error value, runs that may hit a failed assertion or undefined behaviour, the
  representation of the standard containers, and the lemmas on them that the component
  theories use.

  \<^item> \<^verbatim>\<open>std::size_t\<close>, \<^verbatim>\<open>std::uint64_t\<close> are \<open>64 word\<close>, the narrower unsigned
    types the corresponding words; arithmetic on them wraps as in C++.
  \<^item> \<^verbatim>\<open>score::Result<T>\<close> is a sum: \<open>Err e\<close> (left) or \<open>Ok x\<close> (right).
  \<^item> A call that can violate an \<^verbatim>\<open>assert\<close>, dereference a null pointer or leave the bounds
    of an object is a \<open>run\<close>: \<open>Err f\<close> names the fault, \<open>Ok x\<close> is a defined outcome.
  \<^item> \<^verbatim>\<open>std::unordered_map\<close> and \<^verbatim>\<open>std::map\<close> are association lists without duplicate
    keys. The position in the list is the iteration order; the theorems quantify over all
    lists, so they do not depend on which order the hash table has.
\<close>

type_synonym u8 = "8 word"
type_synonym u16 = "16 word"
type_synonym u32 = "32 word"
type_synonym u64 = "64 word"
type_synonym size_t = "64 word"

type_synonym ('e, 'a) result = "'e + 'a"

abbreviation Err :: "'e \<Rightarrow> ('e, 'a) result" where
  "Err \<equiv> Inl"

abbreviation Ok :: "'a \<Rightarrow> ('e, 'a) result" where
  "Ok \<equiv> Inr"

datatype fault = Assert_failed | Out_of_bounds | Null_deref

type_synonym 'a run = "(fault, 'a) result"

definition and_then :: "('e, 'a) result \<Rightarrow> ('a \<Rightarrow> ('e, 'b) result) \<Rightarrow> ('e, 'b) result" where
  "and_then r f = (case r of Err e \<Rightarrow> Err e | Ok x \<Rightarrow> f x)"

definition assert_run :: "bool \<Rightarrow> 'a run \<Rightarrow> 'a run" where
  "assert_run b r = (if b then r else Err Assert_failed)"

fun is_Ok :: "('e, 'a) result \<Rightarrow> bool" where
  "is_Ok (Inr _) = True"
| "is_Ok (Inl _) = False"

text \<open>Loops that thread a state through the elements of a container, with early failure.\<close>

fun fold_run :: "('x \<Rightarrow> 's \<Rightarrow> 's run) \<Rightarrow> 'x list \<Rightarrow> 's \<Rightarrow> 's run" where
  "fold_run f [] s = Ok s"
| "fold_run f (x # xs) s = and_then (f x s) (fold_run f xs)"

type_synonym ('k, 'v) assoc = "('k \<times> 'v) list"

abbreviation keys :: "('k, 'v) assoc \<Rightarrow> 'k list" where
  "keys m \<equiv> map fst m"

text \<open>\<open>m[k]\<close> of the standard maps: the value, or a default-constructed one.\<close>

definition get_or :: "'v \<Rightarrow> 'k \<Rightarrow> ('k, 'v) assoc \<Rightarrow> 'v" where
  "get_or d k m = (case map_of m k of None \<Rightarrow> d | Some v \<Rightarrow> v)"

text \<open>The erase-while-iterating loops keep the entries whose value fails the test.\<close>

definition keep_vals :: "('v \<Rightarrow> bool) \<Rightarrow> ('k, 'v) assoc \<Rightarrow> ('k, 'v) assoc" where
  "keep_vals P m = filter (\<lambda>e. P (snd e)) m"

definition map_vals :: "('v \<Rightarrow> 'w) \<Rightarrow> ('k, 'v) assoc \<Rightarrow> ('k, 'w) assoc" where
  "map_vals f m = map (\<lambda>e. (fst e, f (snd e))) m"

text \<open>Maps of maps: \<open>m[a][b]\<close> read without insertion, and \<open>m[a][b] = v\<close>.\<close>

definition lookup2 :: "('a, ('b, 'v) assoc) assoc \<Rightarrow> 'a \<Rightarrow> 'b \<Rightarrow> 'v option" where
  "lookup2 m a b = Option.bind (map_of m a) (\<lambda>inner. map_of inner b)"

definition update2 :: "'a \<Rightarrow> 'b \<Rightarrow> 'v \<Rightarrow> ('a, ('b, 'v) assoc) assoc \<Rightarrow> ('a, ('b, 'v) assoc) assoc" where
  "update2 a b v m = AList.update a (AList.update b v (get_or [] a m)) m"

definition distinct2 :: "('a, ('b, 'v) assoc) assoc \<Rightarrow> bool" where
  "distinct2 m \<longleftrightarrow> distinct (keys m) \<and> (\<forall>inner \<in> set (map snd m). distinct (keys inner))"

definition entries2 :: "('a, ('b, 'v) assoc) assoc \<Rightarrow> (('a \<times> 'b) \<times> 'v) list" where
  "entries2 m = concat (map (\<lambda>e. map (\<lambda>e'. ((fst e, fst e'), snd e')) (snd e)) m)"

named_theorems run_simps "unfolding of result and run combinators"
named_theorems assoc_simps "lookup laws of association lists"

declare and_then_def [run_simps] assert_run_def [run_simps]

subsection \<open>Results and runs\<close>

lemma and_then_simps [simp]:
  "and_then (Err e) f = Err e"
  "and_then (Ok x) f = f x"
  by (simp_all add: and_then_def)

lemma and_then_OkD:
  "and_then r f = Ok y \<Longrightarrow> \<exists>x. r = Ok x \<and> f x = Ok y"
  by (cases r) auto

lemma and_then_OkE:
  assumes "and_then r f = Ok y"
  obtains x where "r = Ok x" and "f x = Ok y"
  using assms that by (cases r) simp_all

lemma assert_run_Ok [simp]: "assert_run b r = Ok x \<longleftrightarrow> b \<and> r = Ok x"
  by (simp add: assert_run_def)

lemma assert_run_True [simp]: "assert_run True r = r"
  by (simp add: assert_run_def)

lemma assert_run_False [simp]: "assert_run False r = Err Assert_failed"
  by (simp add: assert_run_def)

lemma is_Ok_iff: "is_Ok r \<longleftrightarrow> (\<exists>x. r = Ok x)"
  by (cases r) auto

lemma fold_run_append [simp]:
  "fold_run f (xs @ ys) s = and_then (fold_run f xs s) (fold_run f ys)"
proof (induction xs arbitrary: s)
  case Nil
  then show ?case by simp
next
  case (Cons x xs)
  show ?case by (cases "f x s") (simp_all add: Cons.IH)
qed

text \<open>A loop keeps every property its body keeps.\<close>

lemma fold_run_invariant:
  assumes "\<And>x s s'. x \<in> set xs \<Longrightarrow> I s \<Longrightarrow> f x s = Ok s' \<Longrightarrow> I s'"
    and "I s" and "fold_run f xs s = Ok s'"
  shows "I s'"
  using assms
proof (induction xs arbitrary: s)
  case Nil
  then show ?case by simp
next
  case (Cons x xs)
  from Cons.prems(3) obtain t where t: "f x s = Ok t" "fold_run f xs t = Ok s'"
    by (auto elim: and_then_OkE)
  have "I t" by (rule Cons.prems(1) [of x s t]) (use Cons.prems(2) t in auto)
  then show ?case by (intro Cons.IH [of t]) (use Cons.prems(1) t in auto)
qed

text \<open>A loop whose body appends to its result collects what the bodies append.\<close>

lemma fold_run_collect:
  assumes "\<And>x r r'. body x r = Ok r' \<Longrightarrow> r' = r @ f x" and "fold_run body xs r = Ok r'"
  shows "r' = r @ concat (map f xs)"
  using assms(2)
proof (induction xs arbitrary: r)
  case Nil
  then show ?case by simp
next
  case (Cons x xs)
  from Cons.prems obtain t where "body x r = Ok t" "fold_run body xs t = Ok r'"
    by (auto elim: and_then_OkE)
  with Cons.IH [of t] assms(1) [of x r t] show ?case by simp
qed

subsection \<open>Association lists\<close>

lemmas assoc_lookup [assoc_simps] = update_conv' delete_conv' map_ran_conv

lemma map_of_filter_notin: "k \<notin> set (keys m) \<Longrightarrow> map_of (filter Q m) k = None"
  by (auto simp: map_of_eq_None_iff)

lemma map_of_keep_vals [assoc_simps]:
  assumes "distinct (keys m)"
  shows "map_of (keep_vals P m) k = (case map_of m k of None \<Rightarrow> None | Some v \<Rightarrow> if P v then Some v else None)"
  using assms
proof (induction m)
  case Nil
  then show ?case by (simp add: keep_vals_def)
next
  case (Cons e m)
  show ?case
  proof (cases "k = fst e")
    case True
    then have "k \<notin> set (keys m)" using Cons.prems by simp
    then show ?thesis using True by (simp add: keep_vals_def map_of_filter_notin)
  next
    case False
    then show ?thesis using Cons by (simp add: keep_vals_def)
  qed
qed

lemma keys_keep_vals: "set (keys (keep_vals P m)) \<subseteq> set (keys m)"
  by (auto simp: keep_vals_def)

lemma distinct_keep_vals [simp]: "distinct (keys m) \<Longrightarrow> distinct (keys (keep_vals P m))"
  by (induction m) (auto simp: keep_vals_def)

lemma map_of_map_vals [assoc_simps]: "map_of (map_vals f m) k = map_option f (map_of m k)"
  by (induction m) (auto simp: map_vals_def)

lemma keys_map_vals [simp]: "keys (map_vals f m) = keys m"
  by (simp add: map_vals_def)

lemma snd_map_vals: "snd ` set (map_vals f m) = f ` snd ` set m"
  by (force simp: map_vals_def)

lemma get_or_update [simp]: "get_or d k (AList.update k v m) = v"
  by (simp add: get_or_def update_conv')

lemma get_or_update_other [simp]: "k \<noteq> k' \<Longrightarrow> get_or d k (AList.update k' v m) = get_or d k m"
  by (simp add: get_or_def update_conv')

lemma distinct_AList_update [simp]: "distinct (keys m) \<Longrightarrow> distinct (keys (AList.update k v m))"
  by (rule distinct_update)

lemma distinct_AList_delete [simp]: "distinct (keys m) \<Longrightarrow> distinct (keys (AList.delete k m))"
  by (rule distinct_delete)

lemma set_keys_update [simp]: "set (keys (AList.update k v m)) = insert k (set (keys m))"
  by (simp add: dom_update)

lemma set_keys_delete [simp]: "set (keys (AList.delete k m)) = set (keys m) - {k}"
  by (simp add: delete_keys)

lemma mem_assoc_iff: "distinct (keys m) \<Longrightarrow> (k, v) \<in> set m \<longleftrightarrow> map_of m k = Some v"
  by simp

subsection \<open>Maps of maps\<close>

lemma lookup2_update2 [simp]:
  "lookup2 (update2 a b v m) a' b' = (if a' = a \<and> b' = b then Some v else lookup2 m a' b')"
  by (auto simp: lookup2_def update2_def get_or_def update_conv' split: option.splits)

lemma lookup2_Nil [simp]: "lookup2 [] a b = None"
  by (simp add: lookup2_def)

lemma distinct2_Nil [simp]: "distinct2 []"
  by (simp add: distinct2_def)

lemma set_snd_update: "set (map snd (AList.update k v m)) \<subseteq> insert v (set (map snd m))"
  by (induction m) auto

lemma get_or_distinct: "distinct2 m \<Longrightarrow> distinct (keys (get_or [] a m))"
  by (auto simp: get_or_def distinct2_def dest: map_of_SomeD split: option.splits)

lemma distinct2_update2:
  assumes "distinct2 m"
  shows "distinct2 (update2 a b v m)"
proof -
  have "distinct (keys inner)" if "inner \<in> set (map snd (AList.update a (AList.update b v (get_or [] a m)) m))" for inner
    using set_snd_update [of a "AList.update b v (get_or [] a m)" m, THEN subsetD, OF that] assms get_or_distinct [OF assms]
    by (auto simp: distinct2_def)
  then show ?thesis using assms by (simp add: distinct2_def update2_def)
qed

lemma entries2_iff:
  assumes "distinct2 m"
  shows "((a, b), v) \<in> set (entries2 m) \<longleftrightarrow> lookup2 m a b = Some v"
proof -
  have "((a, b), v) \<in> set (entries2 m) \<longleftrightarrow> (\<exists>inner. (a, inner) \<in> set m \<and> (b, v) \<in> set inner)"
    by (force simp: entries2_def)
  also have "\<dots> \<longleftrightarrow> (\<exists>inner. map_of m a = Some inner \<and> map_of inner b = Some v)"
    using assms by (auto simp: distinct2_def map_of_eq_Some_iff) force+
  also have "\<dots> \<longleftrightarrow> lookup2 m a b = Some v"
    by (auto simp: lookup2_def split: Option.bind_splits)
  finally show ?thesis .
qed

subsection \<open>Machine integers\<close>

text \<open>A generator that hands out \<open>n, n + 1, \<dots>\<close> repeats a value only after a full turn.\<close>

lemma word_offset_inj:
  fixes n :: "'a::len word"
  assumes "i < 2 ^ LENGTH('a)" and "j < 2 ^ LENGTH('a)" and "n + of_nat i = n + of_nat j"
  shows "i = j"
proof -
  have "(of_nat i :: 'a word) = of_nat j" using assms(3) by simp
  then have "unat (of_nat i :: 'a word) = unat (of_nat j :: 'a word)" by simp
  then show ?thesis using assms(1,2) by (simp add: unat_of_nat take_bit_eq_mod)
qed

lemma unat_of_nat_small:
  assumes "n < 2 ^ LENGTH('a)"
  shows "unat (of_nat n :: 'a::len word) = n"
  using assms by (simp add: unat_of_nat take_bit_eq_mod)

lemma unat_Suc_word:
  fixes w :: "'a::len word"
  assumes "Suc (unat w) < 2 ^ LENGTH('a)"
  shows "unat (w + 1) = Suc (unat w)"
  using assms by (simp add: unat_word_ariths)

lemma unat_succ_word:
  fixes w :: "'a::len word"
  assumes "w + 1 \<noteq> 0"
  shows "unat (w + 1) = Suc (unat w)"
  using assms unatSuc [of w] by (simp add: add.commute)

lemma unat_pred_word:
  fixes w :: "'a::len word"
  assumes "w \<noteq> 0"
  shows "unat (w - 1) = unat w - 1"
  using assms by (metis unat_minus_one)

end
