(* ===== verification/Ipc_Errors.thy ===== *)
theory Ipc_Errors
  imports Prelude
begin

text \<open>
  The error codes of the gateway IPC binding (\<^verbatim>\<open>gateway_ipc_binding/error.hpp\<close>) and the texts
  their error domains return (\<^verbatim>\<open>impl/error.cpp\<close>). An error code is an integer on the
  interface of the error domain, so each enumeration comes with its numbering; the text
  functions work on that number and have the source's \<^verbatim>\<open>default\<close> branch.
\<close>

datatype Shared_memory_manager_error =
    logic_error_invalid_slot_size
  | logic_error_invalid_slot_count
  | runtime_error_shared_memory_allocation_failed
  | logic_error_invalid_slot_handle
  | runtime_error_slot_not_allocated
  | runtime_error_no_available_slots
  | logic_error_no_configuration_for_interface
  | logic_error_no_configuration_for_instance

datatype Bidirectional_channel_error =
    runtime_error_client_not_found
  | runtime_error_send_failed
  | runtime_error_not_connected
  | logic_error_already_listening
  | runtime_error_listen_failed
  | runtime_error_not_listening
  | logic_error_invalid_argument

datatype Gateway_ipc_binding_error = fixed_size_container_too_small

fun shared_memory_code :: "Shared_memory_manager_error \<Rightarrow> int" where
  "shared_memory_code logic_error_invalid_slot_size = 0"
| "shared_memory_code logic_error_invalid_slot_count = 1"
| "shared_memory_code runtime_error_shared_memory_allocation_failed = 2"
| "shared_memory_code logic_error_invalid_slot_handle = 3"
| "shared_memory_code runtime_error_slot_not_allocated = 4"
| "shared_memory_code runtime_error_no_available_slots = 5"
| "shared_memory_code logic_error_no_configuration_for_interface = 6"
| "shared_memory_code logic_error_no_configuration_for_instance = 7"

fun channel_code :: "Bidirectional_channel_error \<Rightarrow> int" where
  "channel_code runtime_error_client_not_found = 0"
| "channel_code runtime_error_send_failed = 1"
| "channel_code runtime_error_not_connected = 2"
| "channel_code logic_error_already_listening = 3"
| "channel_code runtime_error_listen_failed = 4"
| "channel_code runtime_error_not_listening = 5"
| "channel_code logic_error_invalid_argument = 6"

fun binding_code :: "Gateway_ipc_binding_error \<Rightarrow> int" where
  "binding_code fixed_size_container_too_small = 0"

definition Shared_memory_manager_MessageFor :: "int \<Rightarrow> string" where
  "Shared_memory_manager_MessageFor code =
    (if code = 0 then ''Slot size must be greater than zero''
     else if code = 1 then ''Number of slots must be greater than zero''
     else if code = 2 then ''Failed to allocate shared memory''
     else if code = 3 then ''Slot handle is invalid or out of range''
     else if code = 4 then ''Slot is not allocated''
     else if code = 5 then ''No available slots for allocation''
     else if code = 6 then ''No configuration found for the specified interface''
     else if code = 7 then ''No configuration found for the specified instance''
     else ''Unknown error'')"

definition Bidirectional_channel_MessageFor :: "int \<Rightarrow> string" where
  "Bidirectional_channel_MessageFor code =
    (if code = 0 then ''Client not found''
     else if code = 1 then ''Failed to send message''
     else if code = 2 then ''Client is not connected''
     else if code = 3 then ''Server is already listening''
     else if code = 4 then ''Failed to start listening''
     else if code = 5 then ''Server is not listening''
     else if code = 6 then ''Invalid argument provided to function''
     else ''Unknown error'')"

definition Gateway_ipc_binding_MessageFor :: "int \<Rightarrow> string" where
  "Gateway_ipc_binding_MessageFor code =
    (if code = 0
     then ''Data to be copied into container is larger than the container's maximum size''
     else ''Unknown error'')"

text \<open>\<^verbatim>\<open>MakeError\<close>: the code, the message the domain gives it, and the user message.\<close>

record error_value =
  err_code :: int
  err_message :: string
  err_user_message :: string

definition MakeError_shared_memory :: "Shared_memory_manager_error \<Rightarrow> string \<Rightarrow> error_value" where
  "MakeError_shared_memory c um =
    \<lparr>err_code = shared_memory_code c,
     err_message = Shared_memory_manager_MessageFor (shared_memory_code c), err_user_message = um\<rparr>"

definition MakeError_channel :: "Bidirectional_channel_error \<Rightarrow> string \<Rightarrow> error_value" where
  "MakeError_channel c um =
    \<lparr>err_code = channel_code c,
     err_message = Bidirectional_channel_MessageFor (channel_code c), err_user_message = um\<rparr>"

definition MakeError_binding :: "Gateway_ipc_binding_error \<Rightarrow> string \<Rightarrow> error_value" where
  "MakeError_binding c um =
    \<lparr>err_code = binding_code c,
     err_message = Gateway_ipc_binding_MessageFor (binding_code c), err_user_message = um\<rparr>"

subsection \<open>Every code has its own text\<close>

lemma shared_memory_code_inj: "shared_memory_code a = shared_memory_code b \<Longrightarrow> a = b"
  by (cases a; cases b) simp_all

lemma shared_memory_text_inj:
  "err_message (MakeError_shared_memory a u) = err_message (MakeError_shared_memory b v) \<Longrightarrow> a = b"
  by (cases a; cases b) (simp_all add: MakeError_shared_memory_def Shared_memory_manager_MessageFor_def)

lemma channel_text_inj:
  "err_message (MakeError_channel a u) = err_message (MakeError_channel b v) \<Longrightarrow> a = b"
  by (cases a; cases b) (simp_all add: MakeError_channel_def Bidirectional_channel_MessageFor_def)

lemma shared_memory_text_known:
  "err_message (MakeError_shared_memory a u) \<noteq> ''Unknown error''"
  by (cases a) (simp_all add: MakeError_shared_memory_def Shared_memory_manager_MessageFor_def)

end
