(* ===== verification/Fixed_Container.thy ===== *)
theory Fixed_Container
  imports Ipc_Errors
begin

unbundle bit_operations_syntax

text \<open>
  \<^verbatim>\<open>Fixed_size_container\<close> and \<^verbatim>\<open>Fixed_string\<close>
  (\<^verbatim>\<open>gateway_ipc_binding/fixed_size_container.hpp\<close>): a length word followed by a buffer of
  \<^verbatim>\<open>Max_size\<close> elements, the only container that is allowed in an IPC message.

  The template argument \<^verbatim>\<open>Max_size\<close> is the length of the buffer list. The length word is
  data from the peer when the container arrives in a message, so reading the contents is a
  \<open>run\<close>: it leaves the buffer when the length word exceeds \<^verbatim>\<open>Max_size\<close>.
\<close>

record 'a Fixed_size_container =
  fsc_size :: size_t
  fsc_data :: "'a list"

type_synonym Fixed_string = "char Fixed_size_container"

definition max_size :: "'a Fixed_size_container \<Rightarrow> nat" where
  "max_size c = length (fsc_data c)"

text \<open>The constructors copy over an uninitialised buffer, here the argument \<open>raw\<close>.\<close>

definition container_from_array :: "'a list \<Rightarrow> 'a list \<Rightarrow> 'a Fixed_size_container" where
  "container_from_array raw arr =
    \<lparr>fsc_size = of_nat (length arr), fsc_data = arr @ drop (length arr) raw\<rparr>"

definition container_from_init :: "'a list \<Rightarrow> 'a list \<Rightarrow> 'a Fixed_size_container run" where
  "container_from_init raw il =
    assert_run (length il \<le> length raw)
      (Ok \<lparr>fsc_size = of_nat (length il),
           fsc_data = take (length raw) il @ drop (length il) raw\<rparr>)"

definition container_empty :: "'a Fixed_size_container \<Rightarrow> bool" where
  "container_empty c \<longleftrightarrow> fsc_size c = 0"

text \<open>The elements up to the length word, the range every reader of the container walks.\<close>

definition container_range :: "'a Fixed_size_container \<Rightarrow> 'a list run" where
  "container_range c =
    (if unat (fsc_size c) \<le> length (fsc_data c)
     then Ok (take (unat (fsc_size c)) (fsc_data c))
     else Err Out_of_bounds)"

definition container_eq :: "'a Fixed_size_container \<Rightarrow> 'a Fixed_size_container \<Rightarrow> bool run" where
  "container_eq lhs rhs =
    (if fsc_size lhs \<noteq> fsc_size rhs then Ok False
     else and_then (container_range lhs) (\<lambda>l.
          and_then (container_range rhs) (\<lambda>r. Ok (l = r))))"

definition container_hash ::
    "(u16 \<Rightarrow> size_t) \<Rightarrow> (string \<Rightarrow> size_t) \<Rightarrow> Fixed_string \<Rightarrow> size_t run" where
  "container_hash hash_u16 hash_sv s =
    and_then (container_range s) (\<lambda>chars.
      Ok (hash_u16 (ucast (fsc_size s)) XOR push_bit 1 (hash_sv chars)))"

definition fixed_string_from_string ::
    "nat \<Rightarrow> string \<Rightarrow> (Gateway_ipc_binding_error, Fixed_string) result" where
  "fixed_string_from_string target_max value =
    (if length value > target_max then Err fixed_size_container_too_small
     else Ok \<lparr>fsc_size = of_nat (length value),
              fsc_data = value @ replicate (target_max - length value) (CHR 0x00)\<rparr>)"

definition fixed_string_to_string :: "Fixed_string \<Rightarrow> string run" where
  "fixed_string_to_string value = container_range value"

text \<open>What a container built by this code looks like: the length word stays in the buffer.\<close>

definition fsc_wf :: "'a Fixed_size_container \<Rightarrow> bool" where
  "fsc_wf c \<longleftrightarrow> unat (fsc_size c) \<le> length (fsc_data c)"

definition contents :: "'a Fixed_size_container \<Rightarrow> 'a list" where
  "contents c = take (unat (fsc_size c)) (fsc_data c)"

subsection \<open>Reading a container\<close>

lemma container_range_wf [simp]: "fsc_wf c \<Longrightarrow> container_range c = Ok (contents c)"
  by (simp add: container_range_def fsc_wf_def contents_def)

lemma container_range_Ok_iff: "container_range c = Ok xs \<longleftrightarrow> fsc_wf c \<and> xs = contents c"
  by (auto simp: container_range_def fsc_wf_def contents_def)

lemma length_contents: "fsc_wf c \<Longrightarrow> length (contents c) = unat (fsc_size c)"
  by (simp add: fsc_wf_def contents_def)

lemma length_contents_le: "fsc_wf c \<Longrightarrow> length (contents c) \<le> max_size c"
  by (simp add: fsc_wf_def contents_def max_size_def)

lemma size_eq_of_contents:
  assumes "fsc_wf a" and "fsc_wf b" and "contents a = contents b"
  shows "fsc_size a = fsc_size b"
  using assms by (metis length_contents word_unat_eq_iff)

lemma container_eq_contents:
  assumes "fsc_wf a" and "fsc_wf b"
  shows "container_eq a b = Ok (contents a = contents b)"
  using assms size_eq_of_contents [OF assms] by (auto simp: container_eq_def)

lemma container_hash_contents:
  assumes "fsc_wf s"
  shows "container_hash h16 hsv s =
    Ok (h16 (of_nat (length (contents s))) XOR push_bit 1 (hsv (contents s)))"
proof -
  have "(of_nat (length (contents s)) :: u16) = ucast (fsc_size s)"
    using assms by (simp add: length_contents)
  then show ?thesis using assms by (simp add: container_hash_def)
qed

subsection \<open>Building a container\<close>

lemma fixed_string_from_string_wf:
  assumes "fixed_string_from_string n s = Ok c" and "n < 2 ^ 64"
  shows "fsc_wf c" and "contents c = s" and "max_size c = n"
  using assms
  by (auto simp: fixed_string_from_string_def fsc_wf_def contents_def max_size_def
      unat_of_nat_small split: if_splits)

lemma fixed_string_from_string_Ok_iff:
  "(\<exists>c. fixed_string_from_string n s = Ok c) \<longleftrightarrow> length s \<le> n"
  by (simp add: fixed_string_from_string_def)

lemma fixed_string_from_string_Err_iff:
  "fixed_string_from_string n s = Err e \<longleftrightarrow> n < length s"
  by (cases e) (simp add: fixed_string_from_string_def)

lemma container_from_init_wf:
  assumes "container_from_init raw xs = Ok c" and "length raw < 2 ^ 64"
  shows "fsc_wf c \<and> contents c = xs \<and> max_size c = length raw"
  using assms
  by (auto simp: container_from_init_def fsc_wf_def contents_def max_size_def unat_of_nat_small)

lemma container_from_array_wf:
  assumes "length arr \<le> length raw" and "length raw < 2 ^ 64"
  shows "fsc_wf (container_from_array raw arr) \<and> contents (container_from_array raw arr) = arr"
  using assms
  by (auto simp: container_from_array_def fsc_wf_def contents_def unat_of_nat_small)

end
