(* ===== verification/Ipc_Types.thy ===== *)
theory Ipc_Types
  imports Fixed_Container
begin

unbundle bit_operations_syntax

text \<open>
  The plain data types of \<^verbatim>\<open>gateway_ipc_binding.hpp\<close> and the functions on them in
  \<^verbatim>\<open>impl/gateway_ipc_binding.cpp\<close>: services, shared memory metadata, the construction of
  shared memory object names, and the messages of the IPC protocol.

  Two levels are kept apart. The records with suffix \<open>_pod\<close> have the fixed containers that
  travel over IPC. The records without suffix hold the contents of these containers; they
  are the values that \<^verbatim>\<open>operator==\<close> distinguishes (\<open>service_pod_eq_contents\<close> below) and the
  ones the components above the wire are modelled on.
\<close>

definition kMax_find_service_elements :: nat where
  "kMax_find_service_elements = 16"

definition kMax_service_id_size :: nat where
  "kMax_service_id_size = 64"

definition kMax_instance_id_size :: nat where
  "kMax_instance_id_size = 64"

definition kMax_client_identifier_size :: nat where
  "kMax_client_identifier_size = 64"

text \<open>\<^verbatim>\<open>NAME_MAX\<close> of \<^verbatim>\<open><climits>\<close> on Linux.\<close>

definition kMax_shared_memory_path_size :: nat where
  "kMax_shared_memory_path_size = 255"

lemmas size_limits = kMax_find_service_elements_def kMax_service_id_size_def
  kMax_instance_id_size_def kMax_client_identifier_size_def kMax_shared_memory_path_size_def

type_synonym Event_id = u16
type_synonym Method_id = u16

record Version =
  major :: u16
  minor :: u16

record Service_interface_identifier =
  sii_id :: string
  sii_version :: Version

record Service_pod =
  pod_service_id :: Fixed_string
  pod_version :: Version

definition to_socom_identifier :: "Service_pod \<Rightarrow> Service_interface_identifier run" where
  "to_socom_identifier s =
    and_then (fixed_string_to_string (pod_service_id s)) (\<lambda>name.
      Ok \<lparr>sii_id = name, sii_version = \<lparr>major = major (pod_version s), minor = minor (pod_version s)\<rparr>\<rparr>)"

text \<open>\<^verbatim>\<open>&&\<close> evaluates left to right: the versions are read after the identifiers agree.\<close>

definition service_pod_eq :: "Service_pod \<Rightarrow> Service_pod \<Rightarrow> bool run" where
  "service_pod_eq lhs rhs =
    and_then (container_eq (pod_service_id lhs) (pod_service_id rhs)) (\<lambda>b.
      Ok (b \<and> major (pod_version lhs) = major (pod_version rhs)
            \<and> minor (pod_version lhs) = minor (pod_version rhs)))"

definition service_pod_hash ::
    "(u16 \<Rightarrow> size_t) \<Rightarrow> (string \<Rightarrow> size_t) \<Rightarrow> Service_pod \<Rightarrow> size_t run" where
  "service_pod_hash hash_u16 hash_sv s =
    and_then (container_hash hash_u16 hash_sv (pod_service_id s)) (\<lambda>h1.
      let h2 = hash_u16 (major (pod_version s)); h3 = hash_u16 (minor (pod_version s)) in
      Ok ((h1 XOR push_bit 1 h2) XOR push_bit 2 h3))"

definition make_service :: "Service_interface_identifier \<Rightarrow> Service_pod run" where
  "make_service interface =
    (case fixed_string_from_string kMax_service_id_size (sii_id interface) of
       Err _ \<Rightarrow> Err Assert_failed
     | Ok fs \<Rightarrow> Ok \<lparr>pod_service_id = fs,
                  pod_version = \<lparr>major = major (sii_version interface), minor = minor (sii_version interface)\<rparr>\<rparr>)"

definition make_instance_id :: "string \<Rightarrow> Fixed_string run" where
  "make_instance_id instance_id =
    (case fixed_string_from_string kMax_instance_id_size instance_id of
       Err _ \<Rightarrow> Err Assert_failed
     | Ok fs \<Rightarrow> Ok fs)"

record Shared_memory_handle =
  slot_index :: size_t
  used_bytes :: size_t

record Shared_memory_metadata_pod =
  pod_path :: Fixed_string
  pod_slot_size :: size_t
  pod_slot_count :: size_t

definition metadata_pod_eq :: "Shared_memory_metadata_pod \<Rightarrow> Shared_memory_metadata_pod \<Rightarrow> bool run" where
  "metadata_pod_eq lhs rhs =
    (if pod_slot_count lhs = pod_slot_count rhs \<and> pod_slot_size lhs = pod_slot_size rhs
        \<and> fsc_size (pod_path lhs) = fsc_size (pod_path rhs)
     then and_then (container_range (pod_path lhs)) (\<lambda>l.
          and_then (container_range (pod_path rhs)) (\<lambda>r. Ok (l = r)))
     else Ok False)"

record Service_instance_pod =
  pod_si_service :: Service_pod
  pod_si_instance :: Fixed_string

definition service_instance_pod_eq :: "Service_instance_pod \<Rightarrow> Service_instance_pod \<Rightarrow> bool run" where
  "service_instance_pod_eq lhs rhs =
    and_then (service_pod_eq (pod_si_service lhs) (pod_si_service rhs)) (\<lambda>b.
      if b then container_eq (pod_si_instance lhs) (pod_si_instance rhs) else Ok False)"

record Service_shared_memory_config_pod =
  pod_cfg_service :: Service_pod
  pod_cfg_instance :: Fixed_string
  pod_cfg_metadata :: Shared_memory_metadata_pod

definition shm_config_pod_eq ::
    "Service_shared_memory_config_pod \<Rightarrow> Service_shared_memory_config_pod \<Rightarrow> bool run" where
  "shm_config_pod_eq lhs rhs =
    and_then (service_pod_eq (pod_cfg_service lhs) (pod_cfg_service rhs)) (\<lambda>b.
      if \<not> b then Ok False
      else and_then (container_eq (pod_cfg_instance lhs) (pod_cfg_instance rhs)) (\<lambda>b'.
        if \<not> b' then Ok False
        else metadata_pod_eq (pod_cfg_metadata lhs) (pod_cfg_metadata rhs)))"

subsection \<open>Shared memory object names\<close>

text \<open>\<^verbatim>\<open>std::to_string\<close> of an unsigned integer.\<close>

fun decimal :: "nat \<Rightarrow> string" where
  "decimal n = (if n < 10 then [char_of (48 + n)] else decimal (n div 10) @ [char_of (48 + n mod 10)])"

declare decimal.simps [simp del]

definition flatten_service_type_name :: "string \<Rightarrow> string" where
  "flatten_service_type_name name =
    map (\<lambda>c. if c = CHR ''/'' then CHR ''_'' else c) (dropWhile (\<lambda>c. c = CHR ''/'') name)"

definition make_path :: "string \<Rightarrow> string \<Rightarrow> u16 \<Rightarrow> (Gateway_ipc_binding_error, Fixed_string) result" where
  "make_path prefix service_type_name service_id =
    fixed_string_from_string kMax_shared_memory_path_size
      (prefix @ flatten_service_type_name service_type_name @ ''_'' @ decimal (unat service_id))"

definition make_shared_memory_path :: "string \<Rightarrow> u16 \<Rightarrow> (Gateway_ipc_binding_error, Fixed_string) result" where
  "make_shared_memory_path service_type_name service_id = make_path ''/'' service_type_name service_id"

definition make_counterpart_shared_memory_path ::
    "string \<Rightarrow> u16 \<Rightarrow> (Gateway_ipc_binding_error, Fixed_string) result" where
  "make_counterpart_shared_memory_path service_type_name service_id =
    make_path ''/counterpart_'' service_type_name service_id"

subsection \<open>Contents of the wire records\<close>

type_synonym Service = Service_interface_identifier
type_synonym Instance_id = string

definition service_contents :: "Service_pod \<Rightarrow> Service" where
  "service_contents s = \<lparr>sii_id = contents (pod_service_id s), sii_version = pod_version s\<rparr>"

definition service_pod_wf :: "Service_pod \<Rightarrow> bool" where
  "service_pod_wf s \<longleftrightarrow> fsc_wf (pod_service_id s)"

lemma Version_eqI: "major v = major w \<Longrightarrow> minor v = minor w \<Longrightarrow> v = (w :: Version)"
  by simp

lemma service_pod_eq_contents:
  assumes "service_pod_wf a" and "service_pod_wf b"
  shows "service_pod_eq a b = Ok (service_contents a = service_contents b)"
  using assms
  by (auto simp: service_pod_eq_def service_pod_wf_def service_contents_def container_eq_contents)

lemma service_pod_hash_contents:
  assumes "service_pod_wf a" and "service_pod_wf b" and "service_contents a = service_contents b"
  shows "\<exists>h. service_pod_hash h16 hsv a = Ok h \<and> service_pod_hash h16 hsv b = Ok h"
  using assms
  by (simp add: service_pod_hash_def service_pod_wf_def service_contents_def container_hash_contents)

lemma to_socom_identifier_contents:
  "service_pod_wf s \<Longrightarrow> to_socom_identifier s = Ok (service_contents s)"
  by (simp add: to_socom_identifier_def service_pod_wf_def service_contents_def fixed_string_to_string_def)

lemma make_service_wf:
  assumes "make_service i = Ok s"
  shows "service_pod_wf s" and "service_contents s = i"
  using assms fixed_string_from_string_wf [of kMax_service_id_size "sii_id i"]
  by (auto simp: make_service_def service_pod_wf_def service_contents_def size_limits split: sum.splits)

lemma make_service_Ok_iff: "(\<exists>s. make_service i = Ok s) \<longleftrightarrow> length (sii_id i) \<le> kMax_service_id_size"
  using fixed_string_from_string_Ok_iff [of kMax_service_id_size "sii_id i"]
  by (auto simp: make_service_def split: sum.splits)

subsection \<open>Decimal numerals and paths\<close>

lemma decimal_digits: "c \<in> set (decimal n) \<Longrightarrow> \<exists>d < 10. c = char_of (48 + d :: nat)"
proof (induction n rule: decimal.induct)
  case (1 n)
  then show ?case
    by (subst (asm) (2) decimal.simps) (auto split: if_splits intro: exI [of _ "n mod 10"])
qed

lemma char_of_digit_neq:
  assumes "d < (10 :: nat)"
  shows "char_of (48 + d) \<noteq> CHR ''_''" and "char_of (48 + d) \<noteq> CHR ''/''"
proof -
  have eq: "of_char (char_of (48 + d) :: char) = 48 + d" using assms by simp
  show "char_of (48 + d) \<noteq> CHR ''_''"
  proof
    assume "char_of (48 + d) = CHR ''_''"
    with eq have "48 + d = of_char (CHR ''_'')" by metis
    then show False using assms by simp
  qed
  show "char_of (48 + d) \<noteq> CHR ''/''"
  proof
    assume "char_of (48 + d) = CHR ''/''"
    with eq have "48 + d = of_char (CHR ''/'')" by metis
    then show False using assms by simp
  qed
qed

lemma decimal_no_separator: "CHR ''_'' \<notin> set (decimal n)" "CHR ''/'' \<notin> set (decimal n)"
  using decimal_digits char_of_digit_neq by metis+

definition undecimal :: "string \<Rightarrow> nat" where
  "undecimal s = foldl (\<lambda>a c. 10 * a + (of_char c - 48)) 0 s"

lemma undecimal_decimal: "undecimal (decimal n) = n"
proof (induction n rule: decimal.induct)
  case (1 n)
  show ?case
  proof (cases "n < 10")
    case True
    then show ?thesis by (simp add: decimal.simps [of n] undecimal_def)
  next
    case False
    then have "undecimal (decimal n) = 10 * undecimal (decimal (n div 10)) + n mod 10"
      by (subst decimal.simps) (simp add: undecimal_def)
    also have "\<dots> = n" using 1 False by simp
    finally show ?thesis .
  qed
qed

lemma decimal_inj: "decimal m = decimal n \<Longrightarrow> m = n"
  using undecimal_decimal by metis

lemma split_at_first:
  assumes "xs @ c # ys = xs' @ c # ys'" and "c \<notin> set xs" and "c \<notin> set xs'"
  shows "xs = xs' \<and> ys = ys'"
  using assms
proof (induction xs arbitrary: xs')
  case Nil
  then show ?case by (cases xs') auto
next
  case (Cons x xs)
  then show ?case by (cases xs') auto
qed

lemma split_at_last:
  assumes "xs @ c # ys = xs' @ c # ys'" and "c \<notin> set ys" and "c \<notin> set ys'"
  shows "xs = xs' \<and> ys = ys'"
proof -
  have "rev ys @ c # rev xs = rev ys' @ c # rev xs'"
    using arg_cong [OF assms(1), of rev] by simp
  from split_at_first [OF this] show ?thesis using assms(2,3) by simp
qed

lemma flatten_no_slash: "CHR ''/'' \<notin> set (flatten_service_type_name n)"
  by (auto simp: flatten_service_type_name_def)

lemma flatten_id: "CHR ''/'' \<notin> set n \<Longrightarrow> flatten_service_type_name n = n"
  by (cases n) (auto simp: flatten_service_type_name_def intro: map_idI)

lemma flatten_idem [simp]:
  "flatten_service_type_name (flatten_service_type_name n) = flatten_service_type_name n"
  by (simp add: flatten_id flatten_no_slash)

lemma make_path_contents:
  assumes "make_path p n i = Ok c"
  shows "contents c = p @ flatten_service_type_name n @ ''_'' @ decimal (unat i)"
    and "fsc_wf c" and "length (contents c) \<le> kMax_shared_memory_path_size"
  using fixed_string_from_string_wf [OF assms [unfolded make_path_def]]
    length_contents_le [of c]
  by (simp_all add: size_limits)



text \<open>A shared memory object name is one path component: it starts with a slash, has no
  other slash, is at most NAME_MAX characters long and ends in the decimal service id; the
  call fails exactly when the name would be longer.\<close>

lemma make_shared_memory_path_form:
  "case make_shared_memory_path n i of
     Ok c \<Rightarrow> fsc_wf c \<and> length (contents c) \<le> kMax_shared_memory_path_size
            \<and> contents c = CHR ''/'' # flatten_service_type_name n @ ''_'' @ decimal (unat i)
            \<and> CHR ''/'' \<notin> set (tl (contents c))
   | Err e \<Rightarrow> kMax_shared_memory_path_size
               < 2 + length (flatten_service_type_name n) + length (decimal (unat i))"
proof (cases "make_shared_memory_path n i")
  case (Inl e)
  then have "kMax_shared_memory_path_size < Suc (Suc (length (flatten_service_type_name n) + length (decimal (unat i))))"
    by (simp add: make_shared_memory_path_def make_path_def fixed_string_from_string_Err_iff)
  with Inl show ?thesis by simp
next
  case (Inr c)
  then have "make_path ''/'' n i = Ok c" by (simp add: make_shared_memory_path_def)
  from make_path_contents [OF this] Inr flatten_no_slash [of n] decimal_no_separator(2) [of "unat i"]
  show ?thesis by simp
qed

text \<open>The equality and the hash of services are coherent, as \<^verbatim>\<open>std::unordered_map\<close> requires:
  on containers whose length word is in bounds, equality is defined, holds exactly when the
  names and versions are the same, and equal services have equal hashes, for every
  \<^verbatim>\<open>std::hash\<close>; the bytes behind the length word play no role.\<close>

lemma service_eq_hash_coherent:
  assumes "service_pod_wf a" and "service_pod_wf b"
  shows "service_pod_eq a b = Ok (service_contents a = service_contents b)
    \<and> (service_pod_eq a b = Ok True \<longrightarrow> (\<exists>h. service_pod_hash h16 hsv a = Ok h \<and> service_pod_hash h16 hsv b = Ok h))"
  using service_pod_eq_contents [OF assms] service_pod_hash_contents [OF assms] by auto

text \<open>Names survive the trip through the wire record: building a service from a SOCom
  identifier succeeds exactly when the name fits 64 bytes (otherwise the assertion fires),
  and reading it back gives the identifier.\<close>

lemma make_service_roundtrip:
  "case make_service i of
     Ok s \<Rightarrow> to_socom_identifier s = Ok i \<and> length (sii_id i) \<le> kMax_service_id_size
   | Err f \<Rightarrow> f = Assert_failed \<and> kMax_service_id_size < length (sii_id i)"
proof (cases "make_service i")
  case (Inl f)
  then have "\<not> length (sii_id i) \<le> kMax_service_id_size" using make_service_Ok_iff by (metis sum.distinct(2))
  moreover have "f = Assert_failed" using Inl by (auto simp: make_service_def split: sum.splits)
  ultimately show ?thesis using Inl by simp
next
  case (Inr s)
  then show ?thesis
    using to_socom_identifier_contents [OF make_service_wf(1) [OF Inr]] make_service_wf(2) [OF Inr]
      make_service_Ok_iff [of i] by auto
qed

end
