(* ===== verification/C_Layout.thy ===== *)
theory C_Layout
  imports Prelude
begin

text \<open>
  Object representation of trivially copyable C++ types under the x86-64 System V ABI, which
  is what crosses the control channel when a message frame is reinterpreted as bytes: sizes,
  alignments and field offsets of integers, arrays and structs, the byte image of a value
  and the value a byte image is read as. Integers are little endian and aligned to their
  size. Padding bytes are unspecified in C++; the image takes them from a function \<open>p\<close> that
  the theorems quantify over.
\<close>

datatype ctype = CInt nat | CArr nat ctype | CStruct "ctype list"

datatype cval = VInt nat | VSeq "cval list"

definition align_up :: "nat \<Rightarrow> nat \<Rightarrow> nat" where
  "align_up n a = (n + (a - 1)) div a * a"

fun calign :: "ctype \<Rightarrow> nat" where
  "calign (CInt n) = n"
| "calign (CArr n t) = calign t"
| "calign (CStruct ts) = foldr (\<lambda>t a. max (calign t) a) ts 1"

fun csize :: "ctype \<Rightarrow> nat" where
  "csize (CInt n) = n"
| "csize (CArr n t) = n * csize t"
| "csize (CStruct ts) =
    align_up (foldl (\<lambda>off t. align_up off (calign t) + csize t) 0 ts) (calign (CStruct ts))"

fun le_bytes :: "nat \<Rightarrow> nat \<Rightarrow> u8 list" where
  "le_bytes 0 x = []"
| "le_bytes (Suc n) x = of_nat (x mod 256) # le_bytes n (x div 256)"

fun le_nat :: "u8 list \<Rightarrow> nat" where
  "le_nat [] = 0"
| "le_nat (b # bs) = unat b + 256 * le_nat bs"

definition pad_to :: "(nat \<Rightarrow> u8) \<Rightarrow> nat \<Rightarrow> u8 list \<Rightarrow> u8 list" where
  "pad_to p n bs = bs @ map p [length bs..<n]"

fun enc :: "(nat \<Rightarrow> u8) \<Rightarrow> ctype \<Rightarrow> cval \<Rightarrow> u8 list"
  and enc_fields :: "(nat \<Rightarrow> u8) \<Rightarrow> u8 list \<Rightarrow> ctype list \<Rightarrow> cval list \<Rightarrow> u8 list" where
  "enc p (CInt n) (VInt x) = le_bytes n x"
| "enc p (CArr n t) (VSeq vs) = concat (map (enc p t) vs)"
| "enc p (CStruct ts) (VSeq vs) = pad_to p (csize (CStruct ts)) (enc_fields p [] ts vs)"
| "enc p (CInt n) (VSeq vs) = []"
| "enc p (CArr n t) (VInt x) = []"
| "enc p (CStruct ts) (VInt x) = []"
| "enc_fields p acc (t # ts) (v # vs) =
    enc_fields p (pad_to p (align_up (length acc) (calign t)) acc @ enc p t v) ts vs"
| "enc_fields p acc [] vs = acc"
| "enc_fields p acc (t # ts) [] = acc"

fun dec :: "ctype \<Rightarrow> u8 list \<Rightarrow> cval"
  and dec_fields :: "nat \<Rightarrow> ctype list \<Rightarrow> u8 list \<Rightarrow> cval list" where
  "dec (CInt n) bs = VInt (le_nat (take n bs))"
| "dec (CArr n t) bs = VSeq (map (\<lambda>i. dec t (drop (i * csize t) bs)) [0..<n])"
| "dec (CStruct ts) bs = VSeq (dec_fields 0 ts bs)"
| "dec_fields off [] bs = []"
| "dec_fields off (t # ts) bs =
    dec t (drop (align_up off (calign t)) bs)
      # dec_fields (align_up off (calign t) + csize t) ts bs"

fun has_type :: "ctype \<Rightarrow> cval \<Rightarrow> bool"
  and have_types :: "ctype list \<Rightarrow> cval list \<Rightarrow> bool" where
  "has_type (CInt n) (VInt x) \<longleftrightarrow> x < 256 ^ n"
| "has_type (CArr n t) (VSeq vs) \<longleftrightarrow> length vs = n \<and> list_all (has_type t) vs"
| "has_type (CStruct ts) (VSeq vs) \<longleftrightarrow> have_types ts vs"
| "has_type (CInt n) (VSeq vs) \<longleftrightarrow> False"
| "has_type (CArr n t) (VInt x) \<longleftrightarrow> False"
| "has_type (CStruct ts) (VInt x) \<longleftrightarrow> False"
| "have_types (t # ts) (v # vs) \<longleftrightarrow> has_type t v \<and> have_types ts vs"
| "have_types [] [] \<longleftrightarrow> True"
| "have_types [] (v # vs) \<longleftrightarrow> False"
| "have_types (t # ts) [] \<longleftrightarrow> False"

text \<open>No zero-width integers: every type has a positive alignment.\<close>

fun pos_type :: "ctype \<Rightarrow> bool" where
  "pos_type (CInt n) \<longleftrightarrow> 0 < n"
| "pos_type (CArr n t) \<longleftrightarrow> pos_type t"
| "pos_type (CStruct ts) \<longleftrightarrow> list_all pos_type ts"

subsection \<open>Little-endian integers\<close>

lemma length_le_bytes [simp]: "length (le_bytes n x) = n"
  by (induction n arbitrary: x) auto

lemma unat_byte: "unat (of_nat (x mod 256) :: u8) = x mod 256"
  by (rule unat_of_nat_small) simp

lemma le_nat_le_bytes: "x < 256 ^ n \<Longrightarrow> le_nat (le_bytes n x) = x"
proof (induction n arbitrary: x)
  case 0
  then show ?case by simp
next
  case (Suc n)
  have "x div 256 < 256 ^ n" using Suc.prems by (simp add: div_less_iff_less_mult mult.commute)
  then show ?case using Suc.IH unat_byte by (simp add: mult.commute)
qed

lemma le_nat_bound: "le_nat bs < 256 ^ length bs"
proof (induction bs)
  case Nil
  then show ?case by simp
next
  case (Cons b bs)
  have "unat b < 256" using unsigned_less [of b] by simp
  then show ?case using Cons by simp
qed

lemma le_bytes_le_nat: "le_bytes (length bs) (le_nat bs) = bs"
proof (induction bs)
  case Nil
  then show ?case by simp
next
  case (Cons b bs)
  have b: "unat b < 256" using unsigned_less [of b] by simp
  then have "(unat b + 256 * le_nat bs) mod 256 = unat b" "(unat b + 256 * le_nat bs) div 256 = le_nat bs"
    by simp_all
  then show ?case using Cons by simp
qed

subsection \<open>Layout\<close>

lemma align_up_ge: "0 < a \<Longrightarrow> n \<le> align_up n a"
proof -
  assume a: "0 < a"
  have "n + (a - 1) = (n + (a - 1)) div a * a + (n + (a - 1)) mod a" by simp
  moreover have "(n + (a - 1)) mod a \<le> a - 1" using a mod_less_divisor [of a "n + (a - 1)"] by linarith
  ultimately show ?thesis unfolding align_up_def by linarith
qed

lemma length_pad_to: "length (pad_to p n bs) = max n (length bs)"
  by (auto simp: pad_to_def)

lemma take_pad_to: "take (length bs) (pad_to p n bs) = bs"
  by (simp add: pad_to_def)

lemma prefix_pad_to: "pad_to p n bs = bs @ drop (length bs) (pad_to p n bs)"
  by (simp add: pad_to_def)

lemma calign_pos: "pos_type t \<Longrightarrow> 0 < calign t"
proof (induction t)
  case (CStruct ts)
  have "1 \<le> foldr (\<lambda>t a. max (calign t) a) us 1" for us by (induction us) auto
  from this [of ts] show ?case by simp
qed simp_all

subsection \<open>Reading back a byte image\<close>

lemma length_concat_uniform:
  "\<forall>x \<in> set xs. length x = k \<Longrightarrow> length (concat xs) = length xs * k"
  by (induction xs) auto

lemma drop_concat_uniform:
  "\<forall>x \<in> set xs. length x = k \<Longrightarrow> i \<le> length xs
    \<Longrightarrow> drop (i * k) (concat xs @ rest) = concat (drop i xs) @ rest"
proof (induction xs arbitrary: i)
  case Nil
  then show ?case by simp
next
  case (Cons x xs)
  then show ?case by (cases i) auto
qed

lemma enc_length:
  "has_type t v \<Longrightarrow> pos_type t \<Longrightarrow> length (enc p t v) = csize t"
  "have_types ts vs \<Longrightarrow> list_all pos_type ts \<Longrightarrow>
    length (enc_fields p acc ts vs) = foldl (\<lambda>off t. align_up off (calign t) + csize t) (length acc) ts"
proof (induction p t v and p acc ts vs rule: enc_enc_fields.induct)
  case (2 p n t vs)
  then have "\<forall>x \<in> set (map (enc p t) vs). length x = csize t" by (auto simp: list_all_iff)
  from length_concat_uniform [OF this] show ?case using 2 by simp
next
  case (3 p ts vs)
  have "0 < calign (CStruct ts)" using 3 by (intro calign_pos) simp
  then have "foldl (\<lambda>off t. align_up off (calign t) + csize t) 0 ts \<le> csize (CStruct ts)"
    using align_up_ge by simp
  then show ?case using 3 by (simp add: length_pad_to del: csize.simps)
next
  case (7 p acc t ts v vs)
  then show ?case using calign_pos align_up_ge by (simp add: length_pad_to)
qed simp_all

lemma enc_fields_prefix: "\<exists>ys. enc_fields p acc ts vs = acc @ ys"
proof (induction ts arbitrary: acc vs)
  case Nil
  then show ?case by simp
next
  case (Cons t ts)
  then show ?case
  proof (cases vs)
    case Nil
    then show ?thesis by simp
  next
    case (Cons v vs')
    obtain ys where "enc_fields p (pad_to p (align_up (length acc) (calign t)) acc @ enc p t v) ts vs'
        = (pad_to p (align_up (length acc) (calign t)) acc @ enc p t v) @ ys"
      using Cons.IH by blast
    then show ?thesis using Cons by (simp add: pad_to_def)
  qed
qed

lemma dec_enc:
  "has_type t v \<Longrightarrow> pos_type t \<Longrightarrow> dec t (enc p t v @ rest) = v"
  "have_types ts vs \<Longrightarrow> list_all pos_type ts \<Longrightarrow>
    dec_fields (length acc) ts (enc_fields p acc ts vs @ rest) = vs"
proof (induction p t v and p acc ts vs arbitrary: rest and rest rule: enc_enc_fields.induct)
  case (1 p n x)
  then show ?case by (simp add: le_nat_le_bytes)
next
  case (2 p n t vs)
  have uniform: "\<forall>x \<in> set (map (enc p t) vs). length x = csize t"
    using 2 by (auto simp: list_all_iff enc_length)
  have "dec t (drop (i * csize t) (concat (map (enc p t) vs) @ rest)) = vs ! i" if i: "i < n" for i
  proof -
    have len: "i < length vs" using i 2 by simp
    then have "drop (i * csize t) (concat (map (enc p t) vs) @ rest)
        = enc p t (vs ! i) @ concat (map (enc p t) (drop (Suc i) vs)) @ rest"
      using drop_concat_uniform [OF uniform, of i rest]
      by (simp add: drop_map flip: Cons_nth_drop_Suc)
    moreover have "vs ! i \<in> set vs" using len by simp
    ultimately show ?thesis using 2 by (auto simp: list_all_iff)
  qed
  then have "map (\<lambda>i. dec t (drop (i * csize t) (concat (map (enc p t) vs) @ rest))) [0..<n] = map ((!) vs) [0..<n]"
    by (intro map_cong) auto
  moreover have "map ((!) vs) [0..<n] = vs" using 2 map_nth [of vs] by simp
  ultimately show ?case by simp
next
  case (3 p ts vs)
  obtain ys where "pad_to p (csize (CStruct ts)) (enc_fields p [] ts vs) = enc_fields p [] ts vs @ ys"
    by (simp add: pad_to_def del: csize.simps)
  then show ?case using 3 by (simp del: csize.simps)
next
  case (7 p acc t ts v vs)
  define acc' where "acc' = pad_to p (align_up (length acc) (calign t)) acc"
  have "length acc \<le> align_up (length acc) (calign t)" using 7 by (simp add: calign_pos align_up_ge)
  then have len: "length acc' = align_up (length acc) (calign t)" by (simp add: acc'_def length_pad_to)
  obtain ys where ys: "enc_fields p (acc' @ enc p t v) ts vs = (acc' @ enc p t v) @ ys"
    using enc_fields_prefix by blast
  have step: "enc_fields p acc (t # ts) (v # vs) = enc_fields p (acc' @ enc p t v) ts vs"
    by (simp add: acc'_def)
  have "drop (length acc') (enc_fields p (acc' @ enc p t v) ts vs @ rest) = enc p t v @ ys @ rest"
    by (simp add: ys)
  then have "dec t (drop (length acc') (enc_fields p acc (t # ts) (v # vs) @ rest)) = v"
    using 7 step by simp
  moreover have "length (acc' @ enc p t v) = length acc' + csize t"
    using 7 by (simp add: enc_length)
  then have "dec_fields (length acc' + csize t) ts (enc_fields p acc (t # ts) (v # vs) @ rest) = vs"
    using 7 step by (simp add: acc'_def)
  ultimately show ?case using len by simp
next
  case (8 p acc vs)
  then show ?case by (cases vs) simp_all
qed simp_all

end
