(* ===== verification/Wire_Format.thy ===== *)
theory Wire_Format
  imports Ipc_Types C_Layout
begin

text \<open>
  The messages of the IPC protocol: their types and numbering, their layout as structs, the
  frame that precedes each of them, and \<^verbatim>\<open>check_and_cast\<close>, the gate every received byte
  string passes (\<^verbatim>\<open>gateway_ipc_binding.hpp\<close>, \<^verbatim>\<open>impl/gateway_ipc_binding_util.hpp\<close>,
  \<^verbatim>\<open>impl/reply_channel.hpp\<close>).

  \<open>message\<close> is the content level that the handlers work on; \<open>message_val\<close> is the struct that
  is sent and \<open>read_message\<close> is what a receiver reads out of the struct it is given. The
  method messages of the header carry no message type and cannot be framed; only their
  layout is given.
\<close>

datatype Message_type =
    MT_Connect | MT_Connect_reply | MT_Request_service | MT_Offer_service
  | MT_Connect_service | MT_Connect_service_reply | MT_Call_method | MT_Call_method_handle
  | MT_Call_method_reply | MT_Cancel_method_call | MT_Subscribe_event | MT_Subscribe_event_reply
  | MT_Event_update | MT_Event_update_request | MT_Payload_consumed

fun type_code :: "Message_type \<Rightarrow> nat" where
  "type_code MT_Connect = 1"
| "type_code MT_Connect_reply = 2"
| "type_code MT_Request_service = 3"
| "type_code MT_Offer_service = 4"
| "type_code MT_Connect_service = 5"
| "type_code MT_Connect_service_reply = 6"
| "type_code MT_Call_method = 7"
| "type_code MT_Call_method_handle = 8"
| "type_code MT_Call_method_reply = 9"
| "type_code MT_Cancel_method_call = 10"
| "type_code MT_Subscribe_event = 11"
| "type_code MT_Subscribe_event_reply = 12"
| "type_code MT_Event_update = 13"
| "type_code MT_Event_update_request = 14"
| "type_code MT_Payload_consumed = 15"

definition all_message_types :: "Message_type list" where
  "all_message_types =
    [MT_Connect, MT_Connect_reply, MT_Request_service, MT_Offer_service, MT_Connect_service,
     MT_Connect_service_reply, MT_Call_method, MT_Call_method_handle, MT_Call_method_reply,
     MT_Cancel_method_call, MT_Subscribe_event, MT_Subscribe_event_reply, MT_Event_update,
     MT_Event_update_request, MT_Payload_consumed]"

text \<open>\<^verbatim>\<open>static_cast<Message_type>\<close>: a byte outside the enumerators equals none of them.\<close>

definition get_message_type :: "u8 \<Rightarrow> Message_type option" where
  "get_message_type b = find (\<lambda>t. type_code t = unat b) all_message_types"

type_synonym Remote_handle = u64

record Shared_memory_metadata =
  path :: string
  slot_size :: size_t
  slot_count :: size_t

record Service_instance =
  si_service :: Service
  si_instance :: Instance_id

record Service_shared_memory_config =
  cfg_service :: Service
  cfg_instance :: Instance_id
  cfg_metadata :: Shared_memory_metadata

datatype message =
    Connect "Service_instance list" "Service_shared_memory_config list" string
  | Connect_reply bool
  | Request_service Service Instance_id bool
  | Offer_service Service Instance_id bool
  | Connect_service Service Instance_id Remote_handle Shared_memory_metadata bool
  | Connect_service_reply Remote_handle Remote_handle Shared_memory_metadata u16 u16
  | Subscribe_event Remote_handle Event_id bool
  | Event_update Remote_handle Event_id Shared_memory_handle
  | Event_update_request Remote_handle Event_id
  | Payload_consumed Remote_handle Shared_memory_handle

subsection \<open>Struct layouts\<close>

definition c_bool :: ctype where "c_bool = CInt 1"
definition c_u16 :: ctype where "c_u16 = CInt 2"
definition c_u64 :: ctype where "c_u64 = CInt 8"

definition c_container :: "nat \<Rightarrow> ctype \<Rightarrow> ctype" where
  "c_container n t = CStruct [c_u64, CArr n t]"

definition c_Version :: ctype where
  "c_Version = CStruct [c_u16, c_u16]"

definition c_Service :: ctype where
  "c_Service = CStruct [c_container kMax_service_id_size (CInt 1), c_Version]"

definition c_Instance_id :: ctype where
  "c_Instance_id = c_container kMax_instance_id_size (CInt 1)"

definition c_Shared_memory_handle :: ctype where
  "c_Shared_memory_handle = CStruct [c_u64, c_u64]"

definition c_Shared_memory_metadata :: ctype where
  "c_Shared_memory_metadata =
    CStruct [c_container kMax_shared_memory_path_size (CInt 1), c_u64, c_u64]"

definition c_Service_instance :: ctype where
  "c_Service_instance = CStruct [c_Service, c_Instance_id]"

definition c_Service_shared_memory_config :: ctype where
  "c_Service_shared_memory_config = CStruct [c_Service, c_Instance_id, c_Shared_memory_metadata]"

fun c_payload :: "Message_type \<Rightarrow> ctype" where
  "c_payload MT_Connect =
    CStruct [c_container kMax_find_service_elements c_Service_instance,
             c_container kMax_find_service_elements c_Service_shared_memory_config,
             c_container kMax_client_identifier_size (CInt 1)]"
| "c_payload MT_Connect_reply = CStruct [c_bool]"
| "c_payload MT_Request_service = CStruct [c_Service, c_Instance_id, c_bool]"
| "c_payload MT_Offer_service = CStruct [c_Service, c_Instance_id, c_bool]"
| "c_payload MT_Connect_service =
    CStruct [c_Service, c_Instance_id, c_u64, c_Shared_memory_metadata, c_bool]"
| "c_payload MT_Connect_service_reply =
    CStruct [c_u64, c_u64, c_Shared_memory_metadata, c_u16, c_u16]"
| "c_payload MT_Call_method = CStruct [c_u64, c_u16, c_bool, c_Shared_memory_handle]"
| "c_payload MT_Call_method_handle = CStruct [c_u64, c_u64]"
| "c_payload MT_Call_method_reply = CStruct [c_u64, c_u64, c_Shared_memory_handle]"
| "c_payload MT_Cancel_method_call = CStruct [c_u64, c_u16, c_u64]"
| "c_payload MT_Subscribe_event = CStruct [c_u64, c_u16, c_bool]"
| "c_payload MT_Subscribe_event_reply = CStruct [c_u64, c_u16, c_bool]"
| "c_payload MT_Event_update = CStruct [c_u64, c_u16, c_Shared_memory_handle]"
| "c_payload MT_Event_update_request = CStruct [c_u64, c_u16]"
| "c_payload MT_Payload_consumed = CStruct [c_u64, c_Shared_memory_handle]"

lemmas layout_defs = c_bool_def c_u16_def c_u64_def c_container_def c_Version_def c_Service_def
  c_Instance_id_def c_Shared_memory_handle_def c_Shared_memory_metadata_def
  c_Service_instance_def c_Service_shared_memory_config_def size_limits

definition c_Message_frame_header :: ctype where
  "c_Message_frame_header = CStruct [CInt 1, c_u16]"

definition c_Message_frame :: "Message_type \<Rightarrow> ctype" where
  "c_Message_frame t = CStruct [c_Message_frame_header, c_payload t]"

subsection \<open>Values of the structs\<close>

definition v_bool :: "bool \<Rightarrow> cval" where "v_bool b = VInt (if b then 1 else 0)"
definition v_word :: "'a::len word \<Rightarrow> cval" where "v_word w = VInt (unat w)"

definition v_container :: "('a \<Rightarrow> cval) \<Rightarrow> 'a list \<Rightarrow> cval list \<Rightarrow> cval" where
  "v_container f xs tail = VSeq [VInt (length xs), VSeq (map f xs @ tail)]"

definition v_string :: "nat \<Rightarrow> string \<Rightarrow> cval" where
  "v_string n s = v_container (\<lambda>c. VInt (of_char c)) s (replicate (n - length s) (VInt 0))"

definition v_Service :: "Service \<Rightarrow> cval" where
  "v_Service s = VSeq [v_string kMax_service_id_size (sii_id s),
                       VSeq [v_word (major (sii_version s)), v_word (minor (sii_version s))]]"

definition v_Instance_id :: "Instance_id \<Rightarrow> cval" where
  "v_Instance_id i = v_string kMax_instance_id_size i"

definition v_handle :: "Shared_memory_handle \<Rightarrow> cval" where
  "v_handle h = VSeq [v_word (slot_index h), v_word (used_bytes h)]"

definition v_metadata :: "Shared_memory_metadata \<Rightarrow> cval" where
  "v_metadata m = VSeq [v_string kMax_shared_memory_path_size (path m), v_word (slot_size m), v_word (slot_count m)]"

definition v_Service_instance :: "Service_instance \<Rightarrow> cval" where
  "v_Service_instance e = VSeq [v_Service (si_service e), v_Instance_id (si_instance e)]"

definition v_config :: "Service_shared_memory_config \<Rightarrow> cval" where
  "v_config c = VSeq [v_Service (cfg_service c), v_Instance_id (cfg_instance c), v_metadata (cfg_metadata c)]"

text \<open>The unused elements of the two containers of \<^verbatim>\<open>Connect\<close> are whatever the sender has
  there: the arguments \<open>tl1\<close>, \<open>tl2\<close>.\<close>

fun message_val :: "cval list \<Rightarrow> cval list \<Rightarrow> message \<Rightarrow> cval" where
  "message_val tl1 tl2 (Connect els cfgs ident) =
    VSeq [v_container v_Service_instance els tl1, v_container v_config cfgs tl2,
          v_string kMax_client_identifier_size ident]"
| "message_val tl1 tl2 (Connect_reply b) = VSeq [v_bool b]"
| "message_val tl1 tl2 (Request_service s i b) = VSeq [v_Service s, v_Instance_id i, v_bool b]"
| "message_val tl1 tl2 (Offer_service s i b) = VSeq [v_Service s, v_Instance_id i, v_bool b]"
| "message_val tl1 tl2 (Connect_service s i r m b) =
    VSeq [v_Service s, v_Instance_id i, v_word r, v_metadata m, v_bool b]"
| "message_val tl1 tl2 (Connect_service_reply r p m nm ne) =
    VSeq [v_word r, v_word p, v_metadata m, v_word nm, v_word ne]"
| "message_val tl1 tl2 (Subscribe_event p e b) = VSeq [v_word p, v_word e, v_bool b]"
| "message_val tl1 tl2 (Event_update r e h) = VSeq [v_word r, v_word e, v_handle h]"
| "message_val tl1 tl2 (Event_update_request p e) = VSeq [v_word p, v_word e]"
| "message_val tl1 tl2 (Payload_consumed r h) = VSeq [v_word r, v_handle h]"

fun message_type :: "message \<Rightarrow> Message_type" where
  "message_type (Connect _ _ _) = MT_Connect"
| "message_type (Connect_reply _) = MT_Connect_reply"
| "message_type (Request_service _ _ _) = MT_Request_service"
| "message_type (Offer_service _ _ _) = MT_Offer_service"
| "message_type (Connect_service _ _ _ _ _) = MT_Connect_service"
| "message_type (Connect_service_reply _ _ _ _ _) = MT_Connect_service_reply"
| "message_type (Subscribe_event _ _ _) = MT_Subscribe_event"
| "message_type (Event_update _ _ _) = MT_Event_update"
| "message_type (Event_update_request _ _) = MT_Event_update_request"
| "message_type (Payload_consumed _ _) = MT_Payload_consumed"

text \<open>\<^verbatim>\<open>Reply_channel::send(Msg_frame const&)\<close>: the bytes of the frame object.\<close>

definition frame_bytes :: "(nat \<Rightarrow> u8) \<Rightarrow> Message_type \<Rightarrow> cval \<Rightarrow> u8 list" where
  "frame_bytes p t v =
    enc p (c_Message_frame t) (VSeq [VSeq [VInt (type_code t), VInt (csize (c_payload t))], v])"

definition ival :: "cval \<Rightarrow> nat" where
  "ival v = (case v of VInt n \<Rightarrow> n | VSeq _ \<Rightarrow> 0)"

definition items :: "cval \<Rightarrow> cval list" where
  "items v = (case v of VInt _ \<Rightarrow> [] | VSeq vs \<Rightarrow> vs)"

definition field :: "nat \<Rightarrow> cval \<Rightarrow> cval" where
  "field i v = (case v of VInt n \<Rightarrow> VInt n | VSeq vs \<Rightarrow> vs ! i)"

definition check_and_cast :: "Message_type \<Rightarrow> nat \<Rightarrow> u8 list \<Rightarrow> cval option" where
  "check_and_cast msg_type address data =
    (if data = [] then None
     else if get_message_type (hd data) \<noteq> Some msg_type then None
     else if length data < csize (c_Message_frame msg_type) then None
     else if address mod calign (c_Message_frame msg_type) \<noteq> 0 then None
     else let frame = dec (c_Message_frame msg_type) data in
       if ival (field 1 (field 0 frame)) \<noteq> csize (c_payload msg_type) then None
       else Some (field 1 frame))"

subsection \<open>What a receiver reads out of an accepted struct\<close>

definition read_container :: "(cval \<Rightarrow> 'a run) \<Rightarrow> cval \<Rightarrow> 'a list run" where
  "read_container f v =
    (let n = ival (field 0 v); vs = items (field 1 v) in
     if n \<le> length vs
     then foldr (\<lambda>e r. and_then (f e) (\<lambda>x. and_then r (\<lambda>xs. Ok (x # xs)))) (take n vs) (Ok [])
     else Err Out_of_bounds)"

definition read_string :: "cval \<Rightarrow> string run" where
  "read_string = read_container (\<lambda>c. Ok (char_of (ival c)))"

definition read_word :: "cval \<Rightarrow> 'a::len word" where
  "read_word v = of_nat (ival v)"

definition read_bool :: "cval \<Rightarrow> bool" where
  "read_bool v \<longleftrightarrow> ival v \<noteq> 0"

definition read_Service :: "cval \<Rightarrow> Service run" where
  "read_Service v =
    and_then (read_string (field 0 v)) (\<lambda>name.
      Ok \<lparr>sii_id = name,
          sii_version = \<lparr>major = read_word (field 0 (field 1 v)), minor = read_word (field 1 (field 1 v))\<rparr>\<rparr>)"

definition read_handle :: "cval \<Rightarrow> Shared_memory_handle" where
  "read_handle v = \<lparr>slot_index = read_word (field 0 v), used_bytes = read_word (field 1 v)\<rparr>"

definition read_metadata :: "cval \<Rightarrow> Shared_memory_metadata run" where
  "read_metadata v =
    and_then (read_string (field 0 v)) (\<lambda>p.
      Ok \<lparr>path = p, slot_size = read_word (field 1 v), slot_count = read_word (field 2 v)\<rparr>)"

definition read_Service_instance :: "cval \<Rightarrow> Service_instance run" where
  "read_Service_instance v =
    and_then (read_Service (field 0 v)) (\<lambda>s.
    and_then (read_string (field 1 v)) (\<lambda>i. Ok \<lparr>si_service = s, si_instance = i\<rparr>))"

definition read_config :: "cval \<Rightarrow> Service_shared_memory_config run" where
  "read_config v =
    and_then (read_Service (field 0 v)) (\<lambda>s.
    and_then (read_string (field 1 v)) (\<lambda>i.
    and_then (read_metadata (field 2 v)) (\<lambda>m.
      Ok \<lparr>cfg_service = s, cfg_instance = i, cfg_metadata = m\<rparr>)))"

definition read_service_flag :: "(Service \<Rightarrow> Instance_id \<Rightarrow> bool \<Rightarrow> message) \<Rightarrow> cval \<Rightarrow> message run" where
  "read_service_flag mk v =
    and_then (read_Service (field 0 v)) (\<lambda>s.
    and_then (read_string (field 1 v)) (\<lambda>i. Ok (mk s i (read_bool (field 2 v)))))"

fun read_message :: "Message_type \<Rightarrow> cval \<Rightarrow> message run option" where
  "read_message MT_Connect v = Some
    (and_then (read_container read_Service_instance (field 0 v)) (\<lambda>els.
     and_then (read_container read_config (field 1 v)) (\<lambda>cfgs.
     and_then (read_string (field 2 v)) (\<lambda>ident. Ok (Connect els cfgs ident)))))"
| "read_message MT_Connect_reply v = Some (Ok (Connect_reply (read_bool (field 0 v))))"
| "read_message MT_Request_service v = Some (read_service_flag Request_service v)"
| "read_message MT_Offer_service v = Some (read_service_flag Offer_service v)"
| "read_message MT_Connect_service v = Some
    (and_then (read_Service (field 0 v)) (\<lambda>s.
     and_then (read_string (field 1 v)) (\<lambda>i.
     and_then (read_metadata (field 3 v)) (\<lambda>m.
       Ok (Connect_service s i (read_word (field 2 v)) m (read_bool (field 4 v)))))))"
| "read_message MT_Connect_service_reply v = Some
    (and_then (read_metadata (field 2 v)) (\<lambda>m.
       Ok (Connect_service_reply (read_word (field 0 v)) (read_word (field 1 v)) m
             (read_word (field 3 v)) (read_word (field 4 v)))))"
| "read_message MT_Subscribe_event v = Some
    (Ok (Subscribe_event (read_word (field 0 v)) (read_word (field 1 v)) (read_bool (field 2 v))))"
| "read_message MT_Event_update v = Some
    (Ok (Event_update (read_word (field 0 v)) (read_word (field 1 v)) (read_handle (field 2 v))))"
| "read_message MT_Event_update_request v = Some
    (Ok (Event_update_request (read_word (field 0 v)) (read_word (field 1 v))))"
| "read_message MT_Payload_consumed v = Some
    (Ok (Payload_consumed (read_word (field 0 v)) (read_handle (field 1 v))))"
| "read_message _ v = None"

text \<open>Messages whose strings and lists fit their containers: what the code can build.\<close>

definition fits_service :: "Service \<Rightarrow> bool" where
  "fits_service s \<longleftrightarrow> length (sii_id s) \<le> kMax_service_id_size"

definition fits_instance :: "Instance_id \<Rightarrow> bool" where
  "fits_instance i \<longleftrightarrow> length i \<le> kMax_instance_id_size"

definition fits_metadata :: "Shared_memory_metadata \<Rightarrow> bool" where
  "fits_metadata m \<longleftrightarrow> length (path m) \<le> kMax_shared_memory_path_size"

fun fits_message :: "cval list \<Rightarrow> cval list \<Rightarrow> message \<Rightarrow> bool" where
  "fits_message tl1 tl2 (Connect els cfgs ident) \<longleftrightarrow>
     list_all (\<lambda>e. fits_service (si_service e) \<and> fits_instance (si_instance e)) els
   \<and> list_all (\<lambda>c. fits_service (cfg_service c) \<and> fits_instance (cfg_instance c) \<and> fits_metadata (cfg_metadata c)) cfgs
   \<and> length ident \<le> kMax_client_identifier_size
   \<and> length els + length tl1 = kMax_find_service_elements \<and> list_all (has_type c_Service_instance) tl1
   \<and> length cfgs + length tl2 = kMax_find_service_elements \<and> list_all (has_type c_Service_shared_memory_config) tl2"
| "fits_message tl1 tl2 (Request_service s i b) \<longleftrightarrow> fits_service s \<and> fits_instance i"
| "fits_message tl1 tl2 (Offer_service s i b) \<longleftrightarrow> fits_service s \<and> fits_instance i"
| "fits_message tl1 tl2 (Connect_service s i r m b) \<longleftrightarrow> fits_service s \<and> fits_instance i \<and> fits_metadata m"
| "fits_message tl1 tl2 (Connect_service_reply r p m nm ne) \<longleftrightarrow> fits_metadata m"
| "fits_message tl1 tl2 _ \<longleftrightarrow> True"

text \<open>A request as a faulty peer may send it: the length word of the service name is \<open>n\<close>.\<close>

definition request_with_length :: "nat \<Rightarrow> cval" where
  "request_with_length n =
    VSeq [VSeq [VSeq [VInt n, VSeq (replicate kMax_service_id_size (VInt 0))], VSeq [VInt 0, VInt 0]],
          v_Instance_id [], v_bool True]"

subsection \<open>Sizes\<close>

lemma pos_c_Message_frame: "pos_type (c_Message_frame t)"
  by (cases t) (simp_all add: c_Message_frame_def c_Message_frame_header_def layout_defs)

lemma type_code_small: "0 < type_code t \<and> type_code t < 256"
  by (cases t) simp_all

lemma get_message_type_code: "get_message_type (of_nat (type_code t)) = Some t"
  by (cases t) (simp_all add: get_message_type_def all_message_types_def)

lemma sizeof_structs:
  "csize c_Service = 80" "csize c_Instance_id = 72" "csize c_Service_instance = 152"
  "csize c_Shared_memory_metadata = 280" "csize c_Service_shared_memory_config = 432"
  "calign c_Service = 8" "calign c_Instance_id = 8" "calign c_Service_instance = 8"
  "calign c_Shared_memory_metadata = 8" "calign c_Service_shared_memory_config = 8"
  "csize c_Shared_memory_handle = 16" "calign c_Shared_memory_handle = 8"
  by (simp_all add: layout_defs align_up_def max_def)

lemma csize_c_payload_bound: "csize (c_payload t) < 65536 \<and> csize (c_Message_frame t) \<le> 9440"
  by (cases t)
    (simp_all add: c_Message_frame_def c_Message_frame_header_def layout_defs align_up_def max_def)

lemma frame_header_type: "has_type c_Message_frame_header (VSeq [VInt (type_code t), VInt (csize (c_payload t))])"
  using csize_c_payload_bound [of t] type_code_small [of t]
  by (simp add: c_Message_frame_header_def layout_defs)

subsection \<open>Values are well typed and read back\<close>

lemmas val_defs = v_bool_def v_word_def v_handle_def v_metadata_def v_Service_def
  v_Instance_id_def v_Service_instance_def v_config_def

lemma field_VSeq [simp]: "field i (VSeq vs) = vs ! i"
  by (simp add: field_def)

lemma items_VSeq [simp]: "items (VSeq vs) = vs"
  by (simp add: items_def)

lemma ival_VInt [simp]: "ival (VInt n) = n"
  by (simp add: ival_def)

lemma word16_type: "has_type c_u16 (v_word (w :: u16))"
  using unsigned_less [of w] by (simp add: c_u16_def v_word_def)

lemma word64_type: "has_type c_u64 (v_word (w :: u64))"
  using unsigned_less [of w] by (simp add: c_u64_def v_word_def)

lemma bool_type: "has_type c_bool (v_bool b)"
  by (simp add: c_bool_def v_bool_def)

lemma container_type:
  assumes "length xs + length tail = n" and "n < 2 ^ 64"
    and "list_all (\<lambda>x. has_type t (f x)) xs" and "list_all (has_type t) tail"
  shows "has_type (c_container n t) (v_container f xs tail)"
  using assms by (auto simp: c_container_def v_container_def c_u64_def list_all_iff)

lemma string_type:
  assumes "length s \<le> n" and "n < 2 ^ 64"
  shows "has_type (c_container n (CInt 1)) (v_string n s)"
proof -
  have "(of_char c :: nat) < 256" for c
    using of_char_mod_256 [of c, where ?'a = nat] mod_less_divisor [of 256 "of_char c :: nat"] by linarith
  then show ?thesis unfolding v_string_def
    by (intro container_type) (use assms in \<open>auto simp: list_all_iff\<close>)
qed

lemma service_type: "fits_service s \<Longrightarrow> has_type c_Service (v_Service s)"
  using string_type [of "sii_id s" kMax_service_id_size] word16_type
  by (simp add: c_Service_def v_Service_def c_Version_def fits_service_def size_limits)

lemma instance_type: "fits_instance i \<Longrightarrow> has_type c_Instance_id (v_Instance_id i)"
  using string_type [of i kMax_instance_id_size]
  by (simp add: c_Instance_id_def v_Instance_id_def fits_instance_def size_limits)

lemma metadata_type: "fits_metadata m \<Longrightarrow> has_type c_Shared_memory_metadata (v_metadata m)"
  using string_type [of "path m" kMax_shared_memory_path_size] word64_type
  by (simp add: c_Shared_memory_metadata_def v_metadata_def fits_metadata_def size_limits)

lemma handle_type: "has_type c_Shared_memory_handle (v_handle h)"
  using word64_type by (simp add: c_Shared_memory_handle_def v_handle_def)

lemmas field_types = word16_type word64_type bool_type service_type instance_type metadata_type handle_type

lemma message_val_type:
  assumes "fits_message tl1 tl2 m"
  shows "has_type (c_payload (message_type m)) (message_val tl1 tl2 m)"
proof (cases m)
  case (Connect els cfgs ident)
  have "has_type (c_container kMax_find_service_elements c_Service_instance) (v_container v_Service_instance els tl1)"
    by (rule container_type)
      (use assms Connect in \<open>auto simp: list_all_iff c_Service_instance_def v_Service_instance_def field_types size_limits\<close>)
  moreover have "has_type (c_container kMax_find_service_elements c_Service_shared_memory_config) (v_container v_config cfgs tl2)"
    by (rule container_type)
      (use assms Connect in \<open>auto simp: list_all_iff c_Service_shared_memory_config_def v_config_def field_types size_limits\<close>)
  moreover have "has_type (c_container kMax_client_identifier_size (CInt 1)) (v_string kMax_client_identifier_size ident)"
    by (rule string_type) (use assms Connect in \<open>auto simp: size_limits\<close>)
  ultimately show ?thesis using Connect by simp
qed (use assms in \<open>simp_all add: field_types\<close>)

lemma read_word_v_word [simp]: "read_word (v_word w) = w"
  by (simp add: read_word_def v_word_def)

lemma read_bool_v_bool [simp]: "read_bool (v_bool b) = b"
  by (simp add: read_bool_def v_bool_def)

lemma read_container_v_container:
  assumes "\<And>x. x \<in> set xs \<Longrightarrow> g (f x) = Ok x"
  shows "read_container g (v_container f xs tail) = Ok xs"
proof -
  have "foldr (\<lambda>e r. and_then (g e) (\<lambda>x. and_then r (\<lambda>xs. Ok (x # xs)))) (map f ys) (Ok []) = Ok ys"
    if "set ys \<subseteq> set xs" for ys
    using that by (induction ys) (auto simp: assms)
  then show ?thesis by (simp add: read_container_def v_container_def)
qed

lemma read_string_v_string [simp]: "read_string (v_string n s) = Ok s"
  unfolding read_string_def v_string_def by (rule read_container_v_container) simp

lemma read_Service_v_Service [simp]: "read_Service (v_Service s) = Ok s"
  by (simp add: read_Service_def v_Service_def)

lemma read_instance_v_Instance_id [simp]: "read_string (v_Instance_id i) = Ok i"
  by (simp add: v_Instance_id_def)

lemma read_handle_v_handle [simp]: "read_handle (v_handle h) = h"
  by (simp add: read_handle_def v_handle_def)

lemma read_metadata_v_metadata [simp]: "read_metadata (v_metadata m) = Ok m"
  by (simp add: read_metadata_def v_metadata_def)

lemma read_Service_instance_v [simp]: "read_Service_instance (v_Service_instance e) = Ok e"
  by (simp add: read_Service_instance_def v_Service_instance_def)

lemma read_config_v_config [simp]: "read_config (v_config c) = Ok c"
  by (simp add: read_config_def v_config_def)

lemma read_message_val: "read_message (message_type m) (message_val tl1 tl2 m) = Some (Ok m)"
  by (cases m) (simp_all add: read_container_v_container read_service_flag_def)

subsection \<open>Frames\<close>

lemma c_Message_frame_val:
  "has_type (c_payload t) v \<Longrightarrow>
    has_type (c_Message_frame t) (VSeq [VSeq [VInt (type_code t), VInt (csize (c_payload t))], v])"
  using frame_header_type [of t] by (simp add: c_Message_frame_def)

lemma frame_bytes_length:
  "has_type (c_payload t) v \<Longrightarrow> length (frame_bytes p t v) = csize (c_Message_frame t)"
  unfolding frame_bytes_def by (intro enc_length c_Message_frame_val pos_c_Message_frame)

lemma frame_bytes_dec:
  "has_type (c_payload t) v \<Longrightarrow>
    dec (c_Message_frame t) (frame_bytes p t v @ rest) = VSeq [VSeq [VInt (type_code t), VInt (csize (c_payload t))], v]"
  unfolding frame_bytes_def by (intro dec_enc c_Message_frame_val pos_c_Message_frame)

lemma csize_c_Message_frame_pos: "0 < csize (c_Message_frame t)"
  by (cases t)
    (simp_all add: c_Message_frame_def c_Message_frame_header_def layout_defs align_up_def max_def)

lemma calign_c_Message_frame_8: "calign (c_Message_frame t) dvd 8"
  by (cases t)
    (simp_all add: c_Message_frame_def c_Message_frame_header_def layout_defs max_def)

lemma frame_bytes_hd:
  assumes "has_type (c_payload t) v"
  shows "frame_bytes p t v \<noteq> [] \<and> hd (frame_bytes p t v @ rest) = of_nat (type_code t)"
proof -
  have nonempty: "frame_bytes p t v \<noteq> []"
    using frame_bytes_length [OF assms, of p] csize_c_Message_frame_pos [of t] by auto
  have "ival (field 0 (field 0 (dec (c_Message_frame t) (frame_bytes p t v)))) = type_code t"
    using frame_bytes_dec [OF assms, of p "[]"] by simp
  then have "le_nat (take 1 (frame_bytes p t v)) = type_code t"
    by (simp add: c_Message_frame_def c_Message_frame_header_def align_up_def)
  then have "unat (hd (frame_bytes p t v)) = type_code t"
    using nonempty by (cases "frame_bytes p t v") simp_all
  then show ?thesis using nonempty by (metis hd_append2 of_nat_unat ucast_id)
qed

lemma check_and_cast_frame:
  assumes "has_type (c_payload t) v"
  shows "check_and_cast t' a (frame_bytes p t v @ rest) =
    (if t' = t \<and> a mod calign (c_Message_frame t) = 0 then Some v else None)"
  using frame_bytes_hd [OF assms] frame_bytes_dec [OF assms] frame_bytes_length [OF assms]
  by (simp add: check_and_cast_def get_message_type_code)

text \<open>C11. Wire round trip. The bytes of the frame of any message that fits its containers,
  whatever its padding bytes and unused container elements hold and whatever follows it in
  the receive buffer, are accepted by \<^verbatim>\<open>check_and_cast\<close> for the message's own type when the
  buffer is 8-byte aligned, read back as the same message, and are rejected for every other type.\<close>

theorem wire_roundtrip:
  assumes "fits_message tl1 tl2 m" and "address mod 8 = 0"
  shows "(\<exists>v. check_and_cast (message_type m) address
                (frame_bytes p (message_type m) (message_val tl1 tl2 m) @ rest) = Some v
            \<and> read_message (message_type m) v = Some (Ok m))
    \<and> (\<forall>t. t \<noteq> message_type m \<longrightarrow>
          check_and_cast t address (frame_bytes p (message_type m) (message_val tl1 tl2 m) @ rest) = None)"
proof -
  have "address mod calign (c_Message_frame (message_type m)) = 0"
    using assms(2) calign_c_Message_frame_8 by (meson dvd_trans mod_0_imp_dvd mod_eq_0_iff_dvd)
  then show ?thesis
    using check_and_cast_frame [OF message_val_type [OF assms(1)]] read_message_val by simp
qed

theorem wire_roundtrip_witness:
  "(\<exists>v. check_and_cast MT_Subscribe_event 4096
          (frame_bytes (\<lambda>_. 170) MT_Subscribe_event (message_val [] [] (Subscribe_event 7 3 True)) @ [1, 2]) = Some v
      \<and> read_message MT_Subscribe_event v = Some (Ok (Subscribe_event 7 3 True)))
   \<and> check_and_cast MT_Event_update 4096
       (frame_bytes (\<lambda>_. 170) MT_Subscribe_event (message_val [] [] (Subscribe_event 7 3 True)) @ [1, 2]) = None"
  using wire_roundtrip [of "[]" "[]" "Subscribe_event 7 3 True" 4096 "\<lambda>_. 170" "[1, 2]"] by simp

text \<open>Frame sizes. Every payload size is representable in the 16-bit \<^verbatim>\<open>payload_size\<close> field, the
  largest frame is the one of \<^verbatim>\<open>Connect\<close> with 9440 bytes, and therefore every frame fits the
  32768-byte limit that both daemons configure for the channel.\<close>

lemma frame_sizes:
  "unat (of_nat (csize (c_payload t)) :: u16) = csize (c_payload t)
   \<and> csize (c_Message_frame t) \<le> csize (c_Message_frame MT_Connect)
   \<and> csize (c_Message_frame MT_Connect) = 9440 \<and> (9440 :: nat) \<le> 32768"
proof -
  have "csize (c_Message_frame MT_Connect) = 9440"
    by (simp add: c_Message_frame_def c_Message_frame_header_def layout_defs align_up_def max_def)
  moreover have "unat (of_nat (csize (c_payload t)) :: u16) = csize (c_payload t)"
    using csize_c_payload_bound [of t] by (intro unat_of_nat_small) simp
  ultimately show ?thesis using csize_c_payload_bound [of t] by simp
qed

text \<open>C31. The length words inside a message are not checked. A \<^verbatim>\<open>Request_service\<close> frame whose
  service name claims any length above 64 passes \<^verbatim>\<open>check_and_cast\<close>, and reading the name then
  leaves the 64-byte buffer.\<close>

theorem check_and_cast_admits_oversized_name:
  assumes "kMax_service_id_size < n" and "n < 2 ^ 64"
  shows "\<exists>v. check_and_cast MT_Request_service 0 (frame_bytes p MT_Request_service (request_with_length n)) = Some v
           \<and> read_message MT_Request_service v = Some (Err Out_of_bounds)"
proof -
  have "has_type (c_payload MT_Request_service) (request_with_length n)"
    using assms instance_type [of "[]"] bool_type
    by (simp add: request_with_length_def c_Service_def c_container_def c_Version_def c_u16_def c_u64_def
        fits_instance_def list_all_iff)
  from check_and_cast_frame [OF this, of MT_Request_service 0 p "[]"] show ?thesis using assms(1)
    by (simp add: read_service_flag_def read_Service_def read_string_def read_container_def request_with_length_def)
qed

theorem check_and_cast_admits_oversized_name_witness:
  "\<exists>v. check_and_cast MT_Request_service 0 (frame_bytes (\<lambda>_. 0) MT_Request_service (request_with_length 65)) = Some v
     \<and> read_message MT_Request_service v = Some (Err Out_of_bounds)"
  using check_and_cast_admits_oversized_name [of 65 "\<lambda>_. 0"] by (simp add: size_limits)

end
