(* ===== verification/Socom_Payload.thy ===== *)
theory Socom_Payload
  imports Prelude
begin

text \<open>
  Payloads of SOCom (\<^verbatim>\<open>socom/payload.hpp\<close>, \<^verbatim>\<open>socom/impl/payload.cpp\<close>): a span of memory that starts
  with an optional lead and header, the shared memory slot it belongs to, and the callback
  that runs once when the payload is destroyed. The callback is a value of type \<open>'cb\<close>;
  \<open>None\<close> is an empty function object, as a moved-from payload has it. A \<^verbatim>\<open>subspan\<close> outside the
  span is a fault.
\<close>

text \<open>A span of bytes: start address and length.\<close>

record span =
  span_data :: size_t
  span_size :: size_t

definition empty_span :: span where
  "empty_span = \<lparr>span_data = 0, span_size = 0\<rparr>"

definition subspan_from :: "size_t \<Rightarrow> span \<Rightarrow> span run" where
  "subspan_from off s =
    (if off \<le> span_size s then Ok \<lparr>span_data = span_data s + off, span_size = span_size s - off\<rparr>
     else Err Out_of_bounds)"

definition subspan :: "size_t \<Rightarrow> size_t \<Rightarrow> span \<Rightarrow> span run" where
  "subspan off n s =
    (if off \<le> span_size s \<and> n \<le> span_size s - off then Ok \<lparr>span_data = span_data s + off, span_size = n\<rparr>
     else Err Out_of_bounds)"

definition kNoSlotHandle :: size_t where
  "kNoSlotHandle = - 1"

record 'cb Payload =
  pl_span :: span
  pl_lead_offset :: size_t
  pl_header_size :: size_t
  pl_slot_handle :: size_t
  pl_destroyed :: "'cb option"

definition make_payload :: "span \<Rightarrow> size_t \<Rightarrow> 'cb \<Rightarrow> size_t \<Rightarrow> size_t \<Rightarrow> 'cb Payload" where
  "make_payload s slot cb header lead =
    \<lparr>pl_span = s, pl_lead_offset = lead, pl_header_size = header, pl_slot_handle = slot, pl_destroyed = Some cb\<rparr>"

definition empty_payload :: "'cb \<Rightarrow> 'cb Payload" where
  "empty_payload no_op = make_payload empty_span kNoSlotHandle no_op 0 0"

definition payload_data :: "'cb Payload \<Rightarrow> span run" where
  "payload_data p = subspan_from (pl_lead_offset p + pl_header_size p) (pl_span p)"

definition payload_header :: "'cb Payload \<Rightarrow> span run" where
  "payload_header p = subspan (pl_lead_offset p) (pl_header_size p) (pl_span p)"

definition get_slot_handle :: "'cb Payload \<Rightarrow> size_t" where
  "get_slot_handle p = pl_slot_handle p"

definition payload_shrink :: "size_t \<Rightarrow> 'cb Payload \<Rightarrow> (bool \<times> 'cb Payload) run" where
  "payload_shrink n p =
    and_then (payload_data p) (\<lambda>d.
      if n > span_size d then Ok (False, p)
      else and_then (subspan 0 (pl_lead_offset p + pl_header_size p + n) (pl_span p)) (\<lambda>s.
        Ok (True, p\<lparr>pl_span := s\<rparr>)))"

text \<open>Comparison of the bytes of two spans, for a memory \<open>mem\<close>.\<close>

definition span_bytes :: "(size_t \<Rightarrow> u8) \<Rightarrow> span \<Rightarrow> u8 list" where
  "span_bytes mem s = map (\<lambda>i. mem (span_data s + of_nat i)) [0..<unat (span_size s)]"

definition payload_eq :: "(size_t \<Rightarrow> u8) \<Rightarrow> 'cb Payload \<Rightarrow> 'cb Payload \<Rightarrow> bool run" where
  "payload_eq mem a b =
    and_then (payload_header a) (\<lambda>ha. and_then (payload_header b) (\<lambda>hb.
      if span_bytes mem ha \<noteq> span_bytes mem hb then Ok False
      else and_then (payload_data a) (\<lambda>da. and_then (payload_data b) (\<lambda>db.
        Ok (span_bytes mem da = span_bytes mem db)))))"

text \<open>Moves: the new object, the moved-from object and the callbacks that ran.\<close>

definition payload_move :: "'cb Payload \<Rightarrow> 'cb Payload \<times> 'cb Payload" where
  "payload_move other = (other, other\<lparr>pl_destroyed := None\<rparr>)"

definition call_payload_destroyed :: "'cb Payload \<Rightarrow> 'cb list" where
  "call_payload_destroyed p = (case pl_destroyed p of None \<Rightarrow> [] | Some cb \<Rightarrow> [cb])"

definition payload_assign :: "'cb Payload \<Rightarrow> 'cb Payload \<Rightarrow> 'cb Payload \<times> 'cb Payload \<times> 'cb list" where
  "payload_assign this other = (other, other\<lparr>pl_destroyed := None\<rparr>, call_payload_destroyed this)"

text \<open>The lead and the header lie inside the span, without wrap-around of the offsets.\<close>

definition payload_wf :: "'cb Payload \<Rightarrow> bool" where
  "payload_wf p \<longleftrightarrow> unat (pl_lead_offset p) + unat (pl_header_size p) \<le> unat (span_size (pl_span p))"

subsection \<open>Header and data\<close>

lemma unat_add_bound:
  fixes a b c :: size_t
  assumes "unat a + unat b \<le> unat c"
  shows "unat (a + b) = unat a + unat b" and "a + b \<le> c" and "a \<le> c" and "b \<le> c - a"
    and "unat (c - a) = unat c - unat a"
proof -
  have "unat a + unat b < 2 ^ 64" using assms unsigned_less [of c, where ?'a = nat] by simp
  then show u: "unat (a + b) = unat a + unat b" by (simp add: unat_word_ariths)
  show "a + b \<le> c" using assms u by (simp add: word_le_nat_alt)
  show ac: "a \<le> c" using assms by (simp add: word_le_nat_alt)
  then show "unat (c - a) = unat c - unat a" by (simp add: unat_sub)
  then show "b \<le> c - a" using assms by (simp add: word_le_nat_alt)
qed

lemma payload_data_wf:
  assumes "payload_wf p"
  shows "payload_data p = Ok \<lparr>span_data = span_data (pl_span p) + (pl_lead_offset p + pl_header_size p),
      span_size = span_size (pl_span p) - (pl_lead_offset p + pl_header_size p)\<rparr>"
  using unat_add_bound(2) [OF assms [unfolded payload_wf_def]]
  by (simp add: payload_data_def subspan_from_def)

lemma payload_header_wf:
  assumes "payload_wf p"
  shows "payload_header p = Ok \<lparr>span_data = span_data (pl_span p) + pl_lead_offset p, span_size = pl_header_size p\<rparr>"
  using unat_add_bound(3,4) [OF assms [unfolded payload_wf_def]]
  by (simp add: payload_header_def subspan_def)

text \<open>Each callback runs at most once: moving transfers it.\<close>

lemma payload_assign_callbacks:
  "payload_assign this other = (t, o', cbs) \<Longrightarrow>
    cbs @ call_payload_destroyed t @ call_payload_destroyed o' = call_payload_destroyed this @ call_payload_destroyed other"
  by (auto simp: payload_assign_def call_payload_destroyed_def)

lemma payload_move_callbacks:
  "payload_move other = (n, o') \<Longrightarrow> call_payload_destroyed n @ call_payload_destroyed o' = call_payload_destroyed other"
  by (auto simp: payload_move_def call_payload_destroyed_def)

lemma payload_shrink_wf:
  assumes "payload_wf p" and "unat n \<le> unat (span_size (pl_span p)) - (unat (pl_lead_offset p) + unat (pl_header_size p))"
  shows "\<exists>s. payload_shrink n p = Ok (True, p\<lparr>pl_span := s\<rparr>)
    \<and> span_data s = span_data (pl_span p) \<and> span_size s = pl_lead_offset p + pl_header_size p + n
    \<and> unat (span_size s) = unat (pl_lead_offset p) + unat (pl_header_size p) + unat n"
proof -
  let ?o = "pl_lead_offset p + pl_header_size p" and ?c = "span_size (pl_span p)"
  note b = unat_add_bound [OF assms(1) [unfolded payload_wf_def]]
  have c: "unat ?o + unat n \<le> unat ?c" using assms b(1) by (simp add: payload_wf_def)
  note b' = unat_add_bound [OF c]
  have le: "\<not> ?c - ?o < n" using b'(4) by (simp add: not_less)
  let ?s = "\<lparr>span_data = span_data (pl_span p), span_size = ?o + n\<rparr>"
  have "payload_shrink n p = Ok (True, p\<lparr>pl_span := ?s\<rparr>)"
    using le b'(2) by (simp add: payload_shrink_def payload_data_wf [OF assms(1)] subspan_def)
  then show ?thesis using b'(1) b(1) by (intro exI [of _ ?s]) simp
qed

text \<open>Shrinking a payload keeps its header and start and gives exactly the requested data size;
  a request above the current data size changes nothing and returns false.\<close>

lemma payload_shrink_exact:
  assumes "payload_wf p"
  shows "case payload_data p of
      Err f \<Rightarrow> False
    | Ok d \<Rightarrow>
        (if n > span_size d then payload_shrink n p = Ok (False, p)
         else \<exists>p' d'. payload_shrink n p = Ok (True, p') \<and> payload_data p' = Ok d'
               \<and> span_size d' = n \<and> span_data d' = span_data d
               \<and> payload_header p' = payload_header p \<and> payload_wf p'
               \<and> pl_slot_handle p' = pl_slot_handle p \<and> pl_destroyed p' = pl_destroyed p)"
proof -
  let ?o = "pl_lead_offset p + pl_header_size p" and ?c = "span_size (pl_span p)"
  note b = unat_add_bound [OF assms [unfolded payload_wf_def]]
  show ?thesis
  proof (cases "n > ?c - ?o")
    case True
    then show ?thesis by (simp add: payload_data_wf [OF assms] payload_shrink_def)
  next
    case False
    then have "unat n \<le> unat ?c - (unat (pl_lead_offset p) + unat (pl_header_size p))"
      using b by (simp add: word_le_nat_alt not_less unat_sub)
    from payload_shrink_wf [OF assms this] obtain s where
      s: "payload_shrink n p = Ok (True, p\<lparr>pl_span := s\<rparr>)" "span_data s = span_data (pl_span p)"
        "span_size s = ?o + n" "unat (span_size s) = unat (pl_lead_offset p) + unat (pl_header_size p) + unat n"
      by blast
    then have wf': "payload_wf (p\<lparr>pl_span := s\<rparr>)" by (simp add: payload_wf_def)
    show ?thesis using False s wf'
      by (simp add: payload_data_wf [OF assms] payload_data_wf [OF wf'] payload_header_wf [OF assms] payload_header_wf [OF wf'])
  qed
qed

end
