(* ===== verification/Slot_Manager.thy ===== *)
theory Slot_Manager
  imports Wire_Format Socom_Payload
begin

text \<open>
  Reference-counted slots of a shared memory block (\<^verbatim>\<open>shared_memory_slot_manager.hpp\<close>,
  \<^verbatim>\<open>impl/shared_memory_slot_manager.cpp\<close>): the slot manager, the RAII guards on its slots, the
  read-only manager of a peer's block, and the creation of a block.

  Every operation of the manager runs under its mutex, so an execution is a sequence of
  operations; the reference counts are 32-bit words that wrap. The operating system's shared
  memory is a parameter: \<open>shm_create\<close> says whether an object of a given size can be created,
  \<open>shm_allocate\<close> gives the address of the block in it; null pointers are \<open>None\<close>.
\<close>

type_synonym Slot_handle = size_t

record Slot_metadata =
  reference_count :: u32
  slot_offset :: size_t

record Slot_manager =
  m_slot_size :: size_t
  m_slot_count :: size_t
  m_base_address :: size_t
  m_path :: string
  m_slots :: "Slot_metadata list"

text \<open>A guard points to a manager, named by a value of type \<open>'m\<close>, or is empty.\<close>

record 'm Slot_guard =
  g_manager :: "'m option"
  g_handle :: Slot_handle

subsection \<open>The manager\<close>

definition make_slot_manager :: "size_t \<Rightarrow> size_t \<Rightarrow> size_t \<Rightarrow> string \<Rightarrow> Slot_manager run" where
  "make_slot_manager size_s count base p =
    assert_run (size_s > 0) (assert_run (count > 0) (assert_run (base \<noteq> 0)
      (Ok \<lparr>m_slot_size = size_s, m_slot_count = count, m_base_address = base, m_path = p,
           m_slots = map (\<lambda>i. \<lparr>reference_count = 0, slot_offset = of_nat i * size_s\<rparr>) [0..<unat count]\<rparr>)))"

definition create_slot_guard :: "'m \<Rightarrow> Slot_handle \<Rightarrow> 'm Slot_guard" where
  "create_slot_guard manager handle = \<lparr>g_manager = Some manager, g_handle = handle\<rparr>"

definition set_count :: "Slot_manager \<Rightarrow> nat \<Rightarrow> u32 \<Rightarrow> Slot_manager" where
  "set_count sm i c = sm\<lparr>m_slots := (m_slots sm)[i := (m_slots sm ! i)\<lparr>reference_count := c\<rparr>]\<rparr>"

definition count_at :: "Slot_manager \<Rightarrow> nat \<Rightarrow> u32" where
  "count_at sm i = reference_count (m_slots sm ! i)"

definition allocate_slot ::
    "'m \<Rightarrow> Slot_manager \<Rightarrow> (Shared_memory_manager_error, 'm Slot_guard) result \<times> Slot_manager" where
  "allocate_slot self sm =
    (case find (\<lambda>i. count_at sm i = 0) [0..<unat (m_slot_count sm)] of
       Some i \<Rightarrow> (Ok (create_slot_guard self (of_nat i)), set_count sm i 1)
     | None \<Rightarrow> (Err runtime_error_no_available_slots, sm))"

definition add_consumer ::
    "Slot_handle \<Rightarrow> Slot_manager \<Rightarrow> (Shared_memory_manager_error, unit) result \<times> Slot_manager" where
  "add_consumer handle sm =
    (if handle \<ge> m_slot_count sm then (Err logic_error_invalid_slot_handle, sm)
     else let current = count_at sm (unat handle) in
       if current = 0 then (Err runtime_error_slot_not_allocated, sm)
       else (Ok (), set_count sm (unat handle) (current + 1)))"

definition release_slot ::
    "Slot_handle \<Rightarrow> Slot_manager \<Rightarrow> (Shared_memory_manager_error, unit) result \<times> Slot_manager" where
  "release_slot handle sm =
    (if handle \<ge> m_slot_count sm then (Err logic_error_invalid_slot_handle, sm)
     else let current = count_at sm (unat handle) in
       if current = 0 then (Err runtime_error_slot_not_allocated, sm)
       else (Ok (), set_count sm (unat handle) (current - 1)))"

definition get_slot_count :: "Slot_manager \<Rightarrow> size_t" where
  "get_slot_count sm = m_slot_count sm"

definition get_slot_size :: "Slot_manager \<Rightarrow> size_t" where
  "get_slot_size sm = m_slot_size sm"

definition get_allocated_slot_count :: "Slot_manager \<Rightarrow> size_t" where
  "get_allocated_slot_count sm =
    foldl (\<lambda>c i. if count_at sm i > 0 then c + 1 else c) 0 [0..<unat (m_slot_count sm)]"

definition get_reference_count :: "Slot_handle \<Rightarrow> Slot_manager \<Rightarrow> size_t" where
  "get_reference_count handle sm =
    (if handle \<ge> m_slot_count sm then 0 else ucast (count_at sm (unat handle)))"

definition get_memory ::
    "Slot_handle \<Rightarrow> Slot_manager \<Rightarrow> (Shared_memory_manager_error, span) result" where
  "get_memory handle sm =
    (if handle \<ge> m_slot_count sm then Err logic_error_invalid_slot_handle
     else if get_reference_count handle sm = 0 then Err runtime_error_slot_not_allocated
     else Ok \<lparr>span_data = m_base_address sm + slot_offset (m_slots sm ! unat handle),
              span_size = m_slot_size sm\<rparr>)"

definition get_path :: "Slot_manager \<Rightarrow> string" where
  "get_path sm = m_path sm"

subsection \<open>Guards\<close>

text \<open>The manager argument is the object the guard's pointer refers to.\<close>

definition empty_guard :: "'m Slot_guard" where
  "empty_guard = \<lparr>g_manager = None, g_handle = 0\<rparr>"

definition has_slot :: "'m Slot_guard \<Rightarrow> bool" where
  "has_slot g \<longleftrightarrow> g_manager g \<noteq> None"

definition guard_move :: "'m Slot_guard \<Rightarrow> 'm Slot_guard \<times> 'm Slot_guard" where
  "guard_move other =
    (\<lparr>g_manager = g_manager other, g_handle = g_handle other\<rparr>, other\<lparr>g_manager := None\<rparr>)"

definition guard_reset :: "'m Slot_guard \<Rightarrow> Slot_manager \<Rightarrow> 'm Slot_guard \<times> Slot_manager" where
  "guard_reset g sm =
    (if has_slot g then (g\<lparr>g_manager := None\<rparr>, snd (release_slot (g_handle g) sm)) else (g, sm))"

text \<open>Move assignment of two different objects; the result is (target, source, manager).\<close>

definition guard_assign ::
    "'m Slot_guard \<Rightarrow> 'm Slot_guard \<Rightarrow> Slot_manager \<Rightarrow> 'm Slot_guard \<times> 'm Slot_guard \<times> Slot_manager" where
  "guard_assign this other sm =
    (let (this', sm') = guard_reset this sm in
     (this'\<lparr>g_manager := g_manager other, g_handle := g_handle other\<rparr>, other\<lparr>g_manager := None\<rparr>, sm'))"

definition guard_share :: "'m Slot_guard \<Rightarrow> Slot_manager \<Rightarrow> ('m Slot_guard \<times> Slot_manager) run" where
  "guard_share g sm =
    (case g_manager g of
       None \<Rightarrow> Err Assert_failed
     | Some m \<Rightarrow> (case add_consumer (g_handle g) sm of
          (Ok _, sm') \<Rightarrow> Ok (create_slot_guard m (g_handle g), sm')
        | (Err _, sm') \<Rightarrow> Err Assert_failed))"

definition guard_get_handle :: "'m Slot_guard \<Rightarrow> (Shared_memory_manager_error, Slot_handle) result" where
  "guard_get_handle g =
    (if \<not> has_slot g then Err runtime_error_slot_not_allocated else Ok (g_handle g))"

definition guard_get_memory :: "'m Slot_guard \<Rightarrow> Slot_manager \<Rightarrow> span" where
  "guard_get_memory g sm =
    (if \<not> has_slot g then empty_span
     else case get_memory (g_handle g) sm of Ok s \<Rightarrow> s | Err _ \<Rightarrow> empty_span)"

definition guard_release ::
    "'m Slot_guard \<Rightarrow> (Shared_memory_manager_error, Slot_handle) result \<times> 'm Slot_guard" where
  "guard_release g =
    (if \<not> has_slot g then (Err runtime_error_slot_not_allocated, g)
     else (Ok (g_handle g), g\<lparr>g_manager := None\<rparr>))"

subsection \<open>Read-only managers\<close>

record Read_only_slot_manager =
  ro_base_address :: size_t
  ro_slot_size :: size_t
  ro_slot_count :: size_t

definition make_read_only_slot_manager :: "size_t \<Rightarrow> size_t \<Rightarrow> size_t \<Rightarrow> Read_only_slot_manager run" where
  "make_read_only_slot_manager base size_s count =
    assert_run (base \<noteq> 0) (assert_run (size_s > 0) (assert_run (count > 0)
      (Ok \<lparr>ro_base_address = base, ro_slot_size = size_s, ro_slot_count = count\<rparr>)))"

text \<open>The payload of a read-only slot: its bytes and the slot its destruction reports.\<close>

definition make_read_only_shared_memory_payload ::
    "size_t \<Rightarrow> Slot_handle \<Rightarrow> size_t \<Rightarrow> size_t \<Rightarrow> span \<times> Slot_handle" where
  "make_read_only_shared_memory_payload base slot_i size_s used =
    (\<lparr>span_data = base + slot_i * size_s, span_size = min used size_s\<rparr>, slot_i)"

definition ro_get_payload :: "Shared_memory_handle \<Rightarrow> Read_only_slot_manager \<Rightarrow> (span \<times> Slot_handle) option" where
  "ro_get_payload h ro =
    (if slot_index h \<ge> ro_slot_count ro then None
     else Some (make_read_only_shared_memory_payload (ro_base_address ro) (slot_index h)
                  (ro_slot_size ro) (used_bytes h)))"

subsection \<open>Creation\<close>

type_synonym shm_create = "string \<Rightarrow> size_t \<Rightarrow> bool"
type_synonym shm_allocate = "string \<Rightarrow> size_t \<Rightarrow> size_t option"

definition create_shared_memory_slot_manager ::
    "shm_create \<Rightarrow> shm_allocate \<Rightarrow> string \<Rightarrow> size_t \<Rightarrow> size_t
      \<Rightarrow> (Shared_memory_manager_error, Slot_manager) result run" where
  "create_shared_memory_slot_manager shm_create shm_allocate p count size_s =
    (if size_s = 0 then Ok (Err logic_error_invalid_slot_size)
     else if count = 0 then Ok (Err logic_error_invalid_slot_count)
     else let total_size = count * size_s in
       if \<not> shm_create p total_size then Ok (Err runtime_error_shared_memory_allocation_failed)
       else case shm_allocate p total_size of
         None \<Rightarrow> Ok (Err runtime_error_shared_memory_allocation_failed)
       | Some base \<Rightarrow> and_then (make_slot_manager size_s count base p) (\<lambda>sm. Ok (Ok sm)))"

subsection \<open>Executions over guards\<close>

text \<open>
  A program that uses one manager: the manager, the guard objects that exist, and the
  handles whose ownership \<^verbatim>\<open>release()\<close> transferred to the caller. A step is one call. Guards
  are addressed by their position; destroyed guards stay in the list, empty.
\<close>

record world =
  w_manager :: Slot_manager
  w_guards :: "unit Slot_guard list"
  w_owned :: "Slot_handle list"

inductive guard_step :: "world \<Rightarrow> world \<Rightarrow> bool" where
  allocate: "allocate_slot () (w_manager w) = (Ok g, sm) \<Longrightarrow>
    guard_step w (w\<lparr>w_manager := sm, w_guards := w_guards w @ [g]\<rparr>)"
| share: "i < length (w_guards w) \<Longrightarrow> guard_share (w_guards w ! i) (w_manager w) = Ok (g, sm) \<Longrightarrow>
    guard_step w (w\<lparr>w_manager := sm, w_guards := w_guards w @ [g]\<rparr>)"
| reset: "i < length (w_guards w) \<Longrightarrow> guard_reset (w_guards w ! i) (w_manager w) = (g, sm) \<Longrightarrow>
    guard_step w (w\<lparr>w_manager := sm, w_guards := (w_guards w)[i := g]\<rparr>)"
| move_construct: "i < length (w_guards w) \<Longrightarrow> guard_move (w_guards w ! i) = (g, other) \<Longrightarrow>
    guard_step w (w\<lparr>w_guards := (w_guards w)[i := other] @ [g]\<rparr>)"
| move_assign: "i < length (w_guards w) \<Longrightarrow> j < length (w_guards w) \<Longrightarrow> i \<noteq> j \<Longrightarrow>
    guard_assign (w_guards w ! i) (w_guards w ! j) (w_manager w) = (this, other, sm) \<Longrightarrow>
    guard_step w (w\<lparr>w_manager := sm, w_guards := (w_guards w)[i := this, j := other]\<rparr>)"
| release: "i < length (w_guards w) \<Longrightarrow> guard_release (w_guards w ! i) = (Ok h, g) \<Longrightarrow>
    guard_step w (w\<lparr>w_guards := (w_guards w)[i := g], w_owned := h # w_owned w\<rparr>)"
| release_owned: "h \<in> set (w_owned w) \<Longrightarrow> release_slot h (w_manager w) = (r, sm) \<Longrightarrow>
    guard_step w (w\<lparr>w_manager := sm, w_owned := remove1 h (w_owned w)\<rparr>)"

definition held :: "nat \<Rightarrow> 'm Slot_guard \<Rightarrow> nat" where
  "held i g = of_bool (has_slot g \<and> unat (g_handle g) = i)"

text \<open>The holders of slot \<open>i\<close>: guards on it and handles owned by callers.\<close>

definition holders :: "world \<Rightarrow> nat \<Rightarrow> nat" where
  "holders w i = sum_list (map (held i) (w_guards w)) + sum_list (map (\<lambda>h. of_bool (unat h = i)) (w_owned w))"

inductive guard_reachable :: "world \<Rightarrow> bool" where
  start: "make_slot_manager size_s count_s base p = Ok sm \<Longrightarrow>
    guard_reachable \<lparr>w_manager = sm, w_guards = [], w_owned = []\<rparr>"
| step: "guard_reachable w \<Longrightarrow> guard_step w w' \<Longrightarrow>
    length (w_guards w') + length (w_owned w') < 2 ^ 32 \<Longrightarrow> guard_reachable w'"

text \<open>Well-formed managers and their reference counts as numbers.\<close>

definition sm_wf :: "Slot_manager \<Rightarrow> bool" where
  "sm_wf sm \<longleftrightarrow> 0 < m_slot_size sm \<and> 0 < m_slot_count sm
     \<and> length (m_slots sm) = unat (m_slot_count sm)
     \<and> (\<forall>i < length (m_slots sm). slot_offset (m_slots sm ! i) = of_nat i * m_slot_size sm)"

definition capacity :: "Slot_manager \<Rightarrow> nat" where
  "capacity sm = unat (m_slot_count sm)"

definition refs :: "Slot_manager \<Rightarrow> nat \<Rightarrow> nat" where
  "refs sm i = (if i < capacity sm then unat (count_at sm i) else 0)"

subsection \<open>Laws of the manager\<close>

lemma set_count_simps [simp]:
  "m_slot_size (set_count sm i c) = m_slot_size sm"
  "m_slot_count (set_count sm i c) = m_slot_count sm"
  "m_base_address (set_count sm i c) = m_base_address sm"
  "m_path (set_count sm i c) = m_path sm"
  "length (m_slots (set_count sm i c)) = length (m_slots sm)"
  "capacity (set_count sm i c) = capacity sm"
  by (simp_all add: set_count_def capacity_def)

lemma count_at_set_count:
  "i < length (m_slots sm) \<Longrightarrow> count_at (set_count sm i c) j = (if j = i then c else count_at sm j)"
  by (cases "j < length (m_slots sm)") (auto simp: count_at_def set_count_def nth_list_update)

lemma slot_offset_set_count [simp]:
  "slot_offset (m_slots (set_count sm i c) ! j) = slot_offset (m_slots sm ! j)"
  by (cases "i < length (m_slots sm)") (auto simp: set_count_def nth_list_update list_update_beyond)

lemma sm_wf_set_count [simp]: "sm_wf (set_count sm i c) = sm_wf sm"
  by (simp add: sm_wf_def)

lemma refs_set_count:
  "sm_wf sm \<Longrightarrow> i < capacity sm \<Longrightarrow> refs (set_count sm i c) = (refs sm)(i := unat c)"
  by (rule ext) (auto simp: refs_def count_at_set_count sm_wf_def capacity_def)

lemma make_slot_manager_wf:
  assumes "make_slot_manager size_s count_s base p = Ok sm"
  shows "sm_wf sm" and "refs sm = (\<lambda>_. 0)" and "capacity sm = unat count_s"
  using assms by (auto simp: make_slot_manager_def sm_wf_def refs_def capacity_def count_at_def)

lemma allocate_slot_Ok:
  assumes "sm_wf sm" and "allocate_slot self sm = (Ok g, sm')"
  shows "g_manager g = Some self" and "unat (g_handle g) < capacity sm"
    and "refs sm (unat (g_handle g)) = 0" and "\<forall>j < unat (g_handle g). 0 < refs sm j"
    and "refs sm' = (refs sm)(unat (g_handle g) := 1)" and "sm_wf sm'" and "capacity sm' = capacity sm"
proof -
  obtain i where i: "find (\<lambda>i. count_at sm i = 0) [0..<unat (m_slot_count sm)] = Some i"
    and g: "g = create_slot_guard self (of_nat i)" and sm': "sm' = set_count sm i 1"
    using assms(2) by (auto simp: allocate_slot_def split: option.splits)
  obtain k where k: "k < unat (m_slot_count sm)" "count_at sm k = 0" "i = k"
    "\<forall>j < k. count_at sm j \<noteq> 0"
    using i by (auto simp: find_Some_iff)
  have lt: "i < capacity sm" using k by (simp add: capacity_def)
  have h: "unat (g_handle g) = i"
    using g k(1,3) unsigned_less [of "m_slot_count sm", where ?'a = nat]
    by (simp add: create_slot_guard_def unat_of_nat_small)
  show "g_manager g = Some self" by (simp add: g create_slot_guard_def)
  show "unat (g_handle g) < capacity sm" "refs sm (unat (g_handle g)) = 0"
    using lt h k by (simp_all add: refs_def)
  show "\<forall>j < unat (g_handle g). 0 < refs sm j"
    using lt h k by (auto simp: refs_def unat_gt_0)
  show "refs sm' = (refs sm)(unat (g_handle g) := 1)"
    using refs_set_count [OF assms(1) lt, of 1] by (simp add: sm' h)
  show "sm_wf sm'" "capacity sm' = capacity sm" using assms(1) by (simp_all add: sm')
qed

lemma allocate_slot_Err:
  assumes "allocate_slot self sm = (Err e, sm')"
  shows "e = runtime_error_no_available_slots" and "sm' = sm" and "\<forall>i < capacity sm. 0 < refs sm i"
  using assms by (auto simp: allocate_slot_def refs_def capacity_def find_None_iff unat_gt_0 split: option.splits)

lemma handle_lt_capacity: "(handle \<ge> m_slot_count sm) \<longleftrightarrow> \<not> unat handle < capacity sm"
  by (simp add: capacity_def word_le_nat_alt not_less)

lemma add_consumer_cases:
  assumes "sm_wf sm"
  shows "add_consumer h sm =
    (if \<not> unat h < capacity sm then (Err logic_error_invalid_slot_handle, sm)
     else if refs sm (unat h) = 0 then (Err runtime_error_slot_not_allocated, sm)
     else (Ok (), set_count sm (unat h) (count_at sm (unat h) + 1)))"
  using assms by (auto simp: add_consumer_def handle_lt_capacity refs_def unat_eq_0)

lemma release_slot_cases:
  assumes "sm_wf sm"
  shows "release_slot h sm =
    (if \<not> unat h < capacity sm then (Err logic_error_invalid_slot_handle, sm)
     else if refs sm (unat h) = 0 then (Err runtime_error_slot_not_allocated, sm)
     else (Ok (), set_count sm (unat h) (count_at sm (unat h) - 1)))"
  using assms by (auto simp: release_slot_def handle_lt_capacity refs_def unat_eq_0)

lemma add_consumer_effect:
  assumes "sm_wf sm" and "0 < refs sm (unat h)" and "Suc (refs sm (unat h)) < 2 ^ 32"
  shows "fst (add_consumer h sm) = Ok ()"
    and "refs (snd (add_consumer h sm)) = (refs sm)(unat h := Suc (refs sm (unat h)))"
    and "sm_wf (snd (add_consumer h sm))" and "capacity (snd (add_consumer h sm)) = capacity sm"
proof -
  have lt: "unat h < capacity sm" using assms(2) by (auto simp: refs_def split: if_splits)
  then have c: "Suc (unat (count_at sm (unat h))) < 2 ^ 32" using assms(3) by (simp add: refs_def)
  show "refs (snd (add_consumer h sm)) = (refs sm)(unat h := Suc (refs sm (unat h)))"
    using assms lt unat_Suc_word [of "count_at sm (unat h)"] c
    by (simp add: add_consumer_cases refs_set_count refs_def)
qed (use assms in \<open>auto simp: add_consumer_cases refs_def split: if_splits\<close>)

lemma release_slot_effect:
  assumes "sm_wf sm" and "0 < refs sm (unat h)"
  shows "fst (release_slot h sm) = Ok ()"
    and "refs (snd (release_slot h sm)) = (refs sm)(unat h := refs sm (unat h) - 1)"
    and "sm_wf (snd (release_slot h sm))" and "capacity (snd (release_slot h sm)) = capacity sm"
proof -
  have lt: "unat h < capacity sm" using assms(2) by (auto simp: refs_def split: if_splits)
  have c: "count_at sm (unat h) \<noteq> 0" using assms(2) lt by (auto simp: refs_def)
  show "refs (snd (release_slot h sm)) = (refs sm)(unat h := refs sm (unat h) - 1)"
    using assms lt unat_pred_word [OF c]
    by (simp add: release_slot_cases refs_set_count refs_def)
qed (use assms in \<open>auto simp: release_slot_cases refs_def split: if_splits\<close>)

subsection \<open>The contract of a reference-counted pool\<close>

text \<open>
  What the users of a pool rely on: allocation takes a slot that nobody references, retaining
  adds one reference, releasing drops one, and no operation touches another slot.
\<close>

locale counted_pool =
  fixes inv :: "'s \<Rightarrow> bool"
    and cap :: "'s \<Rightarrow> nat"
    and rc :: "'s \<Rightarrow> nat \<Rightarrow> nat"
    and limit :: nat
    and alloc :: "'s \<Rightarrow> nat option \<times> 's"
    and retain :: "nat \<Rightarrow> 's \<Rightarrow> 's"
    and rel :: "nat \<Rightarrow> 's \<Rightarrow> 's"
  assumes alloc_Some: "inv s \<Longrightarrow> alloc s = (Some i, s') \<Longrightarrow>
      i < cap s \<and> rc s i = 0 \<and> rc s' = (rc s)(i := 1) \<and> inv s' \<and> cap s' = cap s"
    and alloc_None: "inv s \<Longrightarrow> alloc s = (None, s') \<Longrightarrow> (\<forall>i < cap s. 0 < rc s i) \<and> s' = s"
    and retain_law: "inv s \<Longrightarrow> i < cap s \<Longrightarrow> 0 < rc s i \<Longrightarrow> Suc (rc s i) < limit \<Longrightarrow>
      rc (retain i s) = (rc s)(i := Suc (rc s i)) \<and> inv (retain i s) \<and> cap (retain i s) = cap s"
    and rel_law: "inv s \<Longrightarrow> i < cap s \<Longrightarrow> 0 < rc s i \<Longrightarrow>
      rc (rel i s) = (rc s)(i := rc s i - 1) \<and> inv (rel i s) \<and> cap (rel i s) = cap s"
begin

lemma rel_iterate:
  "inv s \<Longrightarrow> i < cap s \<Longrightarrow> k \<le> rc s i \<Longrightarrow>
    rc ((rel i ^^ k) s) = (rc s)(i := rc s i - k) \<and> inv ((rel i ^^ k) s) \<and> cap ((rel i ^^ k) s) = cap s"
proof (induction k)
  case 0
  then show ?case by simp
next
  case (Suc k)
  have IH: "rc ((rel i ^^ k) s) = (rc s)(i := rc s i - k) \<and> inv ((rel i ^^ k) s) \<and> cap ((rel i ^^ k) s) = cap s"
    by (rule Suc.IH) (use Suc.prems in simp_all)
  with rel_law [of "(rel i ^^ k) s" i] Suc.prems show ?case by simp
qed

lemma retain_iterate:
  "inv s \<Longrightarrow> i < cap s \<Longrightarrow> 0 < rc s i \<Longrightarrow> rc s i + k < limit \<Longrightarrow>
    rc ((retain i ^^ k) s) = (rc s)(i := rc s i + k) \<and> inv ((retain i ^^ k) s) \<and> cap ((retain i ^^ k) s) = cap s"
proof (induction k)
  case 0
  then show ?case by simp
next
  case (Suc k)
  have IH: "rc ((retain i ^^ k) s) = (rc s)(i := rc s i + k) \<and> inv ((retain i ^^ k) s) \<and> cap ((retain i ^^ k) s) = cap s"
    by (rule Suc.IH) (use Suc.prems in simp_all)
  with retain_law [of "(retain i ^^ k) s" i] Suc.prems show ?case by simp
qed

text \<open>A slot allocated and retained \<open>k\<close> times is free again after exactly \<open>k + 1\<close> releases.\<close>

lemma alloc_retain_rel:
  assumes "inv s" and "alloc s = (Some i, s')" and "Suc k < limit" and "j \<le> Suc k"
  shows "rc ((rel i ^^ j) ((retain i ^^ k) s')) = (rc s)(i := Suc k - j)"
proof -
  note a = alloc_Some [OF assms(1,2)]
  note r = retain_iterate [of s' i k]
  have "rc ((retain i ^^ k) s') = (rc s)(i := Suc k)" "inv ((retain i ^^ k) s')" "i < cap ((retain i ^^ k) s')"
    using a r assms(3) by simp_all
  with rel_iterate [of "(retain i ^^ k) s'" i j] assms(4) show ?thesis by simp
qed

lemma alloc_available:
  assumes "inv s" and "i < cap s" and "rc s i = 0"
  shows "\<exists>k s'. alloc s = (Some k, s')"
  using assms alloc_None [of s] by (metis less_irrefl not_None_eq surj_pair)

end

definition alloc_index :: "Slot_manager \<Rightarrow> nat option \<times> Slot_manager" where
  "alloc_index sm =
    (case allocate_slot () sm of (Ok g, sm') \<Rightarrow> (Some (unat (g_handle g)), sm') | (Err _, sm') \<Rightarrow> (None, sm'))"

definition retain_index :: "nat \<Rightarrow> Slot_manager \<Rightarrow> Slot_manager" where
  "retain_index i sm = snd (add_consumer (of_nat i) sm)"

definition release_index :: "nat \<Rightarrow> Slot_manager \<Rightarrow> Slot_manager" where
  "release_index i sm = snd (release_slot (of_nat i) sm)"

lemma unat_handle_of_nat: "i < capacity sm \<Longrightarrow> unat (of_nat i :: Slot_handle) = i"
  using unsigned_less [of "m_slot_count sm", where ?'a = nat]
  by (simp add: capacity_def unat_of_nat_small)

interpretation slots: counted_pool sm_wf capacity refs "2 ^ 32" alloc_index retain_index release_index
proof
  show "i < capacity s \<and> refs s i = 0 \<and> refs s' = (refs s)(i := 1) \<and> sm_wf s' \<and> capacity s' = capacity s"
    if "sm_wf s" "alloc_index s = (Some i, s')" for s i s'
    using that allocate_slot_Ok [of s "()"] by (auto simp: alloc_index_def split: prod.splits sum.splits)
  show "(\<forall>i < capacity s. 0 < refs s i) \<and> s' = s" if "sm_wf s" "alloc_index s = (None, s')" for s s'
    using that allocate_slot_Err [of "()" s] by (auto simp: alloc_index_def split: prod.splits sum.splits)
qed (use add_consumer_effect release_slot_effect in
    \<open>auto simp: retain_index_def release_index_def unat_handle_of_nat\<close>)

subsection \<open>Reference counts are numbers of holders\<close>

definition world_inv :: "world \<Rightarrow> bool" where
  "world_inv w \<longleftrightarrow> sm_wf (w_manager w) \<and> refs (w_manager w) = holders w"

lemma held_simps [simp]:
  "held i (create_slot_guard m h) = of_bool (unat h = i)"
  "held i (g\<lparr>g_manager := None\<rparr>) = 0"
  by (simp_all add: held_def create_slot_guard_def has_slot_def)

lemma held_le_1: "held i g \<le> 1"
  by (simp add: held_def)

lemma sum_held_update:
  "k < length gs \<Longrightarrow> sum_list (map (held i) (gs[k := g])) + held i (gs ! k) = sum_list (map (held i) gs) + held i g"
proof (induction gs arbitrary: k)
  case Nil
  then show ?case by simp
next
  case (Cons a gs)
  then show ?case by (cases k) (simp_all add: add.assoc)
qed

lemma held_le_sum: "k < length gs \<Longrightarrow> held i (gs ! k) \<le> sum_list (map (held i) gs)"
  using elem_le_sum_list [of k "map (held i) gs"] by simp

lemma sum_list_of_bool_le: "sum_list (map (\<lambda>x. of_bool (P x) :: nat) xs) \<le> length xs"
  by (induction xs) auto

lemma holders_le: "holders w i \<le> length (w_guards w) + length (w_owned w)"
  unfolding holders_def held_def by (intro add_mono sum_list_of_bool_le)

lemma remove1_owned:
  "h \<in> set hs \<Longrightarrow> sum_list (map (\<lambda>h. of_bool (unat h = i)) (remove1 h hs)) + of_bool (unat h = i)
     = (sum_list (map (\<lambda>h. of_bool (unat h = i)) hs) :: nat)"
  by (induction hs) auto

lemma guard_reset_effect:
  assumes "sm_wf sm" and "has_slot g \<Longrightarrow> 0 < refs sm (unat (g_handle g))" and "guard_reset g sm = (g', sm')"
  shows "sm_wf sm'" and "held i g' = 0" and "refs sm' i + held i g = refs sm i"
    and "\<not> has_slot g'"
  using assms release_slot_effect [of sm "g_handle g"]
  by (auto simp: guard_reset_def held_def has_slot_def split: if_splits)

lemma held_has_slot: "has_slot g \<Longrightarrow> held (unat (g_handle g)) g = 1"
  by (simp add: held_def)

lemma guard_slot_referenced:
  assumes "world_inv w" and "k < length (w_guards w)" and "has_slot (w_guards w ! k)"
  shows "0 < refs (w_manager w) (unat (g_handle (w_guards w ! k)))"
proof -
  let ?i = "unat (g_handle (w_guards w ! k))"
  have "1 \<le> sum_list (map (held ?i) (w_guards w))"
    using held_le_sum [OF assms(2), of ?i] held_has_slot [OF assms(3)] by simp
  then show ?thesis using assms(1) by (simp add: world_inv_def holders_def)
qed

lemma world_inv_allocate:
  assumes "world_inv w" and "allocate_slot () (w_manager w) = (Ok g, sm)"
  shows "world_inv (w\<lparr>w_manager := sm, w_guards := w_guards w @ [g]\<rparr>)"
proof -
  have wf: "sm_wf (w_manager w)" and r: "refs (w_manager w) = holders w"
    using assms(1) by (simp_all add: world_inv_def)
  note a = allocate_slot_Ok [OF wf assms(2)]
  have "refs sm i = holders w i + held i g" for i
    using a(1,3,5) r by (auto simp: held_def has_slot_def)
  then show ?thesis using a(6) by (auto simp: world_inv_def holders_def fun_eq_iff)
qed

lemma world_inv_share:
  assumes "world_inv w" and "k < length (w_guards w)"
    and "guard_share (w_guards w ! k) (w_manager w) = Ok (g, sm)"
    and "Suc (length (w_guards w) + length (w_owned w)) < 2 ^ 32"
  shows "world_inv (w\<lparr>w_manager := sm, w_guards := w_guards w @ [g]\<rparr>)"
proof -
  let ?h = "g_handle (w_guards w ! k)"
  have wf: "sm_wf (w_manager w)" and r: "refs (w_manager w) = holders w"
    using assms(1) by (simp_all add: world_inv_def)
  have g: "has_slot (w_guards w ! k)" "unat (g_handle g) = unat ?h" "has_slot g"
    and sm: "sm = snd (add_consumer ?h (w_manager w))"
    using assms(3) by (auto simp: guard_share_def has_slot_def create_slot_guard_def
        split: option.splits prod.splits sum.splits)
  have "Suc (refs (w_manager w) (unat ?h)) < 2 ^ 32"
    using r holders_le [of w "unat ?h"] assms(4) by simp
  note a = add_consumer_effect [OF wf guard_slot_referenced [OF assms(1,2) g(1)] this]
  have "refs sm i = holders w i + held i g" for i
    using a(2) r g by (auto simp: sm held_def)
  then show ?thesis using a(3) sm by (auto simp: world_inv_def holders_def fun_eq_iff)
qed

lemma world_inv_reset:
  assumes "world_inv w" and "k < length (w_guards w)"
    and "guard_reset (w_guards w ! k) (w_manager w) = (g, sm)"
  shows "world_inv (w\<lparr>w_manager := sm, w_guards := (w_guards w)[k := g]\<rparr>)"
proof -
  have wf: "sm_wf (w_manager w)" and r: "refs (w_manager w) = holders w"
    using assms(1) by (simp_all add: world_inv_def)
  note e = guard_reset_effect [OF wf guard_slot_referenced [OF assms(1,2)] assms(3)]
  have "refs sm i = sum_list (map (held i) ((w_guards w)[k := g])) + sum_list (map (\<lambda>h. of_bool (unat h = i)) (w_owned w))" for i
    using e(2,3) [of i] r sum_held_update [OF assms(2), of i g] by (simp add: holders_def)
  then show ?thesis using e(1) by (auto simp: world_inv_def holders_def fun_eq_iff)
qed

lemma world_inv_move_construct:
  assumes "world_inv w" and "k < length (w_guards w)" and "guard_move (w_guards w ! k) = (g, other)"
  shows "world_inv (w\<lparr>w_guards := (w_guards w)[k := other] @ [g]\<rparr>)"
proof -
  have "held i other = 0" "held i g = held i (w_guards w ! k)" for i
    using assms(3) by (auto simp: guard_move_def held_def has_slot_def)
  then show ?thesis
    using assms(1) sum_held_update [OF assms(2), of _ other]
    by (auto simp: world_inv_def holders_def fun_eq_iff)
qed

lemma world_inv_move_assign:
  assumes "world_inv w" and "i < length (w_guards w)" and "j < length (w_guards w)" and "i \<noteq> j"
    and "guard_assign (w_guards w ! i) (w_guards w ! j) (w_manager w) = (this, other, sm)"
  shows "world_inv (w\<lparr>w_manager := sm, w_guards := (w_guards w)[i := this, j := other]\<rparr>)"
proof -
  have wf: "sm_wf (w_manager w)" and r: "refs (w_manager w) = holders w"
    using assms(1) by (simp_all add: world_inv_def)
  obtain g where g: "guard_reset (w_guards w ! i) (w_manager w) = (g, sm)"
    using assms(5) by (auto simp: guard_assign_def split: prod.splits)
  have h: "held k other = 0" "held k this = held k (w_guards w ! j)" for k
    using assms(5) g by (auto simp: guard_assign_def held_def has_slot_def)
  note e = guard_reset_effect [OF wf guard_slot_referenced [OF assms(1,2)] g]
  have "refs sm k = sum_list (map (held k) ((w_guards w)[i := this, j := other]))
      + sum_list (map (\<lambda>h. of_bool (unat h = k)) (w_owned w))" for k
    using e(3) [of k] r h sum_held_update [OF assms(2), of k this]
      sum_held_update [of j "(w_guards w)[i := this]" k other] assms(3,4)
    by (simp add: holders_def)
  then show ?thesis using e(1) by (auto simp: world_inv_def holders_def fun_eq_iff)
qed

lemma world_inv_release:
  assumes "world_inv w" and "k < length (w_guards w)" and "guard_release (w_guards w ! k) = (Ok h, g)"
  shows "world_inv (w\<lparr>w_guards := (w_guards w)[k := g], w_owned := h # w_owned w\<rparr>)"
proof -
  have "held i g = 0" "held i (w_guards w ! k) = of_bool (unat h = i)" for i
    using assms(3) by (auto simp: guard_release_def held_def has_slot_def split: if_splits)
  then show ?thesis
    using assms(1) sum_held_update [OF assms(2), of _ g]
    by (auto simp: world_inv_def holders_def fun_eq_iff)
qed

lemma world_inv_release_owned:
  assumes "world_inv w" and "h \<in> set (w_owned w)" and "release_slot h (w_manager w) = (r, sm)"
  shows "world_inv (w\<lparr>w_manager := sm, w_owned := remove1 h (w_owned w)\<rparr>)"
proof -
  have wf: "sm_wf (w_manager w)" and rf: "refs (w_manager w) = holders w"
    using assms(1) by (simp_all add: world_inv_def)
  have pos: "0 < refs (w_manager w) (unat h)"
    using rf remove1_owned [OF assms(2), of "unat h"] by (simp add: holders_def)
  note e = release_slot_effect [OF wf pos]
  have "refs sm i = sum_list (map (held i) (w_guards w)) + sum_list (map (\<lambda>h. of_bool (unat h = i)) (remove1 h (w_owned w)))" for i
    using e(2) assms(3) rf remove1_owned [OF assms(2), of i] by (auto simp: holders_def)
  then show ?thesis using e(3) assms(3) by (auto simp: world_inv_def holders_def fun_eq_iff)
qed

lemmas world_inv_steps = world_inv_allocate world_inv_share world_inv_reset world_inv_move_construct
  world_inv_move_assign world_inv_release world_inv_release_owned

lemma world_inv_step:
  assumes "guard_step w w'" and "world_inv w" and "length (w_guards w') + length (w_owned w') < 2 ^ 32"
  shows "world_inv w'"
  using assms by (induction rule: guard_step.induct) (auto intro: world_inv_steps)

lemma world_inv_reachable: "guard_reachable w \<Longrightarrow> world_inv w"
proof (induction rule: guard_reachable.induct)
  case (start size_s count_s base p sm)
  then show ?case using make_slot_manager_wf [OF start] by (simp add: world_inv_def holders_def fun_eq_iff)
next
  case (step w w')
  then show ?case using world_inv_step by blast
qed

subsection \<open>Memory of the slots\<close>

lemma slot_end_bound:
  fixes n :: nat
  assumes "i < n" shows "i * s + s \<le> n * s"
  using mult_le_mono1 [of "Suc i" n s] assms by simp

lemma get_memory_span:
  assumes "sm_wf sm" and "get_memory h sm = Ok sp"
    and "unat (m_base_address sm) + capacity sm * unat (m_slot_size sm) < 2 ^ 64"
  shows "unat (span_data sp) = unat (m_base_address sm) + unat h * unat (m_slot_size sm)"
    and "span_size sp = m_slot_size sm" and "unat h < capacity sm" and "0 < refs sm (unat h)"
proof -
  let ?s = "unat (m_slot_size sm)"
  have lt: "unat h < capacity sm" and nz: "get_reference_count h sm \<noteq> 0"
    and sp: "sp = \<lparr>span_data = m_base_address sm + slot_offset (m_slots sm ! unat h), span_size = m_slot_size sm\<rparr>"
    using assms(2) by (auto simp: get_memory_def handle_lt_capacity split: if_splits)
  then show "unat h < capacity sm" "span_size sp = m_slot_size sm" by simp_all
  show "0 < refs sm (unat h)"
    using nz lt by (auto simp: get_reference_count_def refs_def handle_lt_capacity unat_gt_0 split: if_splits)
  have off: "slot_offset (m_slots sm ! unat h) = h * m_slot_size sm"
    using assms(1) lt by (simp add: sm_wf_def capacity_def)
  have b: "unat (m_base_address sm) + unat h * ?s < 2 ^ 64"
    using assms(3) slot_end_bound [OF lt, of ?s] by linarith
  then have "unat (h * m_slot_size sm) = unat h * ?s" by (simp add: unat_word_ariths)
  with b show "unat (span_data sp) = unat (m_base_address sm) + unat h * ?s"
    by (simp add: sp off unat_word_ariths)
qed

lemma spans_disjoint:
  fixes i j s :: nat
  assumes "i \<noteq> j"
  shows "i * s + s \<le> j * s \<or> j * s + s \<le> i * s"
  using assms slot_end_bound [of i j s] slot_end_bound [of j i s] by (metis linorder_neqE_nat)

subsection \<open>Properties\<close>

text \<open>C4. Reference counts are exact. In every execution over guards (allocate, share, move, move
  assignment, reset or destruction, ownership release and release by handle, in any order and
  with fewer than 2^32 holders), the 32-bit reference count of each slot is the number of
  guards on it plus the handles owned by callers, and nobody holds a handle out of range.\<close>

theorem reference_counts_exact:
  assumes "guard_reachable w"
  shows "(\<forall>i < capacity (w_manager w). unat (count_at (w_manager w) i) = holders w i)
    \<and> (\<forall>i \<ge> capacity (w_manager w). holders w i = 0)"
  using world_inv_reachable [OF assms]
  by (auto simp: world_inv_def refs_def fun_eq_iff) (metis leD)+

text \<open>A manager with two slots of eight bytes and one allocated guard.\<close>

definition two_slots :: Slot_manager where
  "two_slots = \<lparr>m_slot_size = 8, m_slot_count = 2, m_base_address = 4096, m_path = ''/a'',
     m_slots = [\<lparr>reference_count = 0, slot_offset = 0\<rparr>, \<lparr>reference_count = 0, slot_offset = 8\<rparr>]\<rparr>"

definition two_slots_used :: world where
  "two_slots_used = \<lparr>w_manager = set_count two_slots 0 1,
     w_guards = [\<lparr>g_manager = Some (), g_handle = 0\<rparr>], w_owned = []\<rparr>"

lemma upt_2: "[0..<2] = [0, Suc 0]"
  by (simp add: upt_rec)

lemma two_slots_made: "make_slot_manager 8 2 4096 ''/a'' = Ok two_slots"
  by (simp add: make_slot_manager_def two_slots_def upt_2)

lemma two_slots_reachable: "guard_reachable two_slots_used"
proof -
  note s = guard_reachable.start [OF two_slots_made]
  have "allocate_slot () two_slots = (Ok \<lparr>g_manager = Some (), g_handle = 0\<rparr>, set_count two_slots 0 1)"
    by (simp add: allocate_slot_def two_slots_def upt_2 count_at_def create_slot_guard_def)
  from guard_step.allocate [of "\<lparr>w_manager = two_slots, w_guards = [], w_owned = []\<rparr>", simplified, OF this]
  show ?thesis using guard_reachable.step [OF s] by (simp add: two_slots_used_def)
qed

theorem reference_counts_exact_witness:
  "guard_reachable two_slots_used \<and> unat (count_at (w_manager two_slots_used) 0) = 1 \<and> holders two_slots_used 0 = 1"
proof -
  have "unat (count_at (w_manager two_slots_used) 0) = 1" by code_simp
  moreover have "0 < capacity (w_manager two_slots_used)" by code_simp
  ultimately show ?thesis using reference_counts_exact [OF two_slots_reachable] two_slots_reachable by simp
qed

text \<open>C32. No slot is handed out twice. When an allocation succeeds in a reachable state, no
  existing guard holds the new slot and no caller owns its handle, and it is the first free
  one; when it fails, every slot has a holder.\<close>

theorem allocation_exclusive:
  assumes "guard_reachable w"
  shows "case allocate_slot () (w_manager w) of
      (Ok g, _) \<Rightarrow> holders w (unat (g_handle g)) = 0 \<and> unat (g_handle g) < capacity (w_manager w)
                   \<and> (\<forall>j < unat (g_handle g). 0 < holders w j)
    | (Err e, sm) \<Rightarrow> e = runtime_error_no_available_slots \<and> sm = w_manager w
                   \<and> (\<forall>i < capacity (w_manager w). 0 < holders w i)"
proof -
  have wf: "sm_wf (w_manager w)" and r: "refs (w_manager w) = holders w"
    using world_inv_reachable [OF assms] by (simp_all add: world_inv_def)
  show ?thesis
    using allocate_slot_Ok [OF wf, of "()"] allocate_slot_Err [of "()" "w_manager w"] r
    by (auto split: prod.split sum.split)
qed

theorem allocation_exclusive_witness:
  "guard_reachable two_slots_used
   \<and> (\<exists>g sm. allocate_slot () (w_manager two_slots_used) = (Ok g, sm) \<and> unat (g_handle g) = 1
        \<and> holders two_slots_used (unat (g_handle g)) = 0)"
proof -
  have "allocate_slot () (w_manager two_slots_used)
      = (Ok \<lparr>g_manager = Some (), g_handle = 1\<rparr>, set_count (w_manager two_slots_used) 1 1)"
    by (simp add: two_slots_used_def two_slots_def allocate_slot_def upt_2 count_at_def set_count_def create_slot_guard_def)
  then show ?thesis using allocation_exclusive [OF two_slots_reachable] two_slots_reachable by simp
qed



text \<open>A slot stays allocated for exactly as long as it has consumers: after an allocation and
  \<open>k\<close> calls of \<^verbatim>\<open>add_consumer\<close>, \<open>j\<close> calls of \<^verbatim>\<open>release_slot\<close> leave \<open>k + 1 - j\<close> references, and
  after \<open>k + 1\<close> of them the slot can be allocated again; other slots are untouched.\<close>

lemma slot_freed_after_last_release:
  assumes "sm_wf sm" and "alloc_index sm = (Some i, sm')" and "Suc k < 2 ^ 32" and "j \<le> Suc k"
  shows "refs ((release_index i ^^ j) ((retain_index i ^^ k) sm')) = (refs sm)(i := Suc k - j)"
  by (rule slots.alloc_retain_rel [OF assms])

text \<open>The size of the block is computed without an overflow check. There is a configuration that
  \<^verbatim>\<open>create_shared_memory_slot_manager\<close> accepts, although the block it requests from the
  system is smaller than one of its slots.\<close>

theorem block_size_overflow:
  "\<exists>count_s size_s sm. create_shared_memory_slot_manager (\<lambda>_ _. True) (\<lambda>_ _. Some 4096) p count_s size_s = Ok (Ok sm)
     \<and> m_slot_size sm = size_s \<and> capacity sm = unat count_s \<and> count_s * size_s < size_s"
proof -
  let ?s = "2 ^ 63 + 8 :: size_t"
  have "\<exists>sm. make_slot_manager ?s 2 4096 p = Ok sm \<and> m_slot_size sm = ?s \<and> capacity sm = unat (2 :: size_t)"
    by (simp add: make_slot_manager_def capacity_def)
  then obtain sm where sm: "make_slot_manager ?s 2 4096 p = Ok sm" "m_slot_size sm = ?s" "capacity sm = unat (2 :: size_t)"
    by blast
  then have "create_shared_memory_slot_manager (\<lambda>_ _. True) (\<lambda>_ _. Some 4096) p 2 ?s = Ok (Ok sm)"
    by (simp add: create_shared_memory_slot_manager_def)
  moreover have "2 * ?s < ?s" by simp
  ultimately show ?thesis using sm by blast
qed

text \<open>C34. Reader and writer agree on where a payload is. If the reader opens the block with the
  writer's slot size and count, then for every allocated handle the payload it gets starts at
  the same offset from the base as the writer's span, is never longer than the slot, has
  exactly the used bytes when they fit, and reports the same slot when it is destroyed.\<close>

theorem reader_writer_agree:
  assumes "sm_wf sm" and "get_memory (slot_index h) sm = Ok sp"
    and "ro_slot_size ro = m_slot_size sm" and "ro_slot_count ro = m_slot_count sm"
  shows "\<exists>rsp. ro_get_payload h ro = Some (rsp, slot_index h)
      \<and> span_data rsp - ro_base_address ro = span_data sp - m_base_address sm
      \<and> span_size rsp \<le> span_size sp
      \<and> (used_bytes h \<le> m_slot_size sm \<longrightarrow> span_size rsp = used_bytes h)"
proof -
  have lt: "unat (slot_index h) < capacity sm" and sp: "span_data sp = m_base_address sm + slot_offset (m_slots sm ! unat (slot_index h))"
    "span_size sp = m_slot_size sm"
    using assms(2) by (auto simp: get_memory_def handle_lt_capacity split: if_splits)
  have "slot_offset (m_slots sm ! unat (slot_index h)) = slot_index h * m_slot_size sm"
    using assms(1) lt by (simp add: sm_wf_def capacity_def)
  moreover have "\<not> m_slot_count sm \<le> slot_index h" using lt by (simp add: handle_lt_capacity)
  ultimately show ?thesis using assms(3,4) sp
    by (simp add: ro_get_payload_def make_read_only_shared_memory_payload_def min_def)
qed

theorem reader_writer_agree_witness:
  "\<exists>rsp. ro_get_payload \<lparr>slot_index = 1, used_bytes = 5\<rparr> \<lparr>ro_base_address = 65536, ro_slot_size = 8, ro_slot_count = 2\<rparr>
      = Some (rsp, 1) \<and> span_data rsp - 65536 = 8 \<and> span_size rsp = 5"
proof -
  have "get_memory 1 (set_count two_slots 1 1) = Ok \<lparr>span_data = 4104, span_size = 8\<rparr>"
    by (simp add: get_memory_def get_reference_count_def count_at_def set_count_def two_slots_def word_le_nat_alt)
  with reader_writer_agree [of "set_count two_slots 1 1" "\<lparr>slot_index = 1, used_bytes = 5\<rparr>"
      "\<lparr>span_data = 4104, span_size = 8\<rparr>" "\<lparr>ro_base_address = 65536, ro_slot_size = 8, ro_slot_count = 2\<rparr>"]
    make_slot_manager_wf(1) [OF two_slots_made]
  show ?thesis by (auto simp: two_slots_def)
qed

end
