(* ===== verification/Shm_Factory.thy ===== *)
theory Shm_Factory
  imports Slot_Manager
begin

text \<open>
  The factory of slot managers (\<^verbatim>\<open>Shared_memory_manager_factory_impl\<close> of
  \<^verbatim>\<open>impl/shared_memory_slot_manager.cpp\<close>): the configuration that says which block a service
  instance uses, its extension by the configurations a client sends in \<^verbatim>\<open>Connect\<close>, and the
  conversion of a configuration into the list that is sent. \<open>shm_open\<close> is the operating
  system's answer to opening an existing shared memory object.
\<close>

type_synonym shm_open = "string \<Rightarrow> size_t option"

type_synonym Shared_memory_configuration =
  "(Service, (Instance_id, Shared_memory_metadata) assoc) assoc"

definition factory_create ::
    "shm_create \<Rightarrow> shm_allocate \<Rightarrow> Service \<Rightarrow> Instance_id \<Rightarrow> Shared_memory_configuration
      \<Rightarrow> (Shared_memory_manager_error, Slot_manager) result run" where
  "factory_create shm_create shm_allocate interface inst cfg =
    (case map_of cfg interface of
       None \<Rightarrow> Ok (Err logic_error_no_configuration_for_interface)
     | Some instances \<Rightarrow> (case map_of instances inst of
         None \<Rightarrow> Ok (Err logic_error_no_configuration_for_instance)
       | Some md \<Rightarrow> create_shared_memory_slot_manager shm_create shm_allocate (path md) (slot_count md) (slot_size md)))"

definition factory_register_configuration ::
    "Service_shared_memory_config list \<Rightarrow> Shared_memory_configuration \<Rightarrow> Shared_memory_configuration" where
  "factory_register_configuration configs cfg =
    foldl (\<lambda>c e. AList.update (cfg_service e)
                   (AList.update (cfg_instance e) (cfg_metadata e) (get_or [] (cfg_service e) c)) c)
      cfg configs"

definition factory_open ::
    "shm_open \<Rightarrow> Shared_memory_metadata \<Rightarrow> (Shared_memory_manager_error, Read_only_slot_manager) result run" where
  "factory_open shm_open md =
    (case shm_open (path md) of
       None \<Rightarrow> Ok (Err runtime_error_shared_memory_allocation_failed)
     | Some base \<Rightarrow> and_then (make_read_only_slot_manager base (slot_size md) (slot_count md)) (\<lambda>ro. Ok (Ok ro)))"

definition make_config_entry ::
    "Service \<Rightarrow> Instance_id \<times> Shared_memory_metadata \<Rightarrow> Service_shared_memory_config list
      \<Rightarrow> Service_shared_memory_config list run" where
  "make_config_entry interface e result =
    assert_run (length result < kMax_find_service_elements)
      (and_then (make_service interface) (\<lambda>_. and_then (make_instance_id (fst e)) (\<lambda>_.
         Ok (result @ [\<lparr>cfg_service = interface, cfg_instance = fst e, cfg_metadata = snd e\<rparr>]))))"

definition make_shared_memory_configs ::
    "Shared_memory_configuration \<Rightarrow> Service_shared_memory_config list run" where
  "make_shared_memory_configs config =
    fold_run (\<lambda>e. fold_run (make_config_entry (fst e)) (snd e)) config []"

text \<open>The metadata configured for a service instance.\<close>

definition configured :: "Shared_memory_configuration \<Rightarrow> Service \<Rightarrow> Instance_id \<Rightarrow> Shared_memory_metadata option" where
  "configured cfg s i = Option.bind (map_of cfg s) (\<lambda>instances. map_of instances i)"

definition entry_of :: "Service_shared_memory_config \<Rightarrow> (Service \<times> Instance_id) \<times> Shared_memory_metadata" where
  "entry_of e = ((cfg_service e, cfg_instance e), cfg_metadata e)"

subsection \<open>Registration\<close>

lemma configured_update:
  "configured (AList.update s (AList.update i md (get_or [] s cfg)) cfg) s' i' =
    (if s' = s \<and> i' = i then Some md else configured cfg s' i')"
  by (auto simp: configured_def get_or_def update_conv' split: option.splits)

lemma configured_register:
  "configured (factory_register_configuration configs cfg) s i =
    (case map_of (rev (map entry_of configs)) (s, i) of Some md \<Rightarrow> Some md | None \<Rightarrow> configured cfg s i)"
proof (induction configs arbitrary: cfg)
  case Nil
  then show ?case by (simp add: factory_register_configuration_def)
next
  case (Cons e configs)
  have "factory_register_configuration (e # configs) cfg = factory_register_configuration configs
      (AList.update (cfg_service e) (AList.update (cfg_instance e) (cfg_metadata e) (get_or [] (cfg_service e) cfg)) cfg)"
    by (simp add: factory_register_configuration_def)
  then show ?case using Cons
    by (auto simp: configured_update entry_of_def map_add_def split: option.splits)
qed

lemma factory_create_configured:
  "factory_create shm_c shm_a s i cfg = (case configured cfg s i of
     Some md \<Rightarrow> create_shared_memory_slot_manager shm_c shm_a (path md) (slot_count md) (slot_size md)
   | None \<Rightarrow> Ok (Err (if map_of cfg s = None then logic_error_no_configuration_for_interface
                       else logic_error_no_configuration_for_instance)))"
  by (auto simp: factory_create_def configured_def split: option.splits)

subsection \<open>Sending a configuration\<close>

definition flat_config :: "Shared_memory_configuration \<Rightarrow> Service_shared_memory_config list" where
  "flat_config config = concat (map (\<lambda>e.
     concat (map (\<lambda>e'. [\<lparr>cfg_service = fst e, cfg_instance = fst e', cfg_metadata = snd e'\<rparr>]) (snd e))) config)"

lemma make_configs_Ok: "make_shared_memory_configs config = Ok cs \<Longrightarrow> cs = flat_config config"
proof -
  assume Ok: "make_shared_memory_configs config = Ok cs"
  have entry: "make_config_entry s e r = Ok r' \<Longrightarrow>
      r' = r @ [\<lparr>cfg_service = s, cfg_instance = fst e, cfg_metadata = snd e\<rparr>]" for s e r r'
    by (auto simp: make_config_entry_def elim!: and_then_OkE)
  have "cs = [] @ flat_config config" unfolding flat_config_def
    by (rule fold_run_collect [OF fold_run_collect [OF entry] Ok [unfolded make_shared_memory_configs_def]])
  then show ?thesis by simp
qed

lemma make_config_entry_bound:
  "make_config_entry s e r = Ok r' \<Longrightarrow> length r' \<le> kMax_find_service_elements"
  by (auto simp: make_config_entry_def elim!: and_then_OkE)

lemma make_configs_bound: "make_shared_memory_configs config = Ok cs \<Longrightarrow> length cs \<le> kMax_find_service_elements"
  unfolding make_shared_memory_configs_def
  by (rule fold_run_invariant [where I = "\<lambda>r. length r \<le> kMax_find_service_elements", rotated 2])
    (auto intro: fold_run_invariant [where I = "\<lambda>r. length r \<le> kMax_find_service_elements", rotated 2]
      make_config_entry_bound)

lemma map_of_flat_instances:
  "map_of (map (\<lambda>e'. ((s, fst e'), snd e')) instances) (s', i) = (if s' = s then map_of instances i else None)"
  by (induction instances) auto

lemma map_of_flat_config:
  assumes "distinct (keys config)"
  shows "map_of (map entry_of (flat_config config)) (s, i) = configured config s i"
  using assms
proof (induction config)
  case Nil
  then show ?case by (simp add: flat_config_def configured_def)
next
  case (Cons e config)
  have split: "map entry_of (flat_config (e # config))
      = map (\<lambda>e'. ((fst e, fst e'), snd e')) (snd e) @ map entry_of (flat_config config)"
    by (simp add: flat_config_def entry_of_def map_concat o_def)
  have "configured config (fst e) i = None"
    using Cons.prems by (simp add: configured_def map_of_eq_None_iff [THEN iffD2])
  then show ?case using Cons
    by (auto simp: split map_add_def map_of_flat_instances configured_def split: option.splits)
qed

lemma Pair_disjoint: "a \<notin> fst ` K \<Longrightarrow> set (map (Pair a) xs) \<inter> K = {}"
  by force

lemma flat_config_distinct:
  assumes "distinct (keys config)" and "\<forall>e \<in> set config. distinct (keys (snd e))"
  shows "distinct (keys (map entry_of (flat_config config)))"
  using assms
proof (induction config)
  case Nil
  then show ?case by (simp add: flat_config_def)
next
  case (Cons e config)
  have split: "keys (map entry_of (flat_config (e # config)))
      = map (Pair (fst e)) (keys (snd e)) @ keys (map entry_of (flat_config config))"
    by (simp add: flat_config_def entry_of_def map_concat o_def)
  have "fst ` set (keys (map entry_of (flat_config config))) \<subseteq> set (keys config)"
    by (auto simp: flat_config_def entry_of_def intro: rev_image_eqI)
  then have "fst e \<notin> fst ` set (keys (map entry_of (flat_config config)))"
    using Cons.prems(1) by auto
  then have "set (map (Pair (fst e)) (keys (snd e))) \<inter> set (keys (map entry_of (flat_config config))) = {}"
    by (rule Pair_disjoint)
  moreover have "distinct (map (Pair (fst e)) (keys (snd e)))"
    using Cons.prems(2) by (simp add: distinct_map inj_on_def)
  ultimately show ?case using Cons by (simp only: split distinct_append) simp
qed

text \<open>C35. Configurations survive the trip to the server. If a client's configuration can be put
  into a \<^verbatim>\<open>Connect\<close> message at all, the list has at most 16 entries and a server that
  registers it uses, for every service instance, exactly the block the client configured;
  instances the client does not mention keep the block the server had.\<close>

theorem configuration_transfer:
  assumes "make_shared_memory_configs config = Ok cs"
    and "distinct (keys config)" and "\<forall>e \<in> set config. distinct (keys (snd e))"
  shows "length cs \<le> kMax_find_service_elements
    \<and> configured (factory_register_configuration cs server) s i =
        (case configured config s i of Some md \<Rightarrow> Some md | None \<Rightarrow> configured server s i)"
proof -
  have cs: "cs = flat_config config" by (rule make_configs_Ok [OF assms(1)])
  have "distinct (keys (rev (map entry_of cs)))"
    using flat_config_distinct [OF assms(2,3)] by (simp only: cs rev_map [symmetric] distinct_rev)
  then have "map_of (rev (map entry_of cs)) = map_of (map entry_of cs)"
    using flat_config_distinct [OF assms(2,3)] by (intro map_of_inject_set [THEN iffD2]) (simp_all add: cs)
  then show ?thesis
    using make_configs_bound [OF assms(1)] map_of_flat_config [OF assms(2)]
    by (simp add: configured_register cs)
qed

theorem configuration_transfer_witness:
  "configured (factory_register_configuration
      [\<lparr>cfg_service = \<lparr>sii_id = ''A'', sii_version = \<lparr>major = 1, minor = 0\<rparr>\<rparr>, cfg_instance = ''1'',
        cfg_metadata = \<lparr>path = ''/a_1'', slot_size = 64, slot_count = 4\<rparr>\<rparr>] [])
      \<lparr>sii_id = ''A'', sii_version = \<lparr>major = 1, minor = 0\<rparr>\<rparr> ''1''
    = Some \<lparr>path = ''/a_1'', slot_size = 64, slot_count = 4\<rparr>"
proof -
  let ?s = "\<lparr>sii_id = ''A'', sii_version = \<lparr>major = 1, minor = 0\<rparr>\<rparr>"
  let ?md = "\<lparr>path = ''/a_1'', slot_size = 64, slot_count = 4\<rparr>"
  have "make_shared_memory_configs [(?s, [(''1'', ?md)])] = Ok [\<lparr>cfg_service = ?s, cfg_instance = ''1'', cfg_metadata = ?md\<rparr>]"
    by (simp add: make_shared_memory_configs_def make_config_entry_def make_service_def make_instance_id_def
        fixed_string_from_string_def size_limits)
  from configuration_transfer [OF this, of "[]" ?s "''1''"] show ?thesis by (simp add: configured_def)
qed

end
