(* ===== verification/Keys.thy ===== *)
theory Keys
  imports Wire_Format
begin

text \<open>
  Numbering of service instances (\<^verbatim>\<open>impl/key.hpp\<close>, \<^verbatim>\<open>Id_generator\<close> of
  \<^verbatim>\<open>impl/gateway_ipc_binding_util.hpp\<close>): every pair of a service and an instance gets a 64-bit
  key on first use and keeps it; a key can be translated back.
\<close>

type_synonym Key_t = size_t

definition get_next_id :: "'a::len word \<Rightarrow> 'a word \<times> 'a word" where
  "get_next_id next_id = (next_id, next_id + 1)"

record Keys =
  m_keys :: "(Service, (Instance_id, Key_t) assoc) assoc"
  m_next_key :: Key_t

definition Keys_init :: Keys where
  "Keys_init = \<lparr>m_keys = [], m_next_key = 0\<rparr>"

definition keys_get :: "Service \<times> Instance_id \<Rightarrow> Keys \<Rightarrow> Key_t \<times> Keys" where
  "keys_get p ks =
    (case map_of (m_keys ks) (fst p) of
       Some instances \<Rightarrow> (case map_of instances (snd p) of
           Some k \<Rightarrow> (k, ks)
         | None \<Rightarrow> (let (k, n) = get_next_id (m_next_key ks) in
             (k, \<lparr>m_keys = update2 (fst p) (snd p) k (m_keys ks), m_next_key = n\<rparr>)))
     | None \<Rightarrow> (let (k, n) = get_next_id (m_next_key ks) in
         (k, \<lparr>m_keys = update2 (fst p) (snd p) k (m_keys ks), m_next_key = n\<rparr>)))"

text \<open>The overloads on SOCom identifiers convert first and assert that the names fit.\<close>

definition keys_get_socom :: "Service_interface_identifier \<Rightarrow> string \<Rightarrow> Keys \<Rightarrow> (Key_t \<times> Keys) run" where
  "keys_get_socom configuration inst ks =
    and_then (make_service configuration) (\<lambda>_. and_then (make_instance_id inst) (\<lambda>_.
      Ok (keys_get (configuration, inst) ks)))"

definition keys_find :: "Keys \<Rightarrow> Key_t \<Rightarrow> (Service \<times> Instance_id) option" where
  "keys_find ks key = map_option fst (find (\<lambda>e. snd e = key) (entries2 (m_keys ks)))"

definition key_of :: "Keys \<Rightarrow> Service \<times> Instance_id \<Rightarrow> Key_t option" where
  "key_of ks p = lookup2 (m_keys ks) (fst p) (snd p)"

definition keys_inv :: "Keys \<Rightarrow> bool" where
  "keys_inv ks \<longleftrightarrow> distinct2 (m_keys ks)
     \<and> (\<forall>p k. key_of ks p = Some k \<longrightarrow> k < m_next_key ks)
     \<and> (\<forall>p q k. key_of ks p = Some k \<longrightarrow> key_of ks q = Some k \<longrightarrow> p = q)"

text \<open>The generator can hand out one more key without wrapping around.\<close>

definition keys_room :: "Keys \<Rightarrow> bool" where
  "keys_room ks \<longleftrightarrow> m_next_key ks \<noteq> - 1"

subsection \<open>The contract of a registry of identifiers\<close>

locale id_registry =
  fixes inv :: "'s \<Rightarrow> bool"
    and room :: "'s \<Rightarrow> bool"
    and lk :: "'s \<Rightarrow> 'p \<Rightarrow> 'k option"
    and get :: "'p \<Rightarrow> 's \<Rightarrow> 'k \<times> 's"
    and rev_lk :: "'s \<Rightarrow> 'k \<Rightarrow> 'p option"
  assumes get_known: "lk s p = Some k \<Longrightarrow> get p s = (k, s)"
    and get_new: "inv s \<Longrightarrow> room s \<Longrightarrow> lk s p = None \<Longrightarrow> get p s = (k, s') \<Longrightarrow>
      lk s' = (lk s)(p \<mapsto> k) \<and> inv s'"
    and lk_inj: "inv s \<Longrightarrow> lk s p = Some k \<Longrightarrow> lk s q = Some k \<Longrightarrow> p = q"
    and rev_lk_iff: "inv s \<Longrightarrow> rev_lk s k = Some p \<longleftrightarrow> lk s p = Some k"
begin

lemma get_lk:
  assumes "inv s" and "room s" and "get p s = (k, s')"
  shows "lk s' = (lk s)(p \<mapsto> k)" and "inv s'"
proof -
  have "lk s' = (lk s)(p \<mapsto> k) \<and> inv s'"
  proof (cases "lk s p")
    case None
    then show ?thesis using get_new [OF assms(1,2) None assms(3)] by simp
  next
    case (Some k')
    then show ?thesis using get_known [OF Some] assms(1,3) by auto
  qed
  then show "lk s' = (lk s)(p \<mapsto> k)" and "inv s'" by simp_all
qed

lemma get_inv: "inv s \<Longrightarrow> room s \<Longrightarrow> get p s = (k, s') \<Longrightarrow> inv s' \<and> lk s' p = Some k"
  by (simp add: get_lk)

lemma get_keeps:
  assumes "inv s" and "room s" and "get p s = (k, s')" and "lk s q = Some k'"
  shows "lk s' q = Some k'"
proof (cases "lk s p")
  case None
  then show ?thesis using get_lk(1) [OF assms(1-3)] assms(4) by auto
next
  case (Some k'')
  then show ?thesis using get_known [OF Some] assms(3,4) by simp
qed

text \<open>A second request gives the same key and changes nothing; other pairs get other keys.\<close>

lemma get_stable: "inv s \<Longrightarrow> room s \<Longrightarrow> get p s = (k, s') \<Longrightarrow> get p s' = (k, s')"
  using get_inv get_known by blast

lemma get_distinct:
  assumes "inv s" and "room s" and "get p s = (k, s')" and "room s'" and "get q s' = (k', s'')" and "p \<noteq> q"
  shows "k \<noteq> k'"
proof -
  have s': "inv s'" "lk s' p = Some k" using get_inv [OF assms(1-3)] by simp_all
  have "inv s''" "lk s'' q = Some k'" using get_inv [OF s'(1) assms(4,5)] by simp_all
  moreover have "lk s'' p = Some k" by (rule get_keeps [OF s'(1) assms(4,5) s'(2)])
  ultimately show ?thesis using lk_inj [of s'' p k q] assms(6) by auto
qed

lemma rev_lk_get: "inv s \<Longrightarrow> room s \<Longrightarrow> get p s = (k, s') \<Longrightarrow> rev_lk s' k = Some p"
  using get_inv rev_lk_iff by blast

end

lemma keys_inv_lt: "keys_inv ks \<Longrightarrow> key_of ks p = Some k \<Longrightarrow> k < m_next_key ks"
  unfolding keys_inv_def by blast

lemma keys_inv_inj: "keys_inv ks \<Longrightarrow> key_of ks p = Some k \<Longrightarrow> key_of ks q = Some k \<Longrightarrow> p = q"
  unfolding keys_inv_def by blast

lemma keys_inv_distinct: "keys_inv ks \<Longrightarrow> distinct2 (m_keys ks)"
  by (simp add: keys_inv_def)

lemma keys_invI:
  assumes "distinct2 (m_keys ks)" and "\<And>p k. key_of ks p = Some k \<Longrightarrow> k < m_next_key ks"
    and "\<And>p q k. key_of ks p = Some k \<Longrightarrow> key_of ks q = Some k \<Longrightarrow> p = q"
  shows "keys_inv ks"
  unfolding keys_inv_def using assms by blast

lemma key_of_keys_get:
  "keys_get p ks = (case key_of ks p of
     Some k \<Rightarrow> (k, ks)
   | None \<Rightarrow> (m_next_key ks, \<lparr>m_keys = update2 (fst p) (snd p) (m_next_key ks) (m_keys ks), m_next_key = m_next_key ks + 1\<rparr>))"
  by (auto simp: keys_get_def key_of_def lookup2_def get_next_id_def split: option.splits)

lemma key_of_update2:
  "key_of \<lparr>m_keys = update2 (fst p) (snd p) k (m_keys ks), m_next_key = n\<rparr> = (key_of ks)(p \<mapsto> k)"
  by (rule ext) (auto simp: key_of_def prod_eq_iff)

lemma next_key_greater: "n \<noteq> - 1 \<Longrightarrow> n < n + (1 :: Key_t)"
proof -
  assume "n \<noteq> - 1"
  then have "unat n \<noteq> 2 ^ 64 - 1" by (auto simp: word_unat_eq_iff unsigned_minus_1_eq_mask mask_eq_exp_minus_1)
  then have "Suc (unat n) < 2 ^ 64" using unsigned_less [of n, where ?'a = nat] by simp
  then show ?thesis using unat_Suc_word [of n] by (simp add: word_less_nat_alt)
qed

lemma keys_inv_new:
  assumes "keys_inv ks" and "keys_room ks" and "key_of ks p = None"
  shows "keys_inv \<lparr>m_keys = update2 (fst p) (snd p) (m_next_key ks) (m_keys ks), m_next_key = m_next_key ks + 1\<rparr>"
proof -
  let ?n = "m_next_key ks"
  have lt: "?n < ?n + 1"
    using assms(2) next_key_greater by (simp add: keys_room_def)
  have old: "k < ?n" if "key_of ks q = Some k" for q k
    by (rule keys_inv_lt [OF assms(1) that])
  have upd: "((key_of ks)(p \<mapsto> ?n)) q = Some k \<longleftrightarrow> (q = p \<and> k = ?n \<or> q \<noteq> p \<and> key_of ks q = Some k)" for q k
    by auto
  show ?thesis
  proof (rule keys_invI, unfold key_of_update2 upd)
    show "k < m_next_key \<lparr>m_keys = update2 (fst p) (snd p) ?n (m_keys ks), m_next_key = ?n + 1\<rparr>"
      if "q = p \<and> k = ?n \<or> q \<noteq> p \<and> key_of ks q = Some k" for q k
      using that lt old [of q k] by auto
    show "q = r" if "q = p \<and> k = ?n \<or> q \<noteq> p \<and> key_of ks q = Some k"
      "r = p \<and> k = ?n \<or> r \<noteq> p \<and> key_of ks r = Some k" for q r k
      using that old [of q k] old [of r k] keys_inv_inj [OF assms(1), of q k r] by auto
  qed (simp add: distinct2_update2 keys_inv_distinct [OF assms(1)])
qed

lemma keys_find_iff:
  assumes "keys_inv ks"
  shows "keys_find ks k = Some p \<longleftrightarrow> key_of ks p = Some k"
proof -
  have mem: "((a, b), v) \<in> set (entries2 (m_keys ks)) \<longleftrightarrow> key_of ks (a, b) = Some v" for a b v
    using entries2_iff [OF keys_inv_distinct [OF assms]] by (simp add: key_of_def)
  have inj: "key_of ks q = Some k \<Longrightarrow> key_of ks p = Some k \<Longrightarrow> q = p" for q
    by (rule keys_inv_inj [OF assms])
  show ?thesis
  proof (cases "find (\<lambda>e. snd e = k) (entries2 (m_keys ks))")
    case None
    then have "((fst p, snd p), k) \<notin> set (entries2 (m_keys ks))" unfolding find_None_iff by (metis snd_conv)
    then show ?thesis using mem [of "fst p" "snd p" k] None by (simp add: keys_find_def)
  next
    case (Some e)
    then have "e \<in> set (entries2 (m_keys ks))" "snd e = k" by (auto simp: find_Some_iff)
    moreover obtain a b v where "e = ((a, b), v)" by (metis prod.collapse)
    ultimately have "key_of ks (fst e) = Some k" using mem [of a b v] by simp
    then show ?thesis using inj [of "fst e"] Some by (auto simp: keys_find_def)
  qed
qed

interpretation kr: id_registry keys_inv keys_room key_of keys_get keys_find
proof
  show "keys_get p s = (k, s)" if "key_of s p = Some k" for s p k
    using that by (simp add: key_of_keys_get)
  show "key_of s' = (key_of s)(p \<mapsto> k) \<and> keys_inv s'"
    if "keys_inv s" "keys_room s" "key_of s p = None" "keys_get p s = (k, s')" for s p k s'
    using that keys_inv_new [OF that(1-3)] by (auto simp: key_of_keys_get key_of_update2)
  show "p = q" if "keys_inv s" "key_of s p = Some k" "key_of s q = Some k" for s p k q
    by (rule keys_inv_inj [OF that])
qed (rule keys_find_iff)

lemma Keys_init_inv: "keys_inv Keys_init"
  by (simp add: keys_inv_def Keys_init_def key_of_def)

text \<open>Keys identify service instances. As long as the 64-bit generator has not wrapped, a pair of
  service and instance keeps its key, a different pair gets a different key, and the reverse
  lookup of a key gives the pair it was made for.\<close>

theorem keys_identify:
  assumes "keys_inv ks" and "keys_room ks" and "keys_get p ks = (k, ks')"
    and "keys_room ks'" and "keys_get q ks' = (k', ks'')"
  shows "keys_inv ks'' \<and> (k = k' \<longleftrightarrow> p = q) \<and> (q = p \<longrightarrow> ks'' = ks')
    \<and> keys_find ks'' k = Some p \<and> keys_find ks'' k' = Some q"
proof -
  have ks': "keys_inv ks'" "key_of ks' p = Some k" using kr.get_inv [OF assms(1-3)] by simp_all
  have ks'': "keys_inv ks''" "key_of ks'' q = Some k'" using kr.get_inv [OF ks'(1) assms(4,5)] by simp_all
  have "key_of ks'' p = Some k" by (rule kr.get_keeps [OF ks'(1) assms(4,5) ks'(2)])
  moreover have "k = k'" "ks'' = ks'" if "q = p"
    using kr.get_stable [OF assms(1-3)] assms(5) that by simp_all
  moreover have "k \<noteq> k'" if "p \<noteq> q"
    by (rule kr.get_distinct [OF assms(1-5) that])
  ultimately show ?thesis using ks'' keys_find_iff by auto
qed

theorem keys_identify_witness:
  "keys_find (snd (keys_get (\<lparr>sii_id = ''B'', sii_version = \<lparr>major = 1, minor = 0\<rparr>\<rparr>, ''1'')
      (snd (keys_get (\<lparr>sii_id = ''A'', sii_version = \<lparr>major = 1, minor = 0\<rparr>\<rparr>, ''1'') Keys_init)))) 0
    = Some (\<lparr>sii_id = ''A'', sii_version = \<lparr>major = 1, minor = 0\<rparr>\<rparr>, ''1'')"
proof -
  let ?p = "(\<lparr>sii_id = ''A'', sii_version = \<lparr>major = 1, minor = 0\<rparr>\<rparr>, ''1'')"
  let ?q = "(\<lparr>sii_id = ''B'', sii_version = \<lparr>major = 1, minor = 0\<rparr>\<rparr>, ''1'')"
  have g1: "keys_get ?p Keys_init = (0, \<lparr>m_keys = update2 (fst ?p) (snd ?p) 0 [], m_next_key = 1\<rparr>)"
    by (simp add: key_of_keys_get key_of_def Keys_init_def)
  obtain k ks where g2: "keys_get ?q (snd (keys_get ?p Keys_init)) = (k, ks)" by force
  have "keys_room Keys_init" by (simp add: keys_room_def Keys_init_def)
  moreover have "keys_room (snd (keys_get ?p Keys_init))" by (simp add: keys_room_def g1)
  ultimately show ?thesis
    using keys_identify [OF Keys_init_inv _ g1] g1 g2 by auto
qed

end
