(* ===== verification/Shared_Memory_Managers.thy ===== *)
theory Shared_Memory_Managers
  imports Shm_Factory Keys
begin

text \<open>
  Shared memory bookkeeping of the binding (\<^verbatim>\<open>impl/shared_memory_managers.hpp\<close>,
  \<^verbatim>\<open>impl/shared_memory_payload.hpp\<close>): the slot managers of the local service instances, created
  on first use, the payloads that are kept alive until every remote consumer has
  acknowledged them, and the read-only managers of the peers' blocks.

  The destruction callback of a payload is a value: \<open>Release_slot\<close> owns a guard on a slot of
  the manager its key names, \<open>Notify_consumed\<close> reports a peer's slot back to the peer, and
  \<open>Other_callback\<close> is any callback of another component. Destroying a payload releases the
  slot it owns and returns the other callbacks.
\<close>

datatype destroy_callback =
    Release_slot "Key_t Slot_guard"
  | Notify_consumed size_t Remote_handle Shared_memory_handle
  | Other_callback nat

type_synonym payload = "destroy_callback Payload"

record Shared_memory_allocation =
  al_payload :: "payload option"
  pending_consumers :: size_t

definition empty_allocation :: Shared_memory_allocation where
  "empty_allocation = \<lparr>al_payload = None, pending_consumers = 0\<rparr>"

record Shared_memory_managers =
  sm_configuration :: Shared_memory_configuration
  sm_slot_managers :: "(Key_t, Slot_manager) assoc"
  sm_allocations :: "(Key_t, Shared_memory_allocation list) assoc"

definition get_shared_memory_slot_manager ::
    "shm_create \<Rightarrow> shm_allocate \<Rightarrow> Keys \<Rightarrow> Key_t \<Rightarrow> Shared_memory_managers
      \<Rightarrow> (Slot_manager \<times> Shared_memory_managers) run" where
  "get_shared_memory_slot_manager shm_c shm_a ks key sms =
    (case map_of (sm_slot_managers sms) key of
       Some m \<Rightarrow> Ok (m, sms)
     | None \<Rightarrow> (case keys_find ks key of
         None \<Rightarrow> Err Assert_failed
       | Some (interface, inst) \<Rightarrow>
           and_then (factory_create shm_c shm_a interface inst (sm_configuration sms)) (\<lambda>r.
             (case r of
                Err _ \<Rightarrow> Err Assert_failed
              | Ok m \<Rightarrow> Ok (m, sms\<lparr>sm_slot_managers := AList.update key m (sm_slot_managers sms)\<rparr>)))))"

definition metadata_of_manager :: "Slot_manager \<Rightarrow> Shared_memory_metadata run" where
  "metadata_of_manager m =
    (case fixed_string_from_string kMax_shared_memory_path_size (get_path m) of
       Err _ \<Rightarrow> Err Assert_failed
     | Ok _ \<Rightarrow> Ok \<lparr>path = get_path m, slot_size = get_slot_size m, slot_count = get_slot_count m\<rparr>)"

definition get_shared_memory_metadata ::
    "shm_create \<Rightarrow> shm_allocate \<Rightarrow> Keys \<Rightarrow> Key_t \<Rightarrow> Shared_memory_managers
      \<Rightarrow> (Shared_memory_metadata \<times> Shared_memory_managers) run" where
  "get_shared_memory_metadata shm_c shm_a ks key sms =
    and_then (get_shared_memory_slot_manager shm_c shm_a ks key sms) (\<lambda>(m, sms').
      and_then (metadata_of_manager m) (\<lambda>md. Ok (md, sms')))"

definition sms_register_configuration ::
    "Service_shared_memory_config list \<Rightarrow> Shared_memory_managers \<Rightarrow> Shared_memory_managers" where
  "sms_register_configuration configs sms =
    sms\<lparr>sm_configuration := factory_register_configuration configs (sm_configuration sms)\<rparr>"

subsection \<open>Payloads\<close>

definition make_shared_memory_writable_payload ::
    "Key_t Slot_guard \<Rightarrow> Slot_manager \<Rightarrow> payload run" where
  "make_shared_memory_writable_payload g m =
    (let mem = guard_get_memory g m in
     assert_run (span_size mem \<noteq> 0)
       (case guard_get_handle g of
          Err _ \<Rightarrow> Err Null_deref
        | Ok h \<Rightarrow> assert_run (h \<noteq> kNoSlotHandle) (Ok (make_payload mem h (Release_slot g) 0 0))))"

definition run_callback ::
    "destroy_callback \<Rightarrow> Shared_memory_managers \<Rightarrow> destroy_callback list \<times> Shared_memory_managers" where
  "run_callback cb sms =
    (case cb of
       Release_slot g \<Rightarrow> (case g_manager g of
           None \<Rightarrow> ([], sms)
         | Some key \<Rightarrow> (case map_of (sm_slot_managers sms) key of
             None \<Rightarrow> ([], sms)
           | Some m \<Rightarrow> ([], sms\<lparr>sm_slot_managers := AList.update key (snd (guard_reset g m)) (sm_slot_managers sms)\<rparr>)))
     | _ \<Rightarrow> ([cb], sms))"

definition destroy_payload ::
    "payload \<Rightarrow> Shared_memory_managers \<Rightarrow> destroy_callback list \<times> Shared_memory_managers" where
  "destroy_payload p sms =
    (case pl_destroyed p of None \<Rightarrow> ([], sms) | Some cb \<Rightarrow> run_callback cb sms)"

text \<open>
  \<^verbatim>\<open>std::vector::resize\<close> to \<open>slot_handle + 1\<close>, computed in \<open>size_t\<close>: for the sentinel handle the
  sum is 0 and the access that follows is outside the vector. In the other cases the resize
  only appends empty entries. The payload that is not stored is destroyed on return.
\<close>

definition insert_allocation ::
    "Key_t \<Rightarrow> payload \<Rightarrow> size_t \<Rightarrow> Shared_memory_managers
      \<Rightarrow> (destroy_callback list \<times> Shared_memory_managers) run" where
  "insert_allocation key p consumer_count sms =
    (if consumer_count = 0 then Ok (destroy_payload p sms)
     else let allocations = get_or [] key (sm_allocations sms); slot_handle = get_slot_handle p in
       if slot_handle + 1 = 0 then Err Out_of_bounds
       else let allocations' =
              (if unat slot_handle \<ge> length allocations
               then allocations @ replicate (unat (slot_handle + 1) - length allocations) empty_allocation
               else allocations);
            al = allocations' ! unat slot_handle;
            al' = (if al_payload al = None then al\<lparr>al_payload := Some p\<rparr> else al);
            al'' = al'\<lparr>pending_consumers := pending_consumers al' + consumer_count\<rparr>;
            sms' = sms\<lparr>sm_allocations := AList.update key (allocations'[unat slot_handle := al'']) (sm_allocations sms)\<rparr>
          in Ok (if al_payload al = None then ([], sms') else destroy_payload p sms'))"

definition payload_consumed ::
    "Key_t \<Rightarrow> Shared_memory_handle \<Rightarrow> Shared_memory_managers \<Rightarrow> destroy_callback list \<times> Shared_memory_managers" where
  "payload_consumed key h sms =
    (case map_of (sm_allocations sms) key of
       None \<Rightarrow> ([], sms)
     | Some allocations \<Rightarrow>
         if unat (slot_index h) \<ge> length allocations then ([], sms)
         else let al = allocations ! unat (slot_index h) in
           if pending_consumers al = 0 then ([], sms)
           else if pending_consumers al > 1
             then ([], sms\<lparr>sm_allocations := AList.update key
                     (allocations[unat (slot_index h) := al\<lparr>pending_consumers := pending_consumers al - 1\<rparr>]) (sm_allocations sms)\<rparr>)
           else let sms' = sms\<lparr>sm_allocations := AList.update key
                     (allocations[unat (slot_index h) := empty_allocation]) (sm_allocations sms)\<rparr>
             in (case al_payload al of None \<Rightarrow> ([], sms') | Some p \<Rightarrow> destroy_payload p sms'))"

subsection \<open>Read-only managers\<close>

record Read_only_memory_managers =
  ro_managers :: "(string, Read_only_slot_manager) assoc"

definition get_read_only_shared_memory_slot_manager ::
    "shm_open \<Rightarrow> Shared_memory_metadata \<Rightarrow> Read_only_memory_managers
      \<Rightarrow> (Read_only_slot_manager \<times> Read_only_memory_managers) run" where
  "get_read_only_shared_memory_slot_manager shm_o md ros =
    (case map_of (ro_managers ros) (path md) of
       Some m \<Rightarrow> Ok (m, ros)
     | None \<Rightarrow> and_then (factory_open shm_o md) (\<lambda>r.
         (case r of
            Err _ \<Rightarrow> Err Assert_failed
          | Ok m \<Rightarrow> Ok (m, ros\<lparr>ro_managers := AList.update (path md) m (ro_managers ros)\<rparr>))))"

text \<open>The allocation recorded for a slot; absent entries count as empty.\<close>

definition allocation_at :: "Shared_memory_managers \<Rightarrow> Key_t \<Rightarrow> nat \<Rightarrow> Shared_memory_allocation" where
  "allocation_at sms key i =
    (let als = get_or [] key (sm_allocations sms) in if i < length als then als ! i else empty_allocation)"

definition consume :: "Key_t \<Rightarrow> Shared_memory_handle \<Rightarrow> Shared_memory_managers \<Rightarrow> Shared_memory_managers" where
  "consume key h sms = snd (payload_consumed key h sms)"

subsection \<open>Keeping payloads until they are consumed\<close>

lemma destroy_payload_allocations [simp]: "sm_allocations (snd (destroy_payload p sms)) = sm_allocations sms"
  by (auto simp: destroy_payload_def run_callback_def split: option.splits destroy_callback.splits)

lemma allocation_at_destroy [simp]: "allocation_at (snd (destroy_payload p sms)) = allocation_at sms"
  by (rule ext, rule ext) (simp add: allocation_at_def)

lemma allocation_at_update:
  "allocation_at (sms\<lparr>sm_allocations := AList.update key als (sm_allocations sms)\<rparr>) key' i =
    (if key' = key then if i < length als then als ! i else empty_allocation else allocation_at sms key' i)"
  by (simp add: allocation_at_def)

definition padded :: "nat \<Rightarrow> Shared_memory_allocation list \<Rightarrow> Shared_memory_allocation list" where
  "padded h als = (if h \<ge> length als then als @ replicate (Suc h - length als) empty_allocation else als)"

lemma padded_nth:
  "h < length (padded h als)"
  "i < length (padded h als) \<Longrightarrow> padded h als ! i = (if i < length als then als ! i else empty_allocation)"
  "length als \<le> length (padded h als)"
  by (auto simp: padded_def nth_append)

lemma allocation_at_padded:
  assumes "als = get_or [] key (sm_allocations sms)"
  shows "allocation_at (sms\<lparr>sm_allocations := AList.update key ((padded h als)[h := al]) (sm_allocations sms)\<rparr>) key' i =
    (if key' = key \<and> i = h then al else allocation_at sms key' i)"
  using padded_nth [where h = h and als = als] assms
  by (auto simp: allocation_at_update nth_list_update) (auto simp: allocation_at_def Let_def)

lemma insert_allocation_cases:
  assumes "n \<noteq> 0" and "pl_slot_handle p + 1 \<noteq> 0"
  shows "\<exists>sms'. insert_allocation key p n sms =
      Ok (if al_payload (allocation_at sms key (unat (pl_slot_handle p))) = None then ([], sms') else destroy_payload p sms')
    \<and> sm_slot_managers sms' = sm_slot_managers sms
    \<and> (\<forall>key' i. allocation_at sms' key' i =
        (if key' = key \<and> i = unat (pl_slot_handle p)
         then \<lparr>al_payload = (case al_payload (allocation_at sms key i) of None \<Rightarrow> Some p | Some q \<Rightarrow> Some q),
               pending_consumers = pending_consumers (allocation_at sms key i) + n\<rparr>
         else allocation_at sms key' i))"
proof -
  let ?als = "get_or [] key (sm_allocations sms)" and ?h = "unat (pl_slot_handle p)"
  let ?al = "padded ?h ?als ! ?h"
  let ?al' = "if al_payload ?al = None then ?al\<lparr>al_payload := Some p\<rparr> else ?al"
  let ?new = "?al'\<lparr>pending_consumers := pending_consumers ?al' + n\<rparr>"
  let ?sms = "sms\<lparr>sm_allocations := AList.update key ((padded ?h ?als)[?h := ?new]) (sm_allocations sms)\<rparr>"
  have al: "?al = allocation_at sms key ?h"
    using padded_nth [where h = ?h and als = ?als] by (simp add: allocation_at_def Let_def)
  have eq: "insert_allocation key p n sms = Ok (if al_payload ?al = None then ([], ?sms) else destroy_payload p ?sms)"
    using assms unat_succ_word [OF assms(2)]
    by (simp only: insert_allocation_def get_slot_handle_def Let_def padded_def if_False)
  have new: "?new = \<lparr>al_payload = (case al_payload ?al of None \<Rightarrow> Some p | Some q \<Rightarrow> Some q),
      pending_consumers = pending_consumers ?al + n\<rparr>"
    by (cases "al_payload ?al") simp_all
  show ?thesis
    using eq allocation_at_padded [of ?als key sms ?h ?new] new
    by (intro exI [of _ ?sms]) (simp add: al del: split_paired_All)
qed

lemma payload_consumed_cases:
  "payload_consumed key h sms =
    (let al = allocation_at sms key (unat (slot_index h)); als = get_or [] key (sm_allocations sms) in
     if pending_consumers al = 0 then ([], sms)
     else if pending_consumers al > 1
       then ([], sms\<lparr>sm_allocations := AList.update key (als[unat (slot_index h) := al\<lparr>pending_consumers := pending_consumers al - 1\<rparr>]) (sm_allocations sms)\<rparr>)
     else let sms' = sms\<lparr>sm_allocations := AList.update key (als[unat (slot_index h) := empty_allocation]) (sm_allocations sms)\<rparr>
       in (case al_payload al of None \<Rightarrow> ([], sms') | Some p \<Rightarrow> destroy_payload p sms'))"
  by (auto simp: payload_consumed_def allocation_at_def get_or_def Let_def empty_allocation_def split: option.splits)

lemma pending_in_range:
  "pending_consumers (allocation_at sms key i) \<noteq> 0 \<Longrightarrow> i < length (get_or [] key (sm_allocations sms))"
  by (auto simp: allocation_at_def Let_def empty_allocation_def split: if_splits)

lemma consume_pending:
  fixes h defines "i \<equiv> unat (slot_index h)"
  assumes "1 < pending_consumers (allocation_at sms key i)"
  shows "sm_slot_managers (consume key h sms) = sm_slot_managers sms"
    and "allocation_at (consume key h sms) key i =
      (allocation_at sms key i)\<lparr>pending_consumers := pending_consumers (allocation_at sms key i) - 1\<rparr>"
proof -
  have nz: "pending_consumers (allocation_at sms key i) \<noteq> 0" using assms(2) by auto
  from pending_in_range [OF this] show "allocation_at (consume key h sms) key i =
      (allocation_at sms key i)\<lparr>pending_consumers := pending_consumers (allocation_at sms key i) - 1\<rparr>"
    using nz assms(2) by (simp add: consume_def payload_consumed_cases i_def allocation_at_update Let_def)
  show "sm_slot_managers (consume key h sms) = sm_slot_managers sms"
    using nz assms(2) by (simp add: consume_def payload_consumed_cases i_def Let_def)
qed

lemma consume_last:
  fixes h defines "i \<equiv> unat (slot_index h)"
  assumes "pending_consumers (allocation_at sms key i) = 1" and "al_payload (allocation_at sms key i) = Some p"
  shows "\<exists>sms'. payload_consumed key h sms = destroy_payload p sms' \<and> sm_slot_managers sms' = sm_slot_managers sms
    \<and> allocation_at sms' key i = empty_allocation"
proof -
  let ?sms = "sms\<lparr>sm_allocations := AList.update key ((get_or [] key (sm_allocations sms))[i := empty_allocation]) (sm_allocations sms)\<rparr>"
  have "i < length (get_or [] key (sm_allocations sms))" using pending_in_range assms(2) by force
  then have "allocation_at ?sms key i = empty_allocation" by (simp add: allocation_at_update)
  moreover have "payload_consumed key h sms = destroy_payload p ?sms"
    using assms(2,3) by (simp add: payload_consumed_cases i_def Let_def)
  ultimately show ?thesis by (intro exI [of _ ?sms]) simp
qed

lemma consume_iterate:
  fixes h defines "i \<equiv> unat (slot_index h)"
  assumes "j < unat (pending_consumers (allocation_at sms key i))"
  shows "sm_slot_managers ((consume key h ^^ j) sms) = sm_slot_managers sms
    \<and> allocation_at ((consume key h ^^ j) sms) key i =
      (allocation_at sms key i)\<lparr>pending_consumers := pending_consumers (allocation_at sms key i) - of_nat j\<rparr>"
  using assms(2)
proof (induction j)
  case 0
  then show ?case by simp
next
  case (Suc j)
  let ?n = "pending_consumers (allocation_at sms key i)" and ?s = "(consume key h ^^ j) sms"
  from Suc have IH: "sm_slot_managers ?s = sm_slot_managers sms"
    "allocation_at ?s key i = (allocation_at sms key i)\<lparr>pending_consumers := ?n - of_nat j\<rparr>" by simp_all
  have "of_nat j \<le> ?n" using Suc.prems by (simp add: word_le_nat_alt unat_of_nat take_bit_eq_mod)
  moreover have "unat (of_nat j :: size_t) = j"
    using Suc.prems unsigned_less [of ?n, where ?'a = nat] by (intro unat_of_nat_small) simp
  ultimately have "unat (?n - of_nat j) = unat ?n - j" by (simp add: unat_sub)
  then have "1 < pending_consumers (allocation_at ?s key i)" using Suc.prems by (simp add: IH word_less_nat_alt)
  from consume_pending [OF this [unfolded i_def]] show ?case
    using IH by (simp add: i_def algebra_simps)
qed

lemma destroy_release:
  assumes "pl_destroyed p = Some (Release_slot g)" and "g_manager g = Some k"
    and "map_of (sm_slot_managers sms) k = Some m"
  shows "fst (destroy_payload p sms) = []"
    and "map_of (sm_slot_managers (snd (destroy_payload p sms))) = (map_of (sm_slot_managers sms))(k \<mapsto> snd (release_slot (g_handle g) m))"
  using assms by (simp_all add: destroy_payload_def run_callback_def guard_reset_def has_slot_def update_conv')

lemma payload_kept_for_consumers:
  assumes "allocation_at sms key (unat (slot_index h)) = empty_allocation" and "pl_slot_handle p = slot_index h"
    and "pl_slot_handle p \<noteq> kNoSlotHandle" and "n \<noteq> 0"
    and "pl_destroyed p = Some (Release_slot g)" and "g_manager g = Some k"
    and "map_of (sm_slot_managers sms) k = Some m" and "sm_wf m" and "0 < refs m (unat (g_handle g))"
  shows "\<exists>s. insert_allocation key p n sms = Ok ([], s)
    \<and> (\<forall>j. j < unat n \<longrightarrow> sm_slot_managers ((consume key h ^^ j) s) = sm_slot_managers sms
         \<and> al_payload (allocation_at ((consume key h ^^ j) s) key (unat (slot_index h))) = Some p)
    \<and> allocation_at ((consume key h ^^ unat n) s) key (unat (slot_index h)) = empty_allocation
    \<and> (\<exists>m'. map_of (sm_slot_managers ((consume key h ^^ unat n) s)) = (map_of (sm_slot_managers sms))(k \<mapsto> m')
         \<and> refs m' = (refs m)(unat (g_handle g) := refs m (unat (g_handle g)) - 1))"
proof -
  define i where "i = unat (slot_index h)"
  have "pl_slot_handle p + 1 \<noteq> 0" using assms(3) by (simp add: kNoSlotHandle_def add_eq_0_iff2)
  from insert_allocation_cases [OF assms(4) this, of key sms] obtain s where
    s: "insert_allocation key p n sms = Ok ([], s)" "sm_slot_managers s = sm_slot_managers sms"
      "allocation_at s key i = \<lparr>al_payload = Some p, pending_consumers = n\<rparr>"
    using assms(1,2) by (auto simp: i_def empty_allocation_def)
  have iter: "sm_slot_managers ((consume key h ^^ j) s) = sm_slot_managers sms"
    "allocation_at ((consume key h ^^ j) s) key i = \<lparr>al_payload = Some p, pending_consumers = n - of_nat j\<rparr>"
    if "j < unat n" for j
    using consume_iterate [of j s key h] that s by (simp_all add: i_def)
  obtain l where l: "unat n = Suc l" using assms(4) by (cases "unat n") (simp_all add: unat_eq_0)
  let ?t = "(consume key h ^^ l) s"
  have "n = of_nat (unat n)" by simp
  then have "n = of_nat (Suc l)" by (simp only: l)
  then have "pending_consumers (allocation_at ?t key i) = 1" "al_payload (allocation_at ?t key i) = Some p"
    using iter(2) [of l] l by simp_all
  from consume_last [OF this [unfolded i_def]] obtain u where
    u: "payload_consumed key h ?t = destroy_payload p u" "sm_slot_managers u = sm_slot_managers ?t" "allocation_at u key i = empty_allocation"
    by (auto simp: i_def)
  have last: "(consume key h ^^ unat n) s = snd (destroy_payload p u)" using u(1) l by (simp add: consume_def)
  have "map_of (sm_slot_managers u) k = Some m" using u(2) iter(1) [of l] l assms(7) by simp
  note d = destroy_release [OF assms(5,6) this]
  show ?thesis
    unfolding i_def [symmetric] using s(1) iter u d(2) last iter(1) [of l] l release_slot_effect(2) [OF assms(8,9)] by (intro exI [of _ s]) auto
qed

text \<open>C12. A shared payload lives exactly until its last consumer reports back. If a payload that owns
  a slot is recorded for \<open>n > 0\<close> consumers, the first \<open>n - 1\<close> \<^verbatim>\<open>Payload_consumed\<close> messages for
  its slot leave every slot manager unchanged and keep the payload, and the \<open>n\<close>-th clears the
  entry and drops exactly one reference of the slot the payload owns.\<close>

theorem payload_released_after_last_consumer:
  assumes "allocation_at sms key (unat (slot_index h)) = empty_allocation" and "pl_slot_handle p = slot_index h"
    and "pl_slot_handle p \<noteq> kNoSlotHandle" and "n \<noteq> 0"
    and "pl_destroyed p = Some (Release_slot g)" and "g_manager g = Some k"
    and "map_of (sm_slot_managers sms) k = Some m" and "sm_wf m" and "0 < refs m (unat (g_handle g))"
  shows "\<exists>s. insert_allocation key p n sms = Ok ([], s)
    \<and> (\<forall>j. j < unat n \<longrightarrow> sm_slot_managers ((consume key h ^^ j) s) = sm_slot_managers sms
         \<and> al_payload (allocation_at ((consume key h ^^ j) s) key (unat (slot_index h))) = Some p)
    \<and> allocation_at ((consume key h ^^ unat n) s) key (unat (slot_index h)) = empty_allocation
    \<and> (\<exists>m'. map_of (sm_slot_managers ((consume key h ^^ unat n) s)) = (map_of (sm_slot_managers sms))(k \<mapsto> m')
         \<and> refs m' = (refs m)(unat (g_handle g) := refs m (unat (g_handle g)) - 1))"
  by (rule payload_kept_for_consumers [OF assms])

definition sample_payload :: payload where
  "sample_payload = make_payload \<lparr>span_data = 4096, span_size = 8\<rparr> 0 (Release_slot \<lparr>g_manager = Some 7, g_handle = 0\<rparr>) 0 0"

definition sample_managers :: Shared_memory_managers where
  "sample_managers = \<lparr>sm_configuration = [], sm_slot_managers = [(7, set_count two_slots 0 1)], sm_allocations = []\<rparr>"

theorem payload_released_after_last_consumer_witness:
  "\<exists>s m'. insert_allocation 7 sample_payload 2 sample_managers = Ok ([], s)
     \<and> sm_slot_managers (consume 7 \<lparr>slot_index = 0, used_bytes = 8\<rparr> s) = sm_slot_managers sample_managers
     \<and> map_of (sm_slot_managers ((consume 7 \<lparr>slot_index = 0, used_bytes = 8\<rparr> ^^ 2) s)) 7 = Some m' \<and> refs m' 0 = 0"
proof -
  let ?h = "\<lparr>slot_index = 0, used_bytes = 8\<rparr>"
  have wf: "sm_wf (set_count two_slots 0 1)" using make_slot_manager_wf(1) [OF two_slots_made] by simp
  have r: "refs (set_count two_slots 0 1) 0 = 1"
    by (simp add: refs_def capacity_def two_slots_def count_at_def set_count_def)
  note th = payload_released_after_last_consumer
    [of sample_managers 7 ?h sample_payload 2 "\<lparr>g_manager = Some 7, g_handle = 0\<rparr>" 7 "set_count two_slots 0 1"]
  have al: "allocation_at sample_managers 7 (unat (slot_index ?h)) = empty_allocation"
    by (simp add: sample_managers_def allocation_at_def get_or_def)
  have "\<exists>s m'. insert_allocation 7 sample_payload 2 sample_managers = Ok ([], s)
    \<and> (\<forall>j. j < unat (2 :: size_t) \<longrightarrow> sm_slot_managers ((consume 7 ?h ^^ j) s) = sm_slot_managers sample_managers)
    \<and> map_of (sm_slot_managers ((consume 7 ?h ^^ 2) s)) 7 = Some m' \<and> refs m' 0 = 0"
    using th [OF al] wf r
    by (auto simp: sample_payload_def make_payload_def kNoSlotHandle_def sample_managers_def)
  then obtain s m' where "insert_allocation 7 sample_payload 2 sample_managers = Ok ([], s)"
    "\<forall>j. j < unat (2 :: size_t) \<longrightarrow> sm_slot_managers ((consume 7 ?h ^^ j) s) = sm_slot_managers sample_managers"
    "map_of (sm_slot_managers ((consume 7 ?h ^^ 2) s)) 7 = Some m'" "refs m' 0 = 0"
    by blast
  note res = this
  have "sm_slot_managers (consume 7 ?h s) = sm_slot_managers sample_managers"
    using res(2) [rule_format, of 1] by simp
  with res show ?thesis by blast
qed

text \<open>Payloads without a slot break the bookkeeping: an event whose payload carries the sentinel
  slot handle and that reached at least one peer makes \<^verbatim>\<open>insert_allocation\<close> access the
  allocation vector outside its bounds, because \<open>slot_handle + 1\<close> wraps to zero.\<close>

theorem insert_allocation_sentinel_out_of_bounds:
  assumes "pl_slot_handle p = kNoSlotHandle" and "n \<noteq> 0"
  shows "insert_allocation key p n sms = Err Out_of_bounds"
  using assms by (simp add: insert_allocation_def get_slot_handle_def kNoSlotHandle_def)

theorem insert_allocation_sentinel_out_of_bounds_witness:
  "insert_allocation 7 (empty_payload (Other_callback 0)) 1 sample_managers = Err Out_of_bounds"
  by (rule insert_allocation_sentinel_out_of_bounds) (simp_all add: empty_payload_def make_payload_def)

lemma read_only_manager_cached:
  assumes "get_read_only_shared_memory_slot_manager shm_o md ros = Ok (m, ros')" and "path md' = path md"
  shows "get_read_only_shared_memory_slot_manager shm_o' md' ros' = Ok (m, ros')"
  using assms
  by (auto simp: get_read_only_shared_memory_slot_manager_def update_conv' split: option.splits sum.splits elim!: and_then_OkE)

end
