(* ===== verification/Connection_Metadata.thy ===== *)
theory Connection_Metadata
  imports Keys
begin

text \<open>
  The table of established service connections (\<^verbatim>\<open>impl/connection_metadata.hpp\<close>): per client the
  vector of its connections, and per key an index from clients to positions in these vectors
  so that an event update finds its receivers without a scan.

  The laws below show that the index is always the inverse of the vectors, so that
  \<^verbatim>\<open>for_each_client\<close> visits exactly the connections of a key, and that every removal takes
  out exactly the connections it names.
\<close>

type_synonym Client_id = size_t

record Ids =
  ids_key :: Key_t
  local_handle :: Remote_handle
  remote_handle :: Remote_handle
  local_metadata :: Shared_memory_metadata
  remote_metadata :: Shared_memory_metadata

record Connection_metadata =
  m_id_to_key :: "(Client_id, Ids list) assoc"
  m_key_to_client_indices :: "(Key_t, (Client_id, nat) assoc) assoc"

definition Connection_metadata_init :: Connection_metadata where
  "Connection_metadata_init = \<lparr>m_id_to_key = [], m_key_to_client_indices = []\<rparr>"

text \<open>The calls \<^verbatim>\<open>func(client_id, ids)\<close> that the loop makes, in order.\<close>

definition for_each_client :: "Key_t \<Rightarrow> Connection_metadata \<Rightarrow> (Client_id \<times> Ids) list" where
  "for_each_client key cm =
    (case map_of (m_key_to_client_indices cm) key of
       None \<Rightarrow> []
     | Some indices \<Rightarrow> concat (map (\<lambda>(client, index).
         (case map_of (m_id_to_key cm) client of
            None \<Rightarrow> []
          | Some vec \<Rightarrow> if index \<ge> length vec then [] else [(client, vec ! index)])) indices))"

definition is_mapping_present :: "Client_id \<Rightarrow> Ids \<Rightarrow> Connection_metadata \<Rightarrow> bool run" where
  "is_mapping_present client ids cm =
    (case map_of (m_id_to_key cm) client of
       None \<Rightarrow> Ok False
     | Some vec \<Rightarrow> (case find (\<lambda>e. local_handle e = local_handle ids \<or> ids_key e = ids_key ids) vec of
         None \<Rightarrow> Ok False
       | Some e \<Rightarrow> assert_run (local_handle e = local_handle ids \<and> ids_key e = ids_key ids) (Ok True)))"

definition add_mapping :: "Client_id \<Rightarrow> Ids \<Rightarrow> Connection_metadata \<Rightarrow> Connection_metadata run" where
  "add_mapping client ids cm =
    and_then (is_mapping_present client ids cm) (\<lambda>present.
      assert_run (\<not> present)
        (let vec = get_or [] client (m_id_to_key cm) @ [ids]; index = length vec - 1 in
         Ok \<lparr>m_id_to_key = AList.update client vec (m_id_to_key cm),
             m_key_to_client_indices = update2 (ids_key (vec ! index)) client index (m_key_to_client_indices cm)\<rparr>))"

definition get_by_remote_handle :: "Client_id \<Rightarrow> Remote_handle \<Rightarrow> Connection_metadata \<Rightarrow> Ids option" where
  "get_by_remote_handle client h cm =
    (case map_of (m_id_to_key cm) client of
       None \<Rightarrow> None | Some vec \<Rightarrow> find (\<lambda>ids. remote_handle ids = h) vec)"

definition get_by_local_handle :: "Client_id \<Rightarrow> Remote_handle \<Rightarrow> Connection_metadata \<Rightarrow> Ids option" where
  "get_by_local_handle client h cm =
    (case map_of (m_id_to_key cm) client of
       None \<Rightarrow> None | Some vec \<Rightarrow> find (\<lambda>ids. local_handle ids = h) vec)"

definition remove_client_from_key_indices ::
    "Client_id \<Rightarrow> (Key_t, (Client_id, nat) assoc) assoc \<Rightarrow> (Key_t, (Client_id, nat) assoc) assoc" where
  "remove_client_from_key_indices client indices =
    keep_vals (\<lambda>inner. inner \<noteq> []) (map_vals (AList.delete client) indices)"

definition rebuild_client_key_indices :: "Client_id \<Rightarrow> Connection_metadata \<Rightarrow> Connection_metadata" where
  "rebuild_client_key_indices client cm =
    (let cleared = remove_client_from_key_indices client (m_key_to_client_indices cm) in
     case map_of (m_id_to_key cm) client of
       None \<Rightarrow> cm\<lparr>m_key_to_client_indices := cleared\<rparr>
     | Some vec \<Rightarrow> cm\<lparr>m_key_to_client_indices :=
         foldl (\<lambda>ix i. update2 (ids_key (vec ! i)) client i ix) cleared [0..<length vec]\<rparr>)"

definition cm_remove_client :: "Client_id \<Rightarrow> Connection_metadata \<Rightarrow> Connection_metadata" where
  "cm_remove_client client cm =
    \<lparr>m_id_to_key = AList.delete client (m_id_to_key cm),
     m_key_to_client_indices = remove_client_from_key_indices client (m_key_to_client_indices cm)\<rparr>"

text \<open>The common body of the removals: drop the connections of a client that satisfy a test.\<close>

definition erase_ids :: "(Ids \<Rightarrow> bool) \<Rightarrow> Client_id \<Rightarrow> Connection_metadata \<Rightarrow> Connection_metadata" where
  "erase_ids P client cm =
    (case map_of (m_id_to_key cm) client of
       None \<Rightarrow> cm
     | Some vec \<Rightarrow> let vec' = filter (\<lambda>ids. \<not> P ids) vec in
         if vec' = [] then cm_remove_client client cm
         else rebuild_client_key_indices client (cm\<lparr>m_id_to_key := AList.update client vec' (m_id_to_key cm)\<rparr>))"

definition remove_mapping_for_client_and_key ::
    "Client_id \<Rightarrow> Key_t \<Rightarrow> Connection_metadata \<Rightarrow> Connection_metadata" where
  "remove_mapping_for_client_and_key client key cm = erase_ids (\<lambda>ids. ids_key ids = key) client cm"

definition remove_mapping :: "Client_id \<Rightarrow> Remote_handle \<Rightarrow> Connection_metadata \<Rightarrow> Connection_metadata" where
  "remove_mapping client h cm = erase_ids (\<lambda>ids. remote_handle ids = h) client cm"

definition remove_service :: "Key_t \<Rightarrow> Connection_metadata \<Rightarrow> Connection_metadata" where
  "remove_service key cm =
    foldl (\<lambda>c client. erase_ids (\<lambda>ids. ids_key ids = key) client c) cm (keys (m_id_to_key cm))"

text \<open>Abstraction: the connections of a client, in the order they were made.\<close>

definition conns :: "Connection_metadata \<Rightarrow> Client_id \<Rightarrow> Ids list" where
  "conns cm client = get_or [] client (m_id_to_key cm)"

definition index_ok :: "Connection_metadata \<Rightarrow> bool" where
  "index_ok cm \<longleftrightarrow> (\<forall>key client i. lookup2 (m_key_to_client_indices cm) key client = Some i
     \<longleftrightarrow> i < length (conns cm client) \<and> ids_key (conns cm client ! i) = key)"

definition vectors_ok :: "Connection_metadata \<Rightarrow> bool" where
  "vectors_ok cm \<longleftrightarrow> (\<forall>client. distinct (map ids_key (conns cm client)) \<and> distinct (map local_handle (conns cm client)))"

definition cm_inv :: "Connection_metadata \<Rightarrow> bool" where
  "cm_inv cm \<longleftrightarrow> distinct (keys (m_id_to_key cm)) \<and> distinct2 (m_key_to_client_indices cm)
     \<and> vectors_ok cm \<and> index_ok cm"

subsection \<open>The index\<close>

lemma lookup2_remove:
  assumes "distinct2 ix"
  shows "lookup2 (remove_client_from_key_indices c ix) k c' = (if c' = c then None else lookup2 ix k c')"
proof -
  have "distinct (keys (map_vals (AList.delete c) ix))" using assms by (simp add: distinct2_def)
  then show ?thesis
    by (auto simp: lookup2_def remove_client_from_key_indices_def map_of_keep_vals map_of_map_vals delete_conv'
        split: option.splits) (metis delete_conv' fun_upd_other map_of.simps(1))
qed

lemma distinct2_remove: "distinct2 ix \<Longrightarrow> distinct2 (remove_client_from_key_indices c ix)"
  by (auto simp: distinct2_def remove_client_from_key_indices_def keep_vals_def map_vals_def o_def
      distinct_map_filter)

lemma lookup2_rebuild:
  assumes "distinct (map ids_key vec)" and "\<And>k. lookup2 ix k c = None" and "n \<le> length vec"
  shows "lookup2 (foldl (\<lambda>ix i. update2 (ids_key (vec ! i)) c i ix) ix [0..<n]) k c' = Some j \<longleftrightarrow>
    (if c' = c then j < n \<and> ids_key (vec ! j) = k else lookup2 ix k c' = Some j)"
  using assms(3)
proof (induction n arbitrary: j)
  case 0
  then show ?case using assms(2) by simp
next
  case (Suc n)
  have "ids_key (vec ! j) \<noteq> ids_key (vec ! n)" if "j < n" for j
    using assms(1) Suc.prems that nth_eq_iff_index_eq [of "map ids_key vec" j n] by simp
  note fresh = this
  have IH: "lookup2 (foldl (\<lambda>ix i. update2 (ids_key (vec ! i)) c i ix) ix [0..<n]) k c' = Some j \<longleftrightarrow>
      (if c' = c then j < n \<and> ids_key (vec ! j) = k else lookup2 ix k c' = Some j)"
    using Suc.prems by (intro Suc.IH) simp
  show ?case
  proof (cases "c' = c \<and> k = ids_key (vec ! n)")
    case True
    then show ?thesis using fresh [of j] by (auto simp: less_Suc_eq)
  next
    case False
    then show ?thesis using IH by (auto simp: less_Suc_eq)
  qed
qed

lemma distinct2_rebuild:
  "distinct2 ix \<Longrightarrow> distinct2 (foldl (\<lambda>ix i. update2 (ids_key (vec ! i)) c i ix) ix is)"
  by (induction "is" arbitrary: ix) (simp_all add: distinct2_update2)

subsection \<open>Removal\<close>

lemma conns_update [simp]:
  "conns (cm\<lparr>m_id_to_key := AList.update c vec m\<rparr>) c' = (if c' = c then vec else get_or [] c' m)"
  by (simp add: conns_def)

lemma conns_indices [simp]: "conns (cm\<lparr>m_key_to_client_indices := ix\<rparr>) = conns cm"
  by (rule ext) (simp add: conns_def)

lemma rebuild_id_to_key [simp]: "m_id_to_key (rebuild_client_key_indices c cm) = m_id_to_key cm"
  by (simp add: rebuild_client_key_indices_def Let_def split: option.split)

lemma conns_rebuild [simp]: "conns (rebuild_client_key_indices c cm) = conns cm"
  by (rule ext) (simp add: conns_def)

lemma conns_remove_client: "conns (cm_remove_client c cm) c' = (if c' = c then [] else conns cm c')"
  by (simp add: conns_def cm_remove_client_def get_or_def delete_conv')

lemma conns_erase_ids:
  "conns (erase_ids P c cm) c' = (if c' = c then filter (\<lambda>ids. \<not> P ids) (conns cm c) else conns cm c')"
  by (auto simp: erase_ids_def Let_def conns_remove_client split: option.splits)
    (auto simp: conns_def get_or_def)

lemma vectors_ok_erase_ids: "vectors_ok cm \<Longrightarrow> vectors_ok (erase_ids P c cm)"
  by (simp add: vectors_ok_def conns_erase_ids distinct_map_filter)

lemma rebuild_index_ok:
  assumes "distinct2 (m_key_to_client_indices cm)" and "vectors_ok cm"
    and "\<And>k c' i. c' \<noteq> c \<Longrightarrow> lookup2 (m_key_to_client_indices cm) k c' = Some i
       \<longleftrightarrow> i < length (conns cm c') \<and> ids_key (conns cm c' ! i) = k"
  shows "index_ok (rebuild_client_key_indices c cm)"
    and "distinct2 (m_key_to_client_indices (rebuild_client_key_indices c cm))"
proof -
  let ?ix = "remove_client_from_key_indices c (m_key_to_client_indices cm)"
  have none: "lookup2 ?ix k c = None" for k using lookup2_remove [OF assms(1)] by simp
  have d: "distinct2 ?ix" by (rule distinct2_remove [OF assms(1)])
  show "distinct2 (m_key_to_client_indices (rebuild_client_key_indices c cm))"
    using d by (simp add: rebuild_client_key_indices_def Let_def distinct2_rebuild split: option.split)
  show "index_ok (rebuild_client_key_indices c cm)"
  proof (cases "map_of (m_id_to_key cm) c")
    case None
    then have "conns cm c = []" by (simp add: conns_def get_or_def)
    then show ?thesis using None assms lookup2_remove [OF assms(1)]
      by (auto simp: index_ok_def rebuild_client_key_indices_def)
  next
    case (Some vec)
    then have vec: "conns cm c = vec" by (simp add: conns_def get_or_def)
    have "distinct (map ids_key vec)" using assms(2) vec by (auto simp: vectors_ok_def)
    from lookup2_rebuild [OF this none, of "length vec"] show ?thesis
      using Some vec assms(3) lookup2_remove [OF assms(1)]
      by (auto simp: index_ok_def rebuild_client_key_indices_def)
  qed
qed

lemma cm_inv_erase_ids:
  assumes "cm_inv cm"
  shows "cm_inv (erase_ids P c cm)"
proof (cases "map_of (m_id_to_key cm) c")
  case None
  then show ?thesis using assms by (simp add: erase_ids_def)
next
  case (Some vec)
  have d: "distinct2 (m_key_to_client_indices cm)" and v: "vectors_ok cm" and i: "index_ok cm"
    and k: "distinct (keys (m_id_to_key cm))"
    using assms by (simp_all add: cm_inv_def)
  note v' = vectors_ok_erase_ids [OF v, of P c]
  show ?thesis
  proof (cases "filter (\<lambda>ids. \<not> P ids) vec = []")
    case True
    then have e: "erase_ids P c cm = cm_remove_client c cm" using Some by (simp add: erase_ids_def)
    have "index_ok (cm_remove_client c cm)"
      using i lookup2_remove [OF d] unfolding index_ok_def
      by (simp add: conns_remove_client) (simp add: cm_remove_client_def)
    then show ?thesis using v' e d k distinct2_remove
      by (simp add: cm_inv_def) (simp add: cm_remove_client_def)
  next
    case False
    let ?cm = "cm\<lparr>m_id_to_key := AList.update c (filter (\<lambda>ids. \<not> P ids) vec) (m_id_to_key cm)\<rparr>"
    have e: "erase_ids P c cm = rebuild_client_key_indices c ?cm" using Some False by (simp add: erase_ids_def)
    have v'': "vectors_ok ?cm" using v' by (simp add: vectors_ok_def e)
    note r = rebuild_index_ok [of ?cm c, OF _ v'']
    show ?thesis using r i d k v' unfolding e
      by (simp add: cm_inv_def index_ok_def conns_def)
  qed
qed

lemma cm_inv_remove_client: "cm_inv cm \<Longrightarrow> cm_inv (cm_remove_client c cm)"
proof -
  assume "cm_inv cm"
  then have d: "distinct2 (m_key_to_client_indices cm)" and v: "vectors_ok cm" and i: "index_ok cm"
    and k: "distinct (keys (m_id_to_key cm))"
    by (simp_all add: cm_inv_def)
  have "index_ok (cm_remove_client c cm)"
    using i lookup2_remove [OF d] unfolding index_ok_def
    by (simp add: conns_remove_client) (simp add: cm_remove_client_def)
  moreover have "vectors_ok (cm_remove_client c cm)" using v by (simp add: vectors_ok_def conns_remove_client)
  ultimately show ?thesis using d k distinct2_remove
    by (simp add: cm_inv_def) (simp add: cm_remove_client_def)
qed

lemma foldl_erase_ids:
  "conns (foldl (\<lambda>c client. erase_ids P client c) cm clients) c' =
    (if c' \<in> set clients then filter (\<lambda>ids. \<not> P ids) (conns cm c') else conns cm c')"
  by (induction clients arbitrary: cm) (auto simp: conns_erase_ids)

lemma conns_remove_service:
  "conns (remove_service key cm) c = filter (\<lambda>ids. ids_key ids \<noteq> key) (conns cm c)"
proof -
  have "conns cm c = []" if "c \<notin> set (keys (m_id_to_key cm))"
    using that by (simp add: conns_def get_or_def map_of_eq_None_iff [THEN iffD2])
  then show ?thesis by (auto simp: remove_service_def foldl_erase_ids)
qed

lemma cm_inv_foldl: "cm_inv cm \<Longrightarrow> cm_inv (foldl (\<lambda>c client. erase_ids P client c) cm clients)"
  by (induction clients arbitrary: cm) (simp_all add: cm_inv_erase_ids)

lemma cm_inv_remove_service: "cm_inv cm \<Longrightarrow> cm_inv (remove_service key cm)"
  unfolding remove_service_def by (rule cm_inv_foldl)

subsection \<open>Adding a connection\<close>

lemma is_mapping_present_False:
  "is_mapping_present c ids cm = Ok False \<longleftrightarrow>
    (\<forall>e \<in> set (conns cm c). local_handle e \<noteq> local_handle ids \<and> ids_key e \<noteq> ids_key ids)"
  by (auto simp: is_mapping_present_def conns_def get_or_def find_None_iff find_Some_iff
      split: option.splits) (metis nth_mem)+

lemma add_mapping_Ok:
  "add_mapping c ids cm = Ok cm' \<longleftrightarrow>
    (\<forall>e \<in> set (conns cm c). local_handle e \<noteq> local_handle ids \<and> ids_key e \<noteq> ids_key ids)
    \<and> cm' = \<lparr>m_id_to_key = AList.update c (conns cm c @ [ids]) (m_id_to_key cm),
             m_key_to_client_indices = update2 (ids_key ids) c (length (conns cm c)) (m_key_to_client_indices cm)\<rparr>"
proof -
  have "add_mapping c ids cm = Ok cm' \<longleftrightarrow> is_mapping_present c ids cm = Ok False
    \<and> cm' = \<lparr>m_id_to_key = AList.update c (conns cm c @ [ids]) (m_id_to_key cm),
             m_key_to_client_indices = update2 (ids_key ids) c (length (conns cm c)) (m_key_to_client_indices cm)\<rparr>"
    by (cases "is_mapping_present c ids cm") (auto simp: add_mapping_def conns_def Let_def)
  then show ?thesis by (simp add: is_mapping_present_False)
qed

lemma add_mapping_effect:
  assumes "add_mapping c ids cm = Ok cm'"
  shows "conns cm' c' = (if c' = c then conns cm c @ [ids] else conns cm c')"
  using assms by (simp add: add_mapping_Ok) (simp add: conns_def)

lemma cm_inv_add_mapping:
  assumes "cm_inv cm" and "add_mapping c ids cm = Ok cm'"
  shows "cm_inv cm'"
proof -
  have new: "ids_key ids \<notin> ids_key ` set (conns cm c)" "local_handle ids \<notin> local_handle ` set (conns cm c)"
    and cm': "m_key_to_client_indices cm' = update2 (ids_key ids) c (length (conns cm c)) (m_key_to_client_indices cm)"
      "m_id_to_key cm' = AList.update c (conns cm c @ [ids]) (m_id_to_key cm)"
    using assms(2) by (auto simp: add_mapping_Ok)
  note conns' = add_mapping_effect [OF assms(2)]
  have i: "lookup2 (m_key_to_client_indices cm) k c' = Some i \<longleftrightarrow> i < length (conns cm c') \<and> ids_key (conns cm c' ! i) = k" for k c' i
    using assms(1) by (simp add: cm_inv_def index_ok_def)
  have "ids_key (conns cm c ! i) \<noteq> ids_key ids" if "i < length (conns cm c)" for i
    using new(1) nth_mem [OF that] by (metis imageI)
  then have "index_ok cm'" unfolding index_ok_def
    by (auto simp: cm' conns' i nth_append less_Suc_eq)
  moreover have "vectors_ok cm'" using assms(1) new by (auto simp: cm_inv_def vectors_ok_def conns')
  ultimately show ?thesis using assms(1) by (simp add: cm_inv_def cm' distinct2_update2)
qed

subsection \<open>Visiting the connections of a key\<close>

lemma for_each_client_index:
  assumes "cm_inv cm"
  shows "for_each_client key cm = map (\<lambda>(c, i). (c, conns cm c ! i)) (get_or [] key (m_key_to_client_indices cm))"
proof (cases "map_of (m_key_to_client_indices cm) key")
  case None
  then show ?thesis by (simp add: for_each_client_def get_or_def)
next
  case (Some inner)
  have d: "distinct (keys inner)" using assms Some get_or_distinct [of "m_key_to_client_indices cm" key]
    by (simp add: cm_inv_def get_or_def)
  have "i < length (conns cm c)" if "(c, i) \<in> set inner" for c i
  proof -
    have "lookup2 (m_key_to_client_indices cm) key c = Some i" using Some d that by (simp add: lookup2_def)
    then show ?thesis using assms by (simp add: cm_inv_def index_ok_def)
  qed
  then have "(case map_of (m_id_to_key cm) c of None \<Rightarrow> [] | Some vec \<Rightarrow> if i \<ge> length vec then [] else [(c, vec ! i)])
      = [(c, conns cm c ! i)]" if "(c, i) \<in> set inner" for c i
    using that by (fastforce simp: conns_def get_or_def split: option.splits)
  then have "concat (map (\<lambda>(c, i). case map_of (m_id_to_key cm) c of None \<Rightarrow> [] | Some vec \<Rightarrow> if i \<ge> length vec then [] else [(c, vec ! i)]) inner)
      = concat (map (\<lambda>(c, i). [(c, conns cm c ! i)]) inner)"
    by (intro arg_cong [where f = concat] map_cong) auto
  also have "\<dots> = map (\<lambda>(c, i). (c, conns cm c ! i)) inner" by (induction inner) auto
  finally show ?thesis using Some by (simp add: for_each_client_def get_or_def)
qed

lemma for_each_client_iff:
  assumes "cm_inv cm"
  shows "(c, ids) \<in> set (for_each_client key cm) \<longleftrightarrow> ids \<in> set (conns cm c) \<and> ids_key ids = key"
proof -
  have d: "distinct2 (m_key_to_client_indices cm)" using assms by (simp add: cm_inv_def)
  have i: "lookup2 (m_key_to_client_indices cm) k c' = Some i \<longleftrightarrow> i < length (conns cm c') \<and> ids_key (conns cm c' ! i) = k" for k c' i
    using assms by (simp add: cm_inv_def index_ok_def)
  have "(c, j) \<in> set (get_or [] key (m_key_to_client_indices cm)) \<longleftrightarrow> lookup2 (m_key_to_client_indices cm) key c = Some j" for j
    using get_or_distinct [OF d, of key] by (simp add: get_or_def lookup2_def split: option.splits)
  then show ?thesis by (auto simp: for_each_client_index [OF assms] i in_set_conv_nth)
qed

lemma for_each_client_once:
  assumes "cm_inv cm"
  shows "distinct (map fst (for_each_client key cm))"
proof -
  have "map fst (for_each_client key cm) = keys (get_or [] key (m_key_to_client_indices cm))"
    by (simp add: for_each_client_index [OF assms] case_prod_unfold o_def)
  moreover have "distinct2 (m_key_to_client_indices cm)" using assms by (simp add: cm_inv_def)
  ultimately show ?thesis by (simp only: get_or_distinct)
qed

subsection \<open>The contract of the connection table\<close>

text \<open>
  What the message handlers rely on: visiting a key reaches exactly the connections of that
  key, each client at most once; adding and erasing change only the client they name.
\<close>

locale connection_table =
  fixes inv :: "'s \<Rightarrow> bool"
    and con :: "'s \<Rightarrow> 'c \<Rightarrow> 'i list"
    and ikey :: "'i \<Rightarrow> 'k"
    and visit :: "'k \<Rightarrow> 's \<Rightarrow> ('c \<times> 'i) list"
    and erase :: "('i \<Rightarrow> bool) \<Rightarrow> 'c \<Rightarrow> 's \<Rightarrow> 's"
  assumes visit_iff: "inv s \<Longrightarrow> (c, i) \<in> set (visit k s) \<longleftrightarrow> i \<in> set (con s c) \<and> ikey i = k"
    and visit_once: "inv s \<Longrightarrow> distinct (map fst (visit k s))"
    and erase_con: "con (erase P c s) c' = (if c' = c then filter (\<lambda>i. \<not> P i) (con s c) else con s c')"
    and erase_inv: "inv s \<Longrightarrow> inv (erase P c s)"
begin

lemma one_connection_per_key:
  assumes "inv s" and "i \<in> set (con s c)" and "j \<in> set (con s c)" and "ikey i = ikey j"
  shows "i = j"
proof -
  have "(c, i) \<in> set (visit (ikey i) s)" "(c, j) \<in> set (visit (ikey i) s)"
    using visit_iff [OF assms(1)] assms(2-4) by auto
  with visit_once [OF assms(1), of "ikey i"] show ?thesis
    by (metis eq_key_imp_eq_value)
qed

lemma visit_after_erase:
  assumes "inv s"
  shows "(c', i) \<in> set (visit k (erase P c s)) \<longleftrightarrow> (c', i) \<in> set (visit k s) \<and> \<not> (c' = c \<and> P i)"
  using visit_iff [OF erase_inv [OF assms]] visit_iff [OF assms] erase_con by auto

lemma visit_erased_key:
  assumes "inv s"
  shows "c \<notin> fst ` set (visit k (erase (\<lambda>i. ikey i = k) c s))"
  using visit_after_erase [OF assms] visit_iff [OF assms] by fastforce

end

interpretation ct: connection_table cm_inv conns ids_key for_each_client erase_ids
  using for_each_client_iff for_each_client_once conns_erase_ids cm_inv_erase_ids by unfold_locales

lemma Connection_metadata_init_inv: "cm_inv Connection_metadata_init"
  by (simp add: cm_inv_def Connection_metadata_init_def index_ok_def vectors_ok_def conns_def get_or_def)

text \<open>The operations that change the table, as one relation.\<close>

inductive cm_step :: "Connection_metadata \<Rightarrow> Connection_metadata \<Rightarrow> bool" where
  "add_mapping c ids cm = Ok cm' \<Longrightarrow> cm_step cm cm'"
| "cm_step cm (cm_remove_client c cm)"
| "cm_step cm (remove_mapping_for_client_and_key c key cm)"
| "cm_step cm (remove_mapping c h cm)"
| "cm_step cm (remove_service key cm)"

lemma cm_inv_step: "cm_step cm cm' \<Longrightarrow> cm_inv cm \<Longrightarrow> cm_inv cm'"
  by (induction rule: cm_step.induct)
    (simp_all add: cm_inv_add_mapping cm_inv_remove_client cm_inv_remove_service cm_inv_erase_ids
      remove_mapping_for_client_and_key_def remove_mapping_def)

lemma cm_inv_reachable: "cm_step\<^sup>*\<^sup>* Connection_metadata_init cm \<Longrightarrow> cm_inv cm"
  by (induction rule: rtranclp_induct) (simp_all add: Connection_metadata_init_inv cm_inv_step)

text \<open>C36. The index is exact. After any sequence of additions and removals, \<^verbatim>\<open>for_each_client\<close> visits
  a connection exactly when a scan over all clients finds it under the key, and visits each
  client at most once, although it only follows stored positions.\<close>

theorem for_each_client_exact:
  assumes "cm_step\<^sup>*\<^sup>* Connection_metadata_init cm"
  shows "set (for_each_client key cm) = {(c, ids). ids \<in> set (conns cm c) \<and> ids_key ids = key}
    \<and> distinct (map fst (for_each_client key cm))"
  using for_each_client_iff [OF cm_inv_reachable [OF assms]] for_each_client_once [OF cm_inv_reachable [OF assms]]
  by auto

definition sample_ids :: "Key_t \<Rightarrow> Remote_handle \<Rightarrow> Remote_handle \<Rightarrow> Ids" where
  "sample_ids k l r = \<lparr>ids_key = k, local_handle = l, remote_handle = r,
     local_metadata = \<lparr>path = ''/l'', slot_size = 8, slot_count = 1\<rparr>,
     remote_metadata = \<lparr>path = ''/r'', slot_size = 8, slot_count = 1\<rparr>\<rparr>"

theorem for_each_client_exact_witness:
  "\<exists>cm. cm_step\<^sup>*\<^sup>* Connection_metadata_init cm \<and> conns cm 5 = [sample_ids 1 11 21]
     \<and> (5, sample_ids 1 11 21) \<in> set (for_each_client 1 cm)"
proof -
  obtain cm1 where s1: "add_mapping 5 (sample_ids 0 10 20) Connection_metadata_init = Ok cm1"
    by (simp add: add_mapping_Ok Connection_metadata_init_def conns_def get_or_def)
  have c1: "conns cm1 5 = [sample_ids 0 10 20]"
    using add_mapping_effect [OF s1] by (simp add: Connection_metadata_init_def conns_def get_or_def)
  obtain cm2 where s2: "add_mapping 5 (sample_ids 1 11 21) cm1 = Ok cm2"
    by (simp add: add_mapping_Ok c1 sample_ids_def)
  have c2: "conns cm2 5 = [sample_ids 0 10 20, sample_ids 1 11 21]"
    using add_mapping_effect [OF s2] c1 by simp
  define cm3 where "cm3 = remove_mapping 5 20 cm2"
  have "cm_step\<^sup>*\<^sup>* Connection_metadata_init cm3"
    using cm_step.intros(1) [OF s1] cm_step.intros(1) [OF s2] cm_step.intros(4) [of cm2 5 20]
    unfolding cm3_def by (meson converse_rtranclp_into_rtranclp rtranclp.rtrancl_refl)
  moreover have "conns cm3 5 = [sample_ids 1 11 21]"
    by (simp add: cm3_def remove_mapping_def conns_erase_ids c2) (simp add: sample_ids_def)
  ultimately show ?thesis using for_each_client_exact [of cm3 1]
    by (intro exI [of _ cm3]) (simp add: sample_ids_def)
qed

text \<open>Removals take out exactly what they name. Removing a client, a client's connection by key or
  by the peer's handle, or a whole service leaves every other connection in place and order,
  and adding succeeds exactly when the client has neither the key nor the local handle yet.\<close>

theorem removals_exact:
  "conns (cm_remove_client c cm) c' = (if c' = c then [] else conns cm c')
   \<and> conns (remove_mapping_for_client_and_key c key cm) c' = (if c' = c then filter (\<lambda>i. ids_key i \<noteq> key) (conns cm c) else conns cm c')
   \<and> conns (remove_mapping c h cm) c' = (if c' = c then filter (\<lambda>i. remote_handle i \<noteq> h) (conns cm c) else conns cm c')
   \<and> conns (remove_service key cm) c' = filter (\<lambda>i. ids_key i \<noteq> key) (conns cm c')
   \<and> (is_Ok (add_mapping c ids cm) \<longleftrightarrow>
        local_handle ids \<notin> local_handle ` set (conns cm c) \<and> ids_key ids \<notin> ids_key ` set (conns cm c))"
proof -
  have "is_Ok (add_mapping c ids cm) \<longleftrightarrow>
      local_handle ids \<notin> local_handle ` set (conns cm c) \<and> ids_key ids \<notin> ids_key ` set (conns cm c)"
    by (simp add: is_Ok_iff add_mapping_Ok) (metis (mono_tags, lifting) image_iff)
  then show ?thesis
    by (simp add: conns_remove_client remove_mapping_for_client_and_key_def remove_mapping_def conns_erase_ids conns_remove_service)
qed

end
