(* ===== verification/Peer_Tables.thy ===== *)
theory Peer_Tables
  imports Connection_Metadata
begin

text \<open>
  Two small tables of the binding: the reply channels of the connected clients
  (\<^verbatim>\<open>impl/connections.hpp\<close>) and the service connections that were requested but not answered
  yet (\<^verbatim>\<open>impl/pending_connects.hpp\<close>).

  A reply channel is named by a number. Whether the transport accepts a message is a
  parameter \<open>send_ok\<close> of type \<open>channel \<Rightarrow> message \<Rightarrow> bool\<close>; sending returns the result and the
  list of messages put on channels.
\<close>

type_synonym channel = nat
type_synonym send_ok = "channel \<Rightarrow> message \<Rightarrow> bool"
type_synonym Connections = "(Client_id, channel) assoc"

definition channel_send :: "send_ok \<Rightarrow> channel \<Rightarrow> message \<Rightarrow> (Bidirectional_channel_error, unit) result" where
  "channel_send ok ch msg = (if ok ch msg then Ok () else Err runtime_error_send_failed)"

definition connections_send ::
    "send_ok \<Rightarrow> Client_id \<Rightarrow> message \<Rightarrow> Connections
      \<Rightarrow> (Bidirectional_channel_error, unit) result \<times> (channel \<times> message) list" where
  "connections_send ok client msg tab =
    (case map_of tab client of
       None \<Rightarrow> (Err runtime_error_send_failed, [])
     | Some ch \<Rightarrow> (channel_send ok ch msg, [(ch, msg)]))"

definition send_to_all ::
    "send_ok \<Rightarrow> message \<Rightarrow> Connections
      \<Rightarrow> (Bidirectional_channel_error, unit) result \<times> (channel \<times> message) list" where
  "send_to_all ok msg tab =
    foldl (\<lambda>(last_failure, sent) entry.
        (case channel_send ok (snd entry) msg of
           Ok _ \<Rightarrow> (last_failure, sent @ [(snd entry, msg)])
         | Err e \<Rightarrow> (Err e, sent @ [(snd entry, msg)])))
      (Ok (), []) tab"

definition connections_add_client :: "Client_id \<Rightarrow> channel \<Rightarrow> Connections \<Rightarrow> Connections run" where
  "connections_add_client client ch tab =
    assert_run (map_of tab client = None) (Ok (tab @ [(client, ch)]))"

definition connections_remove_client :: "Client_id \<Rightarrow> Connections \<Rightarrow> Connections" where
  "connections_remove_client client tab = AList.delete client tab"

definition get_reply_channel :: "Client_id \<Rightarrow> Connections \<Rightarrow> channel option" where
  "get_reply_channel client tab = map_of tab client"

subsection \<open>Pending connects\<close>

record Pending_connect =
  pc_key :: Key_t
  pc_client_id :: Client_id

type_synonym Pending_connects = "(Remote_handle, Pending_connect) assoc"

definition clear_pending_connects :: "(Pending_connect \<Rightarrow> bool) \<Rightarrow> Pending_connects \<Rightarrow> Pending_connects" where
  "clear_pending_connects checker pend = keep_vals (\<lambda>v. \<not> checker v) pend"

definition clear_pending_connects_for_key :: "Key_t \<Rightarrow> Pending_connects \<Rightarrow> Pending_connects" where
  "clear_pending_connects_for_key key pend = clear_pending_connects (\<lambda>v. pc_key v = key) pend"

definition pending_find :: "Remote_handle \<Rightarrow> Pending_connects \<Rightarrow> Pending_connect option" where
  "pending_find h pend = map_of pend h"

definition pending_erase :: "Remote_handle \<Rightarrow> Pending_connects \<Rightarrow> Pending_connects" where
  "pending_erase h pend = AList.delete h pend"

text \<open>\<^verbatim>\<open>std::unordered_map::emplace\<close>: an existing entry stays.\<close>

definition pending_emplace :: "Remote_handle \<Rightarrow> Pending_connect \<Rightarrow> Pending_connects \<Rightarrow> Pending_connects" where
  "pending_emplace h v pend = (if map_of pend h = None then pend @ [(h, v)] else pend)"

subsection \<open>Laws\<close>

lemma send_to_all_acc:
  "snd (foldl (\<lambda>(lf, sent) entry.
        (case channel_send ok (snd entry) msg of
           Ok _ \<Rightarrow> (lf, sent @ [(snd entry, msg)]) | Err e \<Rightarrow> (Err e, sent @ [(snd entry, msg)])))
      acc tab) = snd acc @ map (\<lambda>e. (snd e, msg)) tab"
  by (induction tab arbitrary: acc) (auto simp: channel_send_def split: sum.splits)

text \<open>A failing channel does not keep the others from getting the message.\<close>

lemma send_to_all_sent: "snd (send_to_all ok msg tab) = map (\<lambda>e. (snd e, msg)) tab"
  by (simp add: send_to_all_def send_to_all_acc)

lemma send_to_all_acc_result:
  "fst (foldl (\<lambda>(lf, sent) entry.
        (case channel_send ok (snd entry) msg of
           Ok _ \<Rightarrow> (lf, sent @ [(snd entry, msg)]) | Err e \<Rightarrow> (Err e, sent @ [(snd entry, msg)])))
      acc tab) = Ok () \<longleftrightarrow> fst acc = Ok () \<and> (\<forall>e \<in> set tab. ok (snd e) msg)"
  by (induction tab arbitrary: acc) (auto simp: channel_send_def split: if_splits)

lemma send_to_all_Ok: "fst (send_to_all ok msg tab) = Ok () \<longleftrightarrow> (\<forall>e \<in> set tab. ok (snd e) msg)"
  by (simp add: send_to_all_def send_to_all_acc_result)

lemma connections_add_client_Ok:
  "connections_add_client c ch tab = Ok tab' \<longleftrightarrow> c \<notin> set (keys tab) \<and> tab' = tab @ [(c, ch)]"
  by (auto simp: connections_add_client_def map_of_eq_None_iff)

lemma get_reply_channel_add:
  "connections_add_client c ch tab = Ok tab' \<Longrightarrow>
    get_reply_channel c' tab' = (if c' = c then Some ch else get_reply_channel c' tab)"
  by (auto simp: connections_add_client_Ok get_reply_channel_def map_add_def map_of_eq_None_iff [THEN iffD2] split: option.splits)

lemma get_reply_channel_remove:
  "get_reply_channel c' (connections_remove_client c tab) = (if c' = c then None else get_reply_channel c' tab)"
  by (simp add: get_reply_channel_def connections_remove_client_def delete_conv')

lemma pending_find_emplace:
  "pending_find h' (pending_emplace h v pend) =
    (if h' = h \<and> pending_find h pend = None then Some v else pending_find h' pend)"
  by (auto simp: pending_find_def pending_emplace_def map_add_def split: option.splits)

lemma distinct_pending_emplace: "distinct (keys pend) \<Longrightarrow> distinct (keys (pending_emplace h v pend))"
  by (auto simp: pending_emplace_def map_of_eq_None_iff)

lemma pending_find_clear:
  "distinct (keys pend) \<Longrightarrow> pending_find h (clear_pending_connects P pend) =
    (case pending_find h pend of None \<Rightarrow> None | Some v \<Rightarrow> if P v then None else Some v)"
  by (auto simp: pending_find_def clear_pending_connects_def map_of_keep_vals split: option.splits)

lemma distinct_clear_pending [simp]: "distinct (keys pend) \<Longrightarrow> distinct (keys (clear_pending_connects P pend))"
  by (simp add: clear_pending_connects_def)

lemma pending_find_erase: "pending_find h' (pending_erase h pend) = (if h' = h then None else pending_find h' pend)"
  by (simp add: pending_find_def pending_erase_def delete_conv')

lemma set_clear_pending: "e \<in> set (clear_pending_connects P pend) \<longleftrightarrow> e \<in> set pend \<and> \<not> P (snd e)"
  by (auto simp: clear_pending_connects_def keep_vals_def)

end
