(* ===== verification/Service_State.thy ===== *)
theory Service_State
  imports Shared_Memory_Managers Peer_Tables
begin

text \<open>
  State of the service instances the binding knows (\<^verbatim>\<open>impl/service_state.hpp\<close>): which peers offer
  an instance, which SOCom connectors exist for it, and which peers subscribed to which of
  its events.

  SOCom connectors are objects of the runtime; here they are numbers, and the calls the
  binding makes on them are returned as a list of \<open>connector_call\<close>s. A
  \<^verbatim>\<open>std::unordered_set\<close> of subscribers is a list without duplicates.
\<close>

type_synonym connector = nat

datatype connector_call =
    Subscribe_call connector Event_id
  | Unsubscribe_call connector Event_id

record Event_subscription_endpoint =
  ep_client_id :: Client_id
  ep_provided_id :: Remote_handle

type_synonym Event_subscribers = "(Event_id, Event_subscription_endpoint list) assoc"

record Offer_state =
  offered :: bool
  connect_sent :: bool
  required_id :: Remote_handle

definition new_offer :: Offer_state where
  "new_offer = \<lparr>offered = False, connect_sent = False, required_id = 0\<rparr>"

record Service_counts =
  num_methods :: u16
  num_events :: u16

record Service_state =
  ss_service :: Service
  ss_instance :: Instance_id
  ss_counts :: Service_counts
  requested :: bool
  offers :: "(Client_id, Offer_state) assoc"
  client_connector :: "connector option"
  client_connector_pending :: bool
  enabled_connector :: "connector option"
  event_subscriptions :: Event_subscribers

definition new_service_state :: "Service \<Rightarrow> Instance_id \<Rightarrow> Service_state" where
  "new_service_state s i =
    \<lparr>ss_service = s, ss_instance = i, ss_counts = \<lparr>num_methods = 0, num_events = 0\<rparr>, requested = False,
     offers = [], client_connector = None, client_connector_pending = False, enabled_connector = None,
     event_subscriptions = []\<rparr>"

subsection \<open>One service\<close>

text \<open>
  The part of the binding that \<^verbatim>\<open>send_connect_service\<close> updates through its reference arguments,
  and the world \<open>'w\<close> its \<^verbatim>\<open>send_func\<close> works on.
\<close>

record 'w connect_world =
  cw_next_local_id :: Remote_handle
  cw_keys :: Keys
  cw_slot_managers :: Shared_memory_managers
  cw_world :: 'w

type_synonym 'w send_func = "Client_id \<Rightarrow> Remote_handle \<Rightarrow> message \<Rightarrow> 'w \<Rightarrow> (bool \<times> 'w) run"

definition send_connect_offer ::
    "shm_create \<Rightarrow> shm_allocate \<Rightarrow> 'w send_func \<Rightarrow> Service \<Rightarrow> Instance_id \<Rightarrow> Client_id \<Rightarrow> Offer_state
      \<Rightarrow> 'w connect_world \<Rightarrow> (Offer_state \<times> 'w connect_world) run" where
  "send_connect_offer shm_c shm_a send_func s i client offer cw =
    (if \<not> offered offer \<or> connect_sent offer then Ok (offer, cw)
     else let (rid, nxt) = (if required_id offer = 0 then get_next_id (cw_next_local_id cw)
                            else (required_id offer, cw_next_local_id cw));
              offer' = offer\<lparr>required_id := rid\<rparr> in
       and_then (make_service s) (\<lambda>_. and_then (make_instance_id i) (\<lambda>_.
         let (key, ks) = keys_get (s, i) (cw_keys cw) in
         and_then (get_shared_memory_metadata shm_c shm_a ks key (cw_slot_managers cw)) (\<lambda>(md, sms).
         and_then (send_func client rid (Connect_service s i rid md True) (cw_world cw)) (\<lambda>(sent, w).
           Ok (if sent then offer'\<lparr>connect_sent := True\<rparr> else offer',
               \<lparr>cw_next_local_id = nxt, cw_keys = ks, cw_slot_managers = sms, cw_world = w\<rparr>))))))"

definition send_connect_service ::
    "shm_create \<Rightarrow> shm_allocate \<Rightarrow> 'w send_func \<Rightarrow> Service_state \<Rightarrow> 'w connect_world
      \<Rightarrow> (Service_state \<times> 'w connect_world) run" where
  "send_connect_service shm_c shm_a send_func st cw =
    (if \<not> requested st then Ok (st, cw)
     else fold_run (\<lambda>(client, offer) (st', cw').
            and_then (send_connect_offer shm_c shm_a send_func (ss_service st) (ss_instance st) client offer cw') (\<lambda>(offer', cw'').
              Ok (st'\<lparr>offers := AList.update client offer' (offers st')\<rparr>, cw'')))
          (offers st) (st, cw))"

text \<open>The common loop of the two removals: keep the subscribers that satisfy a test, drop the
  events that have none left and unsubscribe from them.\<close>

definition prune_subscriptions ::
    "(Event_subscription_endpoint \<Rightarrow> bool) \<Rightarrow> connector option \<Rightarrow> Event_subscribers
      \<Rightarrow> Event_subscribers \<times> connector_call list" where
  "prune_subscriptions keep connector subs =
    (keep_vals (\<lambda>s. s \<noteq> []) (map_vals (filter keep) subs),
     (case connector of
        None \<Rightarrow> []
      | Some c \<Rightarrow> map (\<lambda>e. Unsubscribe_call c (fst e)) (filter (\<lambda>e. filter keep (snd e) = []) subs)))"

definition remove_event_subscriptions ::
    "Client_id \<Rightarrow> connector option \<Rightarrow> Service_state \<Rightarrow> Service_state \<times> connector_call list" where
  "remove_event_subscriptions client connector st =
    (let (subs, calls) = prune_subscriptions (\<lambda>ep. ep_client_id ep \<noteq> client) connector (event_subscriptions st) in
     (st\<lparr>event_subscriptions := subs\<rparr>, calls))"

definition remove_event_subscription ::
    "Event_subscription_endpoint \<Rightarrow> connector option \<Rightarrow> Service_state \<Rightarrow> Service_state \<times> connector_call list" where
  "remove_event_subscription endpoint connector st =
    (let (subs, calls) = prune_subscriptions (\<lambda>ep. ep \<noteq> endpoint) connector (event_subscriptions st) in
     (st\<lparr>event_subscriptions := subs\<rparr>, calls))"

subsection \<open>All services\<close>

type_synonym Service_states = "(Key_t, Service_state) assoc"

definition states_get :: "Key_t \<Rightarrow> Service_states \<Rightarrow> Service_state option" where
  "states_get key sts = map_of sts key"

definition get_or_create :: "Key_t \<Rightarrow> Service \<Rightarrow> Instance_id \<Rightarrow> Service_states \<Rightarrow> Service_state" where
  "get_or_create key s i sts = get_or (new_service_state s i) key sts"

definition add_service ::
    "Key_t \<Rightarrow> Service \<Rightarrow> Instance_id \<Rightarrow> Service_counts \<Rightarrow> Service_states \<Rightarrow> Service_states" where
  "add_service key s i counts sts =
    AList.update key ((get_or_create key s i sts)\<lparr>ss_counts := counts, requested := True\<rparr>) sts"

definition process_offer ::
    "Key_t \<Rightarrow> Client_id \<Rightarrow> Service \<Rightarrow> Instance_id \<Rightarrow> bool \<Rightarrow> Service_states
      \<Rightarrow> connector option \<times> Service_states" where
  "process_offer key client s i off sts =
    (let st = get_or_create key s i sts in
     if \<not> off
     then (enabled_connector st,
           AList.update key (st\<lparr>offers := AList.delete client (offers st), enabled_connector := None\<rparr>) sts)
     else (None,
           AList.update key (st\<lparr>offers := AList.update client ((get_or new_offer client (offers st))\<lparr>offered := True\<rparr>) (offers st)\<rparr>) sts))"

text \<open>The result says whether the state still exists; the connectors are those that the call
  takes out of the state or destroys together with it.\<close>

definition process_request_service ::
    "Key_t \<Rightarrow> Service_counts \<Rightarrow> Service \<Rightarrow> Instance_id \<Rightarrow> bool \<Rightarrow> Service_states
      \<Rightarrow> bool \<times> connector option \<times> connector option \<times> Service_states" where
  "process_request_service key counts s i in_use sts =
    (let st = get_or_create key s i sts in
     if \<not> in_use then (False, enabled_connector st, client_connector st, AList.delete key sts)
     else (True, None, None, AList.update key (st\<lparr>ss_counts := counts, requested := in_use\<rparr>) sts))"

text \<open>The connector that is destroyed: the new one when the state is gone, otherwise the replaced one.\<close>

definition add_server_connector ::
    "Key_t \<Rightarrow> connector \<Rightarrow> Service_states \<Rightarrow> connector option \<times> Service_states" where
  "add_server_connector key c sts =
    (case states_get key sts of
       None \<Rightarrow> (Some c, sts)
     | Some st \<Rightarrow> (enabled_connector st, AList.update key (st\<lparr>enabled_connector := Some c\<rparr>) sts))"

definition mark_client_connector_pending ::
    "Key_t \<Rightarrow> Service \<Rightarrow> Instance_id \<Rightarrow> Service_states \<Rightarrow> Service_states" where
  "mark_client_connector_pending key s i sts =
    AList.update key ((get_or_create key s i sts)\<lparr>client_connector_pending := True\<rparr>) sts"

definition clear_client_connector_pending :: "Key_t \<Rightarrow> Service_states \<Rightarrow> Service_states" where
  "clear_client_connector_pending key sts =
    (case states_get key sts of
       None \<Rightarrow> sts
     | Some st \<Rightarrow> AList.update key (st\<lparr>client_connector_pending := False\<rparr>) sts)"

definition add_client_connector ::
    "Key_t \<Rightarrow> connector \<Rightarrow> Service_states \<Rightarrow> (connector option \<times> Service_states) run" where
  "add_client_connector key c sts =
    (case states_get key sts of
       None \<Rightarrow> Err Assert_failed
     | Some st \<Rightarrow> Ok (client_connector st,
         AList.update key (st\<lparr>client_connector := Some c, client_connector_pending := False\<rparr>) sts))"

definition remove_client_connector :: "Key_t \<Rightarrow> Service_states \<Rightarrow> connector option \<times> Service_states" where
  "remove_client_connector key sts =
    (case states_get key sts of
       None \<Rightarrow> (None, sts)
     | Some st \<Rightarrow> (client_connector st,
         AList.update key (st\<lparr>client_connector_pending := False, client_connector := None\<rparr>) sts))"

definition remove_offer_of :: "Client_id \<Rightarrow> Service_state \<Rightarrow> connector list \<times> Service_state" where
  "remove_offer_of client st =
    (if map_of (offers st) client = None then ([], st)
     else let st' = st\<lparr>offers := AList.delete client (offers st)\<rparr> in
       if offers st' \<noteq> [] then ([], st')
       else (case enabled_connector st' of None \<Rightarrow> [] | Some c \<Rightarrow> [c],
             st'\<lparr>event_subscriptions := [], enabled_connector := None\<rparr>))"

definition remove_offers :: "Client_id \<Rightarrow> Service_states \<Rightarrow> connector list \<times> Service_states" where
  "remove_offers client sts =
    (concat (map (\<lambda>e. fst (remove_offer_of client (snd e))) sts),
     map_vals (\<lambda>st. snd (remove_offer_of client st)) sts)"

definition release_client_connectors :: "Service_states \<Rightarrow> connector list \<times> Service_states" where
  "release_client_connectors sts =
    (concat (map (\<lambda>e. case client_connector (snd e) of None \<Rightarrow> [] | Some c \<Rightarrow> [c]) sts),
     map_vals (\<lambda>st. st\<lparr>client_connector_pending := False, client_connector := None\<rparr>) sts)"

definition has_connector :: "Key_t \<Rightarrow> Service_states \<Rightarrow> bool" where
  "has_connector key sts =
    (case states_get key sts of None \<Rightarrow> False | Some st \<Rightarrow> enabled_connector st \<noteq> None)"

definition has_client_connector :: "Key_t \<Rightarrow> Service_states \<Rightarrow> bool" where
  "has_client_connector key sts =
    (case states_get key sts of
       None \<Rightarrow> False | Some st \<Rightarrow> client_connector_pending st \<or> client_connector st \<noteq> None)"

definition subscribe_in ::
    "connector option \<Rightarrow> Event_subscription_endpoint \<Rightarrow> Event_id \<Rightarrow> Event_subscribers
      \<Rightarrow> Event_subscribers \<times> connector_call list" where
  "subscribe_in connector endpoint event subs =
    (let old = get_or [] event subs;
         inserted = (endpoint \<notin> set old);
         new = (if inserted then old @ [endpoint] else old) in
     (AList.update event new subs,
      (case connector of
         None \<Rightarrow> []
       | Some c \<Rightarrow> if inserted \<and> length new = 1 then [Subscribe_call c event] else [])))"

definition unsubscribe_in ::
    "connector option \<Rightarrow> Event_subscription_endpoint \<Rightarrow> Event_id \<Rightarrow> Event_subscribers
      \<Rightarrow> Event_subscribers \<times> connector_call list" where
  "unsubscribe_in connector endpoint event subs =
    (case map_of subs event of
       None \<Rightarrow> (subs, [])
     | Some old \<Rightarrow> let new = removeAll endpoint old in
         if new \<noteq> [] then (AList.update event new subs, [])
         else (AList.delete event subs,
               (case connector of None \<Rightarrow> [] | Some c \<Rightarrow> [Unsubscribe_call c event])))"

definition update_event_subscription ::
    "Key_t \<Rightarrow> Event_subscription_endpoint \<Rightarrow> Event_id \<Rightarrow> bool \<Rightarrow> Service_states
      \<Rightarrow> Service_states \<times> connector_call list" where
  "update_event_subscription key endpoint event subscribe sts =
    (case states_get key sts of
       None \<Rightarrow> (sts, [])
     | Some st \<Rightarrow>
         let (subs, calls) = (if subscribe then subscribe_in else unsubscribe_in)
               (client_connector st) endpoint event (event_subscriptions st)
         in (AList.update key (st\<lparr>event_subscriptions := subs\<rparr>) sts, calls))"

definition remove_event_subscriptions_for_client ::
    "Client_id \<Rightarrow> Service_states \<Rightarrow> Service_states \<times> connector_call list" where
  "remove_event_subscriptions_for_client client sts =
    (map_vals (\<lambda>st. fst (remove_event_subscriptions client (client_connector st) st)) sts,
     concat (map (\<lambda>e. snd (remove_event_subscriptions client (client_connector (snd e)) (snd e))) sts))"

definition remove_event_subscriptions_for_connection ::
    "Key_t \<Rightarrow> Client_id \<Rightarrow> Remote_handle \<Rightarrow> Service_states \<Rightarrow> Service_states \<times> connector_call list" where
  "remove_event_subscriptions_for_connection key client provided sts =
    (case states_get key sts of
       None \<Rightarrow> (sts, [])
     | Some st \<Rightarrow>
         let (st', calls) = remove_event_subscription \<lparr>ep_client_id = client, ep_provided_id = provided\<rparr> (client_connector st) st
         in (AList.update key st' sts, calls))"

definition clear_event_subscriptions :: "Key_t \<Rightarrow> Service_states \<Rightarrow> Service_states" where
  "clear_event_subscriptions key sts =
    (case states_get key sts of
       None \<Rightarrow> sts | Some st \<Rightarrow> AList.update key (st\<lparr>event_subscriptions := []\<rparr>) sts)"

subsection \<open>Subscriptions as a relation\<close>

text \<open>
  Abstraction: which endpoint is subscribed to which event. The connector's own view is the
  set of events it is subscribed to, which the calls change; \<open>call_ok\<close> says that a call is not
  redundant.
\<close>

definition subs_rel :: "Event_subscribers \<Rightarrow> (Event_id \<times> Event_subscription_endpoint) set" where
  "subs_rel subs = {(e, ep). ep \<in> set (get_or [] e subs)}"

definition subs_ok :: "Event_subscribers \<Rightarrow> bool" where
  "subs_ok subs \<longleftrightarrow> distinct (keys subs) \<and> (\<forall>e l. map_of subs e = Some l \<longrightarrow> l \<noteq> [] \<and> distinct l)"

fun apply_call :: "connector_call \<Rightarrow> Event_id set \<Rightarrow> Event_id set" where
  "apply_call (Subscribe_call c e) S = insert e S"
| "apply_call (Unsubscribe_call c e) S = S - {e}"

fun call_ok :: "connector \<Rightarrow> connector_call \<Rightarrow> Event_id set \<Rightarrow> bool" where
  "call_ok c (Subscribe_call c' e) S \<longleftrightarrow> c' = c \<and> e \<notin> S"
| "call_ok c (Unsubscribe_call c' e) S \<longleftrightarrow> c' = c \<and> e \<in> S"

fun calls_ok :: "connector \<Rightarrow> connector_call list \<Rightarrow> Event_id set \<Rightarrow> bool" where
  "calls_ok c [] S \<longleftrightarrow> True"
| "calls_ok c (a # as) S \<longleftrightarrow> call_ok c a S \<and> calls_ok c as (apply_call a S)"

definition after_calls :: "connector_call list \<Rightarrow> Event_id set \<Rightarrow> Event_id set" where
  "after_calls calls S = foldl (\<lambda>S a. apply_call a S) S calls"

datatype subscription_op =
    Op_subscribe Event_subscription_endpoint Event_id
  | Op_unsubscribe Event_subscription_endpoint Event_id
  | Op_remove_client Client_id
  | Op_remove_endpoint Event_subscription_endpoint

fun run_subscription_op ::
    "connector option \<Rightarrow> subscription_op \<Rightarrow> Event_subscribers \<Rightarrow> Event_subscribers \<times> connector_call list" where
  "run_subscription_op c (Op_subscribe ep e) subs = subscribe_in c ep e subs"
| "run_subscription_op c (Op_unsubscribe ep e) subs = unsubscribe_in c ep e subs"
| "run_subscription_op c (Op_remove_client cl) subs = prune_subscriptions (\<lambda>ep. ep_client_id ep \<noteq> cl) c subs"
| "run_subscription_op c (Op_remove_endpoint ep) subs = prune_subscriptions (\<lambda>ep'. ep' \<noteq> ep) c subs"

fun spec_subscription_op ::
    "subscription_op \<Rightarrow> (Event_id \<times> Event_subscription_endpoint) set \<Rightarrow> (Event_id \<times> Event_subscription_endpoint) set" where
  "spec_subscription_op (Op_subscribe ep e) R = insert (e, ep) R"
| "spec_subscription_op (Op_unsubscribe ep e) R = R - {(e, ep)}"
| "spec_subscription_op (Op_remove_client cl) R = {(e, ep) \<in> R. ep_client_id ep \<noteq> cl}"
| "spec_subscription_op (Op_remove_endpoint ep) R = {(e, ep') \<in> R. ep' \<noteq> ep}"

fun run_subscription_ops ::
    "connector option \<Rightarrow> subscription_op list \<Rightarrow> Event_subscribers \<Rightarrow> Event_subscribers \<times> connector_call list" where
  "run_subscription_ops c [] subs = (subs, [])"
| "run_subscription_ops c (p # ps) subs =
    (let (subs', calls) = run_subscription_op c p subs; (subs'', calls') = run_subscription_ops c ps subs'
     in (subs'', calls @ calls'))"

lemma subs_ok_get: "subs_ok subs \<Longrightarrow> map_of subs e = Some l \<Longrightarrow> l \<noteq> [] \<and> distinct l"
  unfolding subs_ok_def by blast

lemma Domain_subs_rel: "subs_ok subs \<Longrightarrow> Domain (subs_rel subs) = set (keys subs)"
proof -
  assume ok: "subs_ok subs"
  have "e \<in> Domain (subs_rel subs) \<longleftrightarrow> map_of subs e \<noteq> None" for e
    using subs_ok_get [OF ok, of e] by (cases "map_of subs e") (auto simp: subs_rel_def get_or_def neq_Nil_conv)
  then show ?thesis by (auto simp: map_of_eq_None_iff)
qed

lemma after_calls_append [simp]: "after_calls (as @ bs) S = after_calls bs (after_calls as S)"
  by (simp add: after_calls_def)

lemma calls_ok_append [simp]: "calls_ok c (as @ bs) S \<longleftrightarrow> calls_ok c as S \<and> calls_ok c bs (after_calls as S)"
  by (induction as arbitrary: S) (auto simp: after_calls_def)

lemma after_calls_unsubscribe:
  "after_calls (map (Unsubscribe_call c) es) S = S - set es"
  by (induction es arbitrary: S) (auto simp: after_calls_def)

lemma calls_ok_unsubscribe:
  "distinct es \<Longrightarrow> set es \<subseteq> S \<Longrightarrow> calls_ok c (map (Unsubscribe_call c) es) S"
proof (induction es arbitrary: S)
  case Nil
  then show ?case by simp
next
  case (Cons a es)
  then have "set es \<subseteq> S - {a}" by auto
  with Cons show ?case by simp
qed

lemma subscribe_in_effect:
  assumes "subs_ok subs" and "subscribe_in (Some c) ep e subs = (subs', calls)"
  shows "subs_ok subs'" and "subs_rel subs' = insert (e, ep) (subs_rel subs)"
    and "calls_ok c calls (Domain (subs_rel subs))" and "after_calls calls (Domain (subs_rel subs)) = Domain (subs_rel subs')"
proof -
  let ?old = "get_or [] e subs"
  let ?new = "if ep \<notin> set ?old then ?old @ [ep] else ?old"
  have subs': "subs' = AList.update e ?new subs"
    and calls: "calls = (if ep \<notin> set ?old \<and> length ?new = 1 then [Subscribe_call c e] else [])"
    using assms(2) by (auto simp: subscribe_in_def Let_def)
  have old: "distinct ?old" using subs_ok_get [OF assms(1), of e] by (auto simp: get_or_def split: option.splits)
  show ok: "subs_ok subs'" using assms(1) old by (auto simp: subs_ok_def subs' update_conv' get_or_def split: if_splits)
  show rel: "subs_rel subs' = insert (e, ep) (subs_rel subs)"
    unfolding subs_rel_def subs' by (auto simp: get_or_def update_conv' split: if_splits)
  have "?old = [] \<longleftrightarrow> e \<notin> Domain (subs_rel subs)" by (auto simp: subs_rel_def neq_Nil_conv)
  moreover have "ep \<notin> set ?old \<and> length ?new = 1 \<longleftrightarrow> ?old = []" by (cases ?old) auto
  ultimately have calls': "calls = (if e \<notin> Domain (subs_rel subs) then [Subscribe_call c e] else [])"
    using calls by simp
  show "calls_ok c calls (Domain (subs_rel subs))" by (simp add: calls')
  show "after_calls calls (Domain (subs_rel subs)) = Domain (subs_rel subs')"
    by (auto simp: calls' rel after_calls_def)
qed

lemma unsubscribe_in_effect:
  assumes "subs_ok subs" and "unsubscribe_in (Some c) ep e subs = (subs', calls)"
  shows "subs_ok subs'" and "subs_rel subs' = subs_rel subs - {(e, ep)}"
    and "calls_ok c calls (Domain (subs_rel subs))" and "after_calls calls (Domain (subs_rel subs)) = Domain (subs_rel subs')"
proof -
  note D = Domain_subs_rel [OF assms(1)]
  have d: "distinct (keys subs)" using assms(1) by (simp add: subs_ok_def)
  consider (none) "map_of subs e = None" "subs' = subs" "calls = []"
    | (some) old where "map_of subs e = Some old" "removeAll ep old \<noteq> []"
        "subs' = AList.update e (removeAll ep old) subs" "calls = []"
    | (last) old where "map_of subs e = Some old" "removeAll ep old = []"
        "subs' = AList.delete e subs" "calls = [Unsubscribe_call c e]"
    using assms(2) by (auto simp: unsubscribe_in_def Let_def split: option.splits if_splits)
  then have "subs_ok subs' \<and> subs_rel subs' = subs_rel subs - {(e, ep)} \<and> calls_ok c calls (Domain (subs_rel subs))
    \<and> after_calls calls (Domain (subs_rel subs)) = Domain (subs_rel subs')"
  proof cases
    case none
    then show ?thesis using assms(1) by (auto simp: subs_rel_def get_or_def after_calls_def)
  next
    case (some old)
    have ok: "subs_ok subs'" using assms(1) some subs_ok_get [OF assms(1) some(1)]
      by (auto simp: subs_ok_def update_conv' distinct_removeAll)
    have rel: "subs_rel subs' = subs_rel subs - {(e, ep)}"
      unfolding subs_rel_def some(3) using some(1) by (auto simp: get_or_def update_conv' split: if_splits)
    have "e \<in> set (keys subs)" using some(1) map_of_eq_None_iff [of subs e] by auto
    then have "Domain (subs_rel subs') = Domain (subs_rel subs)"
      unfolding D Domain_subs_rel [OF ok] by (simp add: some(3) insert_absorb dom_update)
    then show ?thesis using ok rel some(4) by (simp add: after_calls_def)
  next
    case (last old)
    have ok: "subs_ok subs'" using assms(1) last(3) by (auto simp: subs_ok_def delete_conv')
    have "set old \<subseteq> {ep}" using last(2) by (auto simp: removeAll_filter_not_eq filter_empty_conv)
    then have rel: "subs_rel subs' = subs_rel subs - {(e, ep)}"
      unfolding subs_rel_def last(3) using last(1) by (auto simp: get_or_def delete_conv' split: if_splits)
    have "e \<in> set (keys subs)" using last(1) map_of_eq_None_iff [of subs e] by auto
    moreover have "Domain (subs_rel subs') = Domain (subs_rel subs) - {e}"
      unfolding D Domain_subs_rel [OF ok] by (simp add: last(3) delete_keys)
    ultimately show ?thesis using ok rel last(4) D by (simp add: after_calls_def)
  qed
  then show "subs_ok subs'" and "subs_rel subs' = subs_rel subs - {(e, ep)}"
    and "calls_ok c calls (Domain (subs_rel subs))" and "after_calls calls (Domain (subs_rel subs)) = Domain (subs_rel subs')"
    by simp_all
qed

lemma prune_effect:
  assumes "subs_ok subs" and "prune_subscriptions keep (Some c) subs = (subs', calls)"
  shows "subs_ok subs'" and "subs_rel subs' = {(e, ep) \<in> subs_rel subs. keep ep}"
    and "calls_ok c calls (Domain (subs_rel subs))" and "after_calls calls (Domain (subs_rel subs)) = Domain (subs_rel subs')"
proof -
  have d: "distinct (keys subs)" using assms(1) by (simp add: subs_ok_def)
  let ?gone = "filter (\<lambda>e. filter keep (snd e) = []) subs"
  have subs': "subs' = keep_vals (\<lambda>s. s \<noteq> []) (map_vals (filter keep) subs)"
    and calls: "calls = map (Unsubscribe_call c) (keys ?gone)"
    using assms(2) by (auto simp: prune_subscriptions_def o_def)
  have map: "map_of subs' e = (case map_of subs e of None \<Rightarrow> None | Some l \<Rightarrow> if filter keep l = [] then None else Some (filter keep l))" for e
    using d by (simp add: subs' map_of_keep_vals map_of_map_vals split: option.splits)
  show ok: "subs_ok subs'" unfolding subs_ok_def
    using d subs_ok_get [OF assms(1)] by (auto simp: map split: option.splits if_splits) (simp add: subs')
  show rel: "subs_rel subs' = {(e, ep) \<in> subs_rel subs. keep ep}"
  proof -
    have "get_or [] e subs' = filter keep (get_or [] e subs)" for e
      by (simp add: get_or_def map split: option.splits)
    then show ?thesis by (auto simp: subs_rel_def)
  qed
  have gone: "set (keys ?gone) = {e. \<exists>l. map_of subs e = Some l \<and> filter keep l = []}"
    using d by force
  have dg: "distinct (keys ?gone)" using d by (simp add: distinct_map_filter)
  have sub: "set (keys ?gone) \<subseteq> Domain (subs_rel subs)" unfolding Domain_subs_rel [OF assms(1)] by auto
  show "calls_ok c calls (Domain (subs_rel subs))" unfolding calls by (rule calls_ok_unsubscribe [OF dg sub])
  have "e \<in> set (keys subs') \<longleftrightarrow> e \<in> set (keys subs) \<and> e \<notin> set (keys ?gone)" for e
    using map [of e] map_of_eq_None_iff [of subs' e] map_of_eq_None_iff [of subs e]
    unfolding gone by (auto split: option.splits if_splits)
  then show "after_calls calls (Domain (subs_rel subs)) = Domain (subs_rel subs')"
    unfolding calls after_calls_unsubscribe Domain_subs_rel [OF assms(1)] Domain_subs_rel [OF ok] by auto
qed

lemma subscription_op_effect:
  assumes "subs_ok subs" and "run_subscription_op (Some c) p subs = (subs', calls)"
  shows "subs_ok subs' \<and> subs_rel subs' = spec_subscription_op p (subs_rel subs)
    \<and> calls_ok c calls (Domain (subs_rel subs)) \<and> after_calls calls (Domain (subs_rel subs)) = Domain (subs_rel subs')"
  using assms(2) subscribe_in_effect [OF assms(1)] unsubscribe_in_effect [OF assms(1)] prune_effect [OF assms(1)]
  by (cases p) auto

text \<open>C13. Subscription bookkeeping refines the relation of subscribers. For every sequence of peer
  subscriptions, unsubscriptions, and removals of clients or connections of a service whose
  client connector exists, the stored tables hold exactly the subscribed pairs, and the calls
  on the connector subscribe an event when its first peer subscribes and unsubscribe it when
  its last peer leaves, never redundantly: the connector is subscribed to exactly the events
  that have a subscriber.\<close>

theorem subscriptions_refine_relation:
  assumes "subs_ok subs" and "run_subscription_ops (Some c) ps subs = (subs', calls)"
  shows "subs_ok subs' \<and> subs_rel subs' = foldl (\<lambda>R p. spec_subscription_op p R) (subs_rel subs) ps
    \<and> calls_ok c calls (Domain (subs_rel subs)) \<and> after_calls calls (Domain (subs_rel subs)) = Domain (subs_rel subs')"
  using assms
proof (induction ps arbitrary: subs calls)
  case Nil
  then show ?case by (simp add: after_calls_def)
next
  case (Cons p ps)
  obtain s1 c1 where 1: "run_subscription_op (Some c) p subs = (s1, c1)" by force
  obtain c2 where 2: "run_subscription_ops (Some c) ps s1 = (subs', c2)" and calls: "calls = c1 @ c2"
    using Cons.prems(2) 1 by (auto simp: Let_def split: prod.splits)
  note e1 = subscription_op_effect [OF Cons.prems(1) 1]
  with Cons.IH [OF _ 2] show ?case by (simp add: calls)
qed

theorem subscriptions_refine_relation_witness:
  "run_subscription_ops (Some 9)
     [Op_subscribe \<lparr>ep_client_id = 1, ep_provided_id = 4\<rparr> 3, Op_subscribe \<lparr>ep_client_id = 2, ep_provided_id = 5\<rparr> 3,
      Op_remove_client 1, Op_unsubscribe \<lparr>ep_client_id = 2, ep_provided_id = 5\<rparr> 3] []
   = ([], [Subscribe_call 9 3, Unsubscribe_call 9 3])
   \<and> calls_ok 9 [Subscribe_call 9 3, Unsubscribe_call 9 3] {}"
proof -
  have run: "run_subscription_ops (Some 9)
     [Op_subscribe \<lparr>ep_client_id = 1, ep_provided_id = 4\<rparr> 3, Op_subscribe \<lparr>ep_client_id = 2, ep_provided_id = 5\<rparr> 3,
      Op_remove_client 1, Op_unsubscribe \<lparr>ep_client_id = 2, ep_provided_id = 5\<rparr> 3] []
   = ([], [Subscribe_call 9 3, Unsubscribe_call 9 3])"
    by (simp add: subscribe_in_def unsubscribe_in_def prune_subscriptions_def get_or_def keep_vals_def map_vals_def)
  show ?thesis using run subscriptions_refine_relation [OF _ run] by (simp add: subs_ok_def subs_rel_def get_or_def)
qed

end
