(* ===== verification/Binding_Base.thy ===== *)
theory Binding_Base
  imports Service_State
begin

text \<open>
  The message handlers of the IPC binding (\<^verbatim>\<open>impl/binding_base.hpp\<close>, \<^verbatim>\<open>impl/binding_base.cpp\<close>),
  shared by the server and the client side.

  All handlers run under one recursive mutex, so each of them is a function on the state
  \<open>Binding\<close>; what they do to the outside is appended to \<open>b_log\<close>. The transport's verdict on a
  message and the shared memory of the operating system are the parameter \<open>env\<close>. The SOCom
  runtime is code behind an interface that calls back into the binding: where a handler
  calls it, an extra argument says what the runtime does during that call, namely the
  callbacks it makes and the connector it returns. The theorems hold for every such answer.

  The SOCom callbacks registered by the handlers are functions of their own:
  \<open>send_event_update\<close>, \<open>service_state_change\<close>, \<open>event_payload_allocate\<close>,
  \<open>on_event_subscription_change\<close> and \<open>on_payload_destruction\<close>.
\<close>

record env =
  e_shm_create :: shm_create
  e_shm_allocate :: shm_allocate
  e_shm_open :: shm_open
  e_send_ok :: send_ok

datatype effect =
    Sent channel message
  | Called connector_call
  | Destroyed_client_connector connector
  | Destroyed_server_connector connector
  | Updated_event connector Event_id payload
  | Ran_callback destroy_callback

record Binding =
  b_keys :: Keys
  b_connections :: Connections
  b_slot_managers :: Shared_memory_managers
  b_ro_managers :: Read_only_memory_managers
  b_states :: Service_states
  b_id_mapping :: Connection_metadata
  b_local_offers :: "(Key_t, bool) assoc"
  b_pending :: Pending_connects
  b_interested :: "(Key_t, Client_id list) assoc"
  b_next_local_id :: Remote_handle
  b_log :: "effect list"

definition Binding_init :: "Shared_memory_configuration \<Rightarrow> Binding" where
  "Binding_init cfg =
    \<lparr>b_keys = Keys_init, b_connections = [],
     b_slot_managers = \<lparr>sm_configuration = cfg, sm_slot_managers = [], sm_allocations = []\<rparr>,
     b_ro_managers = \<lparr>ro_managers = []\<rparr>, b_states = [], b_id_mapping = Connection_metadata_init,
     b_local_offers = [], b_pending = [], b_interested = [], b_next_local_id = 1, b_log = []\<rparr>"

definition emit :: "effect list \<Rightarrow> Binding \<Rightarrow> Binding" where
  "emit es b = b\<lparr>b_log := b_log b @ es\<rparr>"

definition conn_send :: "env \<Rightarrow> channel \<Rightarrow> message \<Rightarrow> Binding \<Rightarrow> bool \<times> Binding" where
  "conn_send env ch msg b = (is_Ok (channel_send (e_send_ok env) ch msg), emit [Sent ch msg] b)"

definition destroyed :: "(connector \<Rightarrow> effect) \<Rightarrow> connector option \<Rightarrow> effect list" where
  "destroyed mk c = (case c of None \<Rightarrow> [] | Some x \<Rightarrow> [mk x])"

subsection \<open>Helpers of the handlers\<close>

definition binding_key :: "Service \<Rightarrow> Instance_id \<Rightarrow> Binding \<Rightarrow> Key_t \<times> Binding" where
  "binding_key s i b = (let (k, ks) = keys_get (s, i) (b_keys b) in (k, b\<lparr>b_keys := ks\<rparr>))"

definition binding_metadata :: "env \<Rightarrow> Key_t \<Rightarrow> Binding \<Rightarrow> (Shared_memory_metadata \<times> Binding) run" where
  "binding_metadata env key b =
    and_then (get_shared_memory_metadata (e_shm_create env) (e_shm_allocate env) (b_keys b) key (b_slot_managers b))
      (\<lambda>(md, sms). Ok (md, b\<lparr>b_slot_managers := sms\<rparr>))"

definition send_offer_service_to_client ::
    "env \<Rightarrow> channel \<Rightarrow> Service \<Rightarrow> Instance_id \<Rightarrow> bool \<Rightarrow> Binding \<Rightarrow> Binding" where
  "send_offer_service_to_client env ch s i off b = snd (conn_send env ch (Offer_service s i off) b)"

definition send_request_service_locked :: "env \<Rightarrow> Service \<Rightarrow> Instance_id \<Rightarrow> bool \<Rightarrow> Binding \<Rightarrow> bool \<times> Binding" where
  "send_request_service_locked env s i in_use b =
    (let (key, b1) = binding_key s i b in
     if has_client_connector key (b_states b1) then (False, b1)
     else (True, emit (map (\<lambda>(ch, m). Sent ch m) (snd (send_to_all (e_send_ok env) (Request_service s i in_use) (b_connections b1)))) b1))"

definition connect_send_func :: "env \<Rightarrow> Key_t \<Rightarrow> Binding send_func" where
  "connect_send_func env key client handle msg b =
    (case get_reply_channel client (b_connections b) of
       None \<Rightarrow> Err Assert_failed
     | Some ch \<Rightarrow> Ok (conn_send env ch msg
         (b\<lparr>b_pending := pending_emplace handle \<lparr>pc_key = key, pc_client_id = client\<rparr> (b_pending b)\<rparr>)))"

text \<open>\<^verbatim>\<open>Service_state&\<close> is the entry of the state table under \<open>key\<close>.\<close>

definition maybe_send_connect_service_locked :: "env \<Rightarrow> Key_t \<Rightarrow> Binding \<Rightarrow> Binding run" where
  "maybe_send_connect_service_locked env key b =
    (case states_get key (b_states b) of
       None \<Rightarrow> Err Null_deref
     | Some st \<Rightarrow>
         and_then (send_connect_service (e_shm_create env) (e_shm_allocate env) (connect_send_func env key) st
             \<lparr>cw_next_local_id = b_next_local_id b, cw_keys = b_keys b, cw_slot_managers = b_slot_managers b, cw_world = b\<rparr>)
           (\<lambda>(st', cw). let b' = cw_world cw in
             Ok (b'\<lparr>b_next_local_id := cw_next_local_id cw, b_keys := cw_keys cw, b_slot_managers := cw_slot_managers cw,
                   b_states := AList.update key st' (b_states b')\<rparr>)))"

definition clear_pending_connects_for_key_locked :: "Key_t \<Rightarrow> Client_id \<Rightarrow> Binding \<Rightarrow> Binding" where
  "clear_pending_connects_for_key_locked key client b =
    b\<lparr>b_pending := clear_pending_connects (\<lambda>v. pc_key v = key \<and> pc_client_id v = client) (b_pending b)\<rparr>"

text \<open>\<^verbatim>\<open>std::set\<close> of clients as a sorted list; an entry whose set becomes empty is erased.\<close>

definition forget_interest :: "Client_id \<Rightarrow> (Key_t, Client_id list) assoc \<Rightarrow> (Key_t, Client_id list) assoc" where
  "forget_interest client ip = keep_vals (\<lambda>cs. cs \<noteq> []) (map_vals (removeAll client) ip)"

definition remove_client_state_locked :: "Client_id \<Rightarrow> Binding \<Rightarrow> connector list \<times> Binding" where
  "remove_client_state_locked client b =
    (let (sts, calls) = remove_event_subscriptions_for_client client (b_states b);
         (removed, sts') = remove_offers client sts in
     (removed, emit (map Called calls)
        (b\<lparr>b_states := sts',
           b_interested := forget_interest client (b_interested b),
           b_id_mapping := cm_remove_client client (b_id_mapping b),
           b_pending := clear_pending_connects (\<lambda>v. pc_client_id v = client) (b_pending b)\<rparr>)))"

subsection \<open>Clients\<close>

definition register_shared_memory_configurations :: "Service_shared_memory_config list \<Rightarrow> Binding \<Rightarrow> Binding" where
  "register_shared_memory_configurations configs b =
    b\<lparr>b_slot_managers := sms_register_configuration configs (b_slot_managers b)\<rparr>"

definition add_client :: "Client_id \<Rightarrow> channel \<Rightarrow> Binding \<Rightarrow> Binding run" where
  "add_client client ch b =
    and_then (connections_add_client client ch (b_connections b)) (\<lambda>t. Ok (b\<lparr>b_connections := t\<rparr>))"

definition remove_client :: "Client_id \<Rightarrow> Binding \<Rightarrow> Binding" where
  "remove_client client b =
    (let b1 = b\<lparr>b_connections := connections_remove_client client (b_connections b)\<rparr>;
         (removed, b2) = remove_client_state_locked client b1 in
     emit (map Destroyed_server_connector removed) b2)"

definition binding_destroy :: "Binding \<Rightarrow> Binding" where
  "binding_destroy b =
    (let (released, sts) = release_client_connectors (b_states b) in
     emit (map Destroyed_client_connector released) (b\<lparr>b_states := sts\<rparr>))"

end
