(* ===== verification/Binding_Handlers.thy ===== *)
theory Binding_Handlers
  imports Binding_Base
begin

text \<open>
  The SOCom callbacks and the message handlers of the binding, one definition per function
  or callback of \<^verbatim>\<open>impl/binding_base.cpp\<close>, and the dispatch of received bytes.

  A message other than \<^verbatim>\<open>Connect\<close>, whose contents the binding does not use, is read into its
  contents when it is dispatched; a length word that leaves its container is the fault
  \<open>Out_of_bounds\<close> at that point. The two calls into the runtime that
  make connectors take the runtime's behaviour during the call as an argument, see
  \<^verbatim>\<open>runtime_callback\<close>.
\<close>

datatype runtime_callback =
    On_service_state_change Key_t bool Service_counts
  | On_event_update Key_t Event_id payload
  | On_payload_allocate Key_t
  | On_request_service Service Instance_id Service_counts bool

subsection \<open>Callbacks of the client connectors\<close>

definition send_event_to ::
    "env \<Rightarrow> Event_id \<Rightarrow> payload \<Rightarrow> Client_id \<times> Ids \<Rightarrow> size_t \<times> Binding \<Rightarrow> (size_t \<times> Binding) run" where
  "send_event_to env event p c cb =
    (case get_reply_channel (fst c) (b_connections (snd cb)) of
       None \<Rightarrow> Err Assert_failed
     | Some ch \<Rightarrow> and_then (payload_data p) (\<lambda>d.
         let (sent, b') = conn_send env ch
               (Event_update (remote_handle (snd c)) event \<lparr>slot_index = get_slot_handle p, used_bytes = span_size d\<rparr>) (snd cb)
         in Ok (if sent then fst cb + 1 else fst cb, b')))"

definition send_event_update :: "env \<Rightarrow> Key_t \<Rightarrow> Event_id \<Rightarrow> payload \<Rightarrow> Binding \<Rightarrow> Binding run" where
  "send_event_update env key event p b =
    and_then (fold_run (send_event_to env event p) (for_each_client key (b_id_mapping b)) (0, b)) (\<lambda>(recipients, b1).
    and_then (insert_allocation key p recipients (b_slot_managers b1)) (\<lambda>(cbs, sms).
      Ok (emit (map Ran_callback cbs) (b1\<lparr>b_slot_managers := sms\<rparr>))))"

definition send_offer_to_peer ::
    "env \<Rightarrow> Service \<Rightarrow> Instance_id \<Rightarrow> bool \<Rightarrow> Client_id \<Rightarrow> Binding \<Rightarrow> Binding run" where
  "send_offer_to_peer env s i off client b =
    (case get_reply_channel client (b_connections b) of
       None \<Rightarrow> Err Assert_failed
     | Some ch \<Rightarrow> Ok (send_offer_service_to_client env ch s i off b))"

definition service_state_change :: "env \<Rightarrow> Key_t \<Rightarrow> bool \<Rightarrow> Service_counts \<Rightarrow> Binding \<Rightarrow> Binding run" where
  "service_state_change env key available counts b =
    (let b1 = (if available then b else b\<lparr>b_id_mapping := remove_service key (b_id_mapping b)\<rparr>);
         b2 = b1\<lparr>b_local_offers := AList.update key available (b_local_offers b1)\<rparr> in
     case keys_find (b_keys b2) key of
       None \<Rightarrow> Err Assert_failed
     | Some (s, i) \<Rightarrow>
         let peers = get_or [] key (b_interested b2);
             b3 = b2\<lparr>b_states := add_service key s i counts (b_states b2),
                     b_interested := AList.update key peers (b_interested b2)\<rparr>
         in fold_run (send_offer_to_peer env s i available) peers b3)"

definition event_payload_allocate ::
    "env \<Rightarrow> Key_t \<Rightarrow> Binding \<Rightarrow> ((Shared_memory_manager_error, payload) result \<times> Binding) run" where
  "event_payload_allocate env key b =
    and_then (get_shared_memory_slot_manager (e_shm_create env) (e_shm_allocate env) (b_keys b) key (b_slot_managers b)) (\<lambda>(m, sms).
      (case allocate_slot key m of
         (Err e, m') \<Rightarrow> Ok (Err e, b\<lparr>b_slot_managers := sms\<rparr>)
       | (Ok g, m') \<Rightarrow> and_then (make_shared_memory_writable_payload g m') (\<lambda>p.
           Ok (Ok p, b\<lparr>b_slot_managers := sms\<lparr>sm_slot_managers := AList.update key m' (sm_slot_managers sms)\<rparr>\<rparr>))))"

subsection \<open>Requests of the local runtime\<close>

definition send_request_service ::
    "env \<Rightarrow> Service \<Rightarrow> Instance_id \<Rightarrow> Service_counts \<Rightarrow> bool \<Rightarrow> Binding \<Rightarrow> Binding run" where
  "send_request_service env s i counts in_use b =
    and_then (make_service s) (\<lambda>_. and_then (make_instance_id i) (\<lambda>_.
      let (proceed, b1) = send_request_service_locked env s i in_use b in
      if \<not> proceed then Ok b1
      else let (key, b2) = binding_key s i b1;
               (present, removed, removed_client, sts) = process_request_service key counts s i in_use (b_states b2);
               b3 = b2\<lparr>b_states := sts\<rparr> in
        if \<not> present
        then Ok (emit (destroyed Destroyed_client_connector removed_client @ destroyed Destroyed_server_connector removed)
               (b3\<lparr>b_id_mapping := remove_service key (b_id_mapping b3),
                   b_pending := clear_pending_connects_for_key key (b_pending b3)\<rparr>))
        else maybe_send_connect_service_locked env key b3))"

fun run_runtime_callback :: "env \<Rightarrow> runtime_callback \<Rightarrow> Binding \<Rightarrow> Binding run" where
  "run_runtime_callback env (On_service_state_change key av counts) b = service_state_change env key av counts b"
| "run_runtime_callback env (On_event_update key event p) b = send_event_update env key event p b"
| "run_runtime_callback env (On_payload_allocate key) b =
    and_then (event_payload_allocate env key b) (\<lambda>(r, b'). Ok b')"
| "run_runtime_callback env (On_request_service s i counts in_use) b = send_request_service env s i counts in_use b"

subsection \<open>Message handlers\<close>

definition resend_request :: "env \<Rightarrow> channel \<Rightarrow> Key_t \<times> Service_state \<Rightarrow> Binding \<Rightarrow> Binding run" where
  "resend_request env ch e b =
    (if \<not> requested (snd e) then Ok b
     else and_then (make_service (ss_service (snd e))) (\<lambda>_. and_then (make_instance_id (ss_instance (snd e))) (\<lambda>_.
       Ok (snd (conn_send env ch (Request_service (ss_service (snd e)) (ss_instance (snd e)) True) b)))))"

definition handle_connect_message :: "env \<Rightarrow> channel \<Rightarrow> Binding \<Rightarrow> Binding run" where
  "handle_connect_message env ch b =
    (let b1 = snd (conn_send env ch (Connect_reply True) b) in
     fold_run (resend_request env ch) (b_states b1) b1)"

definition reply_to_state :: "env \<Rightarrow> Key_t \<Rightarrow> Binding \<Rightarrow> Binding run" where
  "reply_to_state env key b =
    (case states_get key (b_states b) of
       None \<Rightarrow> Err Null_deref
     | Some st \<Rightarrow>
         and_then (if requested st
                   then and_then (make_service (ss_service st)) (\<lambda>_. and_then (make_instance_id (ss_instance st)) (\<lambda>_.
                     Ok (snd (send_request_service_locked env (ss_service st) (ss_instance st) True b))))
                   else Ok b)
           (maybe_send_connect_service_locked env key))"

definition handle_connect_reply_message :: "env \<Rightarrow> bool \<Rightarrow> Binding \<Rightarrow> Binding run" where
  "handle_connect_reply_message env status b =
    (if status then fold_run (reply_to_state env) (keys (b_states b)) b else Ok b)"

definition withdraw_request :: "Client_id \<Rightarrow> Key_t \<Rightarrow> Binding \<Rightarrow> Binding" where
  "withdraw_request client key b =
    (let (sts, calls) = remove_event_subscriptions_for_client client (b_states b);
         b1 = emit (map Called calls)
                (b\<lparr>b_states := sts,
                   b_id_mapping := remove_mapping_for_client_and_key client key (b_id_mapping b)\<rparr>);
         b2 = clear_pending_connects_for_key_locked key client b1 in
     b2\<lparr>b_interested := AList.update key (removeAll client (get_or [] key (b_interested b2))) (b_interested b2)\<rparr>)"

definition handle_request_service_message ::
    "env \<Rightarrow> runtime_callback list \<times> connector option \<Rightarrow> Client_id \<Rightarrow> channel \<Rightarrow> Service \<Rightarrow> Instance_id \<Rightarrow> bool
      \<Rightarrow> Binding \<Rightarrow> Binding run" where
  "handle_request_service_message env reply client ch s i in_use b =
    (let (key, b1) = binding_key s i b in
     if \<not> in_use then Ok (withdraw_request client key b1)
     else let b2 = b1\<lparr>b_interested := AList.update key (insort_insert client (get_or [] key (b_interested b1))) (b_interested b1)\<rparr> in
       if map_of (b_local_offers b2) key = Some True then Ok (send_offer_service_to_client env ch s i True b2)
       else if has_client_connector key (b_states b2) then Ok b2
       else if has_connector key (b_states b2) then Ok b2
       else if (case states_get key (b_states b2) of None \<Rightarrow> False | Some st \<Rightarrow> requested st) then Ok b2
       else let b3 = b2\<lparr>b_states := mark_client_connector_pending key s i (b_states b2)\<rparr> in
         and_then (fold_run (run_runtime_callback env) (fst reply) b3) (\<lambda>b4.
           (case snd reply of
              Some c \<Rightarrow> and_then (add_client_connector key c (b_states b4)) (\<lambda>(old, sts).
                Ok (emit (destroyed Destroyed_client_connector old) (b4\<lparr>b_states := sts\<rparr>)))
            | None \<Rightarrow> Ok (b4\<lparr>b_states := clear_client_connector_pending key (b_states b4)\<rparr>))))"

definition handle_offer_service_message ::
    "env \<Rightarrow> Client_id \<Rightarrow> Service \<Rightarrow> Instance_id \<Rightarrow> bool \<Rightarrow> Binding \<Rightarrow> Binding run" where
  "handle_offer_service_message env client s i off b =
    (let (key, b1) = binding_key s i b;
         (removed, sts) = process_offer key client s i off (b_states b1);
         b2 = b1\<lparr>b_states := sts\<rparr> in
     if \<not> off
     then Ok (emit (destroyed Destroyed_server_connector removed)
            (clear_pending_connects_for_key_locked key client
              (b2\<lparr>b_states := clear_event_subscriptions key (b_states b2),
                  b_id_mapping := remove_service key (b_id_mapping b2)\<rparr>)))
     else maybe_send_connect_service_locked env key b2)"

definition handle_subscribe_event_message ::
    "Client_id \<Rightarrow> Remote_handle \<Rightarrow> Event_id \<Rightarrow> bool \<Rightarrow> Binding \<Rightarrow> Binding" where
  "handle_subscribe_event_message client provided event subscribe b =
    (case get_by_local_handle client provided (b_id_mapping b) of
       None \<Rightarrow> b
     | Some ids \<Rightarrow>
         let (sts, calls) = update_event_subscription (ids_key ids) \<lparr>ep_client_id = client, ep_provided_id = provided\<rparr>
               event subscribe (b_states b)
         in emit (map Called calls) (b\<lparr>b_states := sts\<rparr>))"

definition handle_event_update_message ::
    "env \<Rightarrow> bool \<Rightarrow> Client_id \<Rightarrow> Remote_handle \<Rightarrow> Event_id \<Rightarrow> Shared_memory_handle \<Rightarrow> Binding \<Rightarrow> Binding run" where
  "handle_event_update_message env update_result client required event h b =
    (case get_by_remote_handle client required (b_id_mapping b) of
       None \<Rightarrow> Ok b
     | Some ids \<Rightarrow>
        (case Option.bind (states_get (ids_key ids) (b_states b)) enabled_connector of
           None \<Rightarrow> Err Assert_failed
         | Some c \<Rightarrow>
             and_then (get_read_only_shared_memory_slot_manager (e_shm_open env) (remote_metadata ids) (b_ro_managers b)) (\<lambda>(ro, ros).
               (case ro_get_payload h ro of
                  None \<Rightarrow> Err Assert_failed
                | Some (sp, slot) \<Rightarrow> assert_run update_result
                    (Ok (emit [Updated_event c event (make_payload sp slot (Notify_consumed client required h) 0 0)]
                      (b\<lparr>b_ro_managers := ros\<rparr>)))))))"

definition on_payload_destruction ::
    "env \<Rightarrow> Client_id \<Rightarrow> Remote_handle \<Rightarrow> Shared_memory_handle \<Rightarrow> Binding \<Rightarrow> Binding" where
  "on_payload_destruction env client required h b =
    (case get_reply_channel client (b_connections b) of
       None \<Rightarrow> b
     | Some ch \<Rightarrow> snd (conn_send env ch (Payload_consumed required h) b))"

definition handle_payload_consumed_message ::
    "Client_id \<Rightarrow> Remote_handle \<Rightarrow> Shared_memory_handle \<Rightarrow> Binding \<Rightarrow> Binding" where
  "handle_payload_consumed_message client required h b =
    (case get_by_remote_handle client required (b_id_mapping b) of
       None \<Rightarrow> b
     | Some ids \<Rightarrow> let (cbs, sms) = payload_consumed (ids_key ids) h (b_slot_managers b) in
         emit (map Ran_callback cbs) (b\<lparr>b_slot_managers := sms\<rparr>))"

definition disconnect_service :: "Client_id \<Rightarrow> Key_t \<Rightarrow> Remote_handle \<Rightarrow> Binding \<Rightarrow> Binding" where
  "disconnect_service client key required b =
    (let (sts, calls) = (case get_by_remote_handle client required (b_id_mapping b) of
             None \<Rightarrow> (b_states b, [])
           | Some ids \<Rightarrow> remove_event_subscriptions_for_connection key client (local_handle ids) (b_states b));
         b1 = emit (map Called calls)
                (b\<lparr>b_states := sts, b_id_mapping := remove_mapping client required (b_id_mapping b)\<rparr>);
         b2 = clear_pending_connects_for_key_locked key client b1;
         (removed, sts') = remove_client_connector key (b_states b2) in
     emit (destroyed Destroyed_client_connector removed) (b2\<lparr>b_states := sts'\<rparr>))"

definition handle_connect_service_message ::
    "env \<Rightarrow> Client_id \<Rightarrow> channel \<Rightarrow> Service \<Rightarrow> Instance_id \<Rightarrow> Remote_handle \<Rightarrow> Shared_memory_metadata \<Rightarrow> bool
      \<Rightarrow> Binding \<Rightarrow> Binding run" where
  "handle_connect_service_message env client ch s i required md in_use b =
    (let (key, b1) = binding_key s i b in
     if \<not> in_use then Ok (disconnect_service client key required b1)
     else let (local, nxt) = get_next_id (b_next_local_id b1); b2 = b1\<lparr>b_next_local_id := nxt\<rparr> in
       and_then (binding_metadata env key b2) (\<lambda>(local_md, b3).
       let info = \<lparr>ids_key = key, local_handle = local, remote_handle = required,
                   local_metadata = local_md, remote_metadata = md\<rparr> in
       and_then (add_mapping client info (b_id_mapping b3)) (\<lambda>cm.
         let b4 = b3\<lparr>b_id_mapping := cm\<rparr> in
         (case states_get key (b_states b4) of
            None \<Rightarrow> Err Assert_failed
          | Some st \<Rightarrow> Ok (snd (conn_send env ch
              (Connect_service_reply required local local_md (num_methods (ss_counts st)) (num_events (ss_counts st))) b4))))))"

text \<open>
  The handler of \<^verbatim>\<open>Connect_service_reply\<close> releases the mutex between recording the connection
  and making the server connector. The first part returns the key whose state the second
  part accesses through a pointer.
\<close>

definition connect_service_reply_locked ::
    "env \<Rightarrow> Client_id \<Rightarrow> Remote_handle \<Rightarrow> Remote_handle \<Rightarrow> Shared_memory_metadata \<Rightarrow> Binding
      \<Rightarrow> (Key_t option \<times> Binding) run" where
  "connect_service_reply_locked env client required provided md b =
    (case pending_find required (b_pending b) of
       None \<Rightarrow> Ok (None, b)
     | Some pend \<Rightarrow>
         if pc_client_id pend \<noteq> client then Ok (None, b)
         else (case states_get (pc_key pend) (b_states b) of
             None \<Rightarrow> Ok (None, b\<lparr>b_pending := pending_erase required (b_pending b)\<rparr>)
           | Some st \<Rightarrow>
               and_then (binding_metadata env (pc_key pend) b) (\<lambda>(local_md, b1).
               and_then (add_mapping client \<lparr>ids_key = pc_key pend, local_handle = provided, remote_handle = required,
                                             local_metadata = local_md, remote_metadata = md\<rparr> (b_id_mapping b1)) (\<lambda>cm.
                 Ok (Some (pc_key pend), b1\<lparr>b_id_mapping := cm, b_pending := pending_erase required (b_pending b1)\<rparr>)))))"

definition on_event_subscription_change ::
    "env \<Rightarrow> Client_id \<Rightarrow> Remote_handle \<Rightarrow> Event_id \<Rightarrow> bool \<Rightarrow> Binding \<Rightarrow> Binding" where
  "on_event_subscription_change env client provided event subscribed b =
    (case get_reply_channel client (b_connections b) of
       None \<Rightarrow> b
     | Some ch \<Rightarrow> snd (conn_send env ch (Subscribe_event provided event subscribed) b))"

text \<open>The runtime's answer: the connector, or \<open>None\<close> if it cannot be made, and the subscription
  changes it reports while the connector is being enabled.\<close>

definition connect_service_reply_connector ::
    "env \<Rightarrow> connector option \<times> (Event_id \<times> bool) list \<Rightarrow> Client_id \<Rightarrow> Remote_handle \<Rightarrow> Key_t \<Rightarrow> Binding \<Rightarrow> Binding run" where
  "connect_service_reply_connector env reply client provided key b =
    (case states_get key (b_states b) of
       None \<Rightarrow> Err Null_deref
     | Some st \<Rightarrow>
        (case fst reply of
           None \<Rightarrow> Err Assert_failed
         | Some c \<Rightarrow>
             let b1 = foldl (\<lambda>b' (event, subscribed). on_event_subscription_change env client provided event subscribed b') b (snd reply);
                 (old, sts) = add_server_connector key c (b_states b1) in
             Ok (emit (destroyed Destroyed_server_connector old) (b1\<lparr>b_states := sts\<rparr>))))"

definition handle_connect_service_reply_message ::
    "env \<Rightarrow> connector option \<times> (Event_id \<times> bool) list \<Rightarrow> Client_id \<Rightarrow> Remote_handle \<Rightarrow> Remote_handle
      \<Rightarrow> Shared_memory_metadata \<Rightarrow> Binding \<Rightarrow> Binding run" where
  "handle_connect_service_reply_message env reply client required provided md b =
    and_then (connect_service_reply_locked env client required provided md b) (\<lambda>(key, b1).
      (case key of None \<Rightarrow> Ok b1 | Some k \<Rightarrow> connect_service_reply_connector env reply client provided k b1))"

subsection \<open>Dispatch\<close>

record runtime_answer =
  ra_client :: "runtime_callback list \<times> connector option"
  ra_server :: "connector option \<times> (Event_id \<times> bool) list"
  ra_update :: bool

fun handle_message :: "env \<Rightarrow> runtime_answer \<Rightarrow> Client_id \<Rightarrow> channel \<Rightarrow> message \<Rightarrow> Binding \<Rightarrow> Binding run" where
  "handle_message env ra client ch (Connect els cfgs ident) b = handle_connect_message env ch b"
| "handle_message env ra client ch (Connect_reply status) b = handle_connect_reply_message env status b"
| "handle_message env ra client ch (Connect_service s i required md in_use) b =
    handle_connect_service_message env client ch s i required md in_use b"
| "handle_message env ra client ch (Connect_service_reply required provided md nm ne) b =
    handle_connect_service_reply_message env (ra_server ra) client required provided md b"
| "handle_message env ra client ch (Request_service s i in_use) b =
    handle_request_service_message env (ra_client ra) client ch s i in_use b"
| "handle_message env ra client ch (Offer_service s i off) b = handle_offer_service_message env client s i off b"
| "handle_message env ra client ch (Subscribe_event provided event subscribe) b =
    Ok (handle_subscribe_event_message client provided event subscribe b)"
| "handle_message env ra client ch (Event_update required event h) b =
    handle_event_update_message env (ra_update ra) client required event h b"
| "handle_message env ra client ch (Payload_consumed required h) b =
    Ok (handle_payload_consumed_message client required h b)"
| "handle_message env ra client ch (Event_update_request provided event) b = Err Assert_failed"

definition dispatched_types :: "Message_type list" where
  "dispatched_types =
    [MT_Connect, MT_Connect_reply, MT_Connect_service, MT_Connect_service_reply, MT_Request_service,
     MT_Offer_service, MT_Subscribe_event, MT_Event_update, MT_Payload_consumed]"

definition on_receive_message ::
    "env \<Rightarrow> runtime_answer \<Rightarrow> Client_id \<Rightarrow> channel \<Rightarrow> nat \<Rightarrow> u8 list \<Rightarrow> Binding \<Rightarrow> Binding run" where
  "on_receive_message env ra client ch address data b =
    (if data = [] then Ok b
     else case get_message_type (hd data) of
       None \<Rightarrow> Err Assert_failed
     | Some t \<Rightarrow>
         if t \<notin> set dispatched_types then Err Assert_failed
         else (case check_and_cast t address data of
             None \<Rightarrow> Ok b
           | Some v \<Rightarrow> if t = MT_Connect then handle_connect_message env ch b
             else (case read_message t v of
               None \<Rightarrow> Err Assert_failed
             | Some r \<Rightarrow> and_then r (\<lambda>msg. handle_message env ra client ch msg b))))"

end
