(* ===== verification/Binding_Invariant.thy ===== *)
theory Binding_Invariant
  imports Binding_Handlers
begin

text \<open>
  The invariant of the binding: the tables are well formed, and every client that occurs
  anywhere in them has a reply channel. One lemma per table operation, one per handler, and
  a summary over all executions.
\<close>

named_theorems table_ok "preservation of the table invariants by the table operations"

definition state_ok :: "Client_id set \<Rightarrow> Service_state \<Rightarrow> bool" where
  "state_ok C st \<longleftrightarrow> set (keys (offers st)) \<subseteq> C \<and> distinct (keys (offers st)) \<and> subs_ok (event_subscriptions st)
     \<and> (\<forall>e ep. (e, ep) \<in> subs_rel (event_subscriptions st) \<longrightarrow> ep_client_id ep \<in> C)"

definition states_ok :: "Client_id set \<Rightarrow> Service_states \<Rightarrow> bool" where
  "states_ok C sts \<longleftrightarrow> distinct (keys sts) \<and> (\<forall>k st. map_of sts k = Some st \<longrightarrow> state_ok C st)"

definition mapping_ok :: "Client_id set \<Rightarrow> Connection_metadata \<Rightarrow> bool" where
  "mapping_ok C cm \<longleftrightarrow> cm_inv cm \<and> (\<forall>c ids. ids \<in> set (conns cm c) \<longrightarrow> c \<in> C)"

definition pending_ok :: "Client_id set \<Rightarrow> Pending_connects \<Rightarrow> bool" where
  "pending_ok C pend \<longleftrightarrow> distinct (keys pend) \<and> (\<forall>h v. pending_find h pend = Some v \<longrightarrow> pc_client_id v \<in> C)"

definition interest_ok :: "Client_id set \<Rightarrow> (Key_t, Client_id list) assoc \<Rightarrow> bool" where
  "interest_ok C ip \<longleftrightarrow> distinct (keys ip) \<and> (\<forall>k. set (get_or [] k ip) \<subseteq> C)"

definition connected :: "Connections \<Rightarrow> Client_id set" where
  "connected tab = set (keys tab)"

definition binding_ok :: "Connections \<Rightarrow> Binding \<Rightarrow> bool" where
  "binding_ok T b \<longleftrightarrow> b_connections b = T \<and> distinct (keys T)
     \<and> states_ok (connected T) (b_states b) \<and> mapping_ok (connected T) (b_id_mapping b)
     \<and> pending_ok (connected T) (b_pending b) \<and> interest_ok (connected T) (b_interested b)"

subsection \<open>Tables\<close>

lemma state_ok_new [table_ok]: "state_ok C (new_service_state s i)"
  by (auto simp: state_ok_def new_service_state_def subs_ok_def subs_rel_def get_or_def)

lemma states_ok_update [table_ok]: "states_ok C sts \<Longrightarrow> state_ok C st \<Longrightarrow> states_ok C (AList.update k st sts)"
  by (simp add: states_ok_def update_conv')

lemma states_ok_delete [table_ok]: "states_ok C sts \<Longrightarrow> states_ok C (AList.delete k sts)"
  by (simp add: states_ok_def delete_conv')

lemma states_ok_get: "states_ok C sts \<Longrightarrow> map_of sts k = Some st \<Longrightarrow> state_ok C st"
  by (auto simp: states_ok_def)

lemma states_ok_states_get: "states_ok C sts \<Longrightarrow> states_get k sts = Some st \<Longrightarrow> state_ok C st"
  unfolding states_get_def by (rule states_ok_get)

lemma state_ok_get_or_create [table_ok]: "states_ok C sts \<Longrightarrow> state_ok C (get_or_create k s i sts)"
  using states_ok_get by (auto simp: get_or_create_def get_or_def state_ok_new split: option.splits)

lemma states_ok_map_vals:
  "states_ok C sts \<Longrightarrow> (\<And>st. state_ok C st \<Longrightarrow> state_ok D (f st)) \<Longrightarrow> states_ok D (map_vals f sts)"
  by (auto simp: states_ok_def map_of_map_vals)

lemma state_ok_frame [simp]:
  "state_ok C (st\<lparr>ss_counts := c\<rparr>) = state_ok C st"
  "state_ok C (st\<lparr>requested := r\<rparr>) = state_ok C st"
  "state_ok C (st\<lparr>client_connector := cc\<rparr>) = state_ok C st"
  "state_ok C (st\<lparr>client_connector_pending := p\<rparr>) = state_ok C st"
  "state_ok C (st\<lparr>enabled_connector := e\<rparr>) = state_ok C st"
  by (simp_all add: state_ok_def)

lemma state_ok_offers_update [table_ok]:
  "state_ok C st \<Longrightarrow> c \<in> C \<Longrightarrow> state_ok C (st\<lparr>offers := AList.update c o' (offers st)\<rparr>)"
  by (simp add: state_ok_def dom_update)

lemma state_ok_offers_delete [table_ok]:
  "state_ok C st \<Longrightarrow> state_ok C (st\<lparr>offers := AList.delete c (offers st)\<rparr>)"
  using set_keys_delete [of c "offers st"] distinct_AList_delete [of "offers st" c] by (auto simp: state_ok_def)

lemma state_ok_clear_subs [table_ok]: "state_ok C st \<Longrightarrow> state_ok C (st\<lparr>event_subscriptions := []\<rparr>)"
  by (auto simp: state_ok_def subs_ok_def subs_rel_def get_or_def)

text \<open>The tables do not depend on whether the connector exists.\<close>

lemma subscription_tables_connector:
  "fst (subscribe_in c ep e subs) = fst (subscribe_in (Some d) ep e subs)"
  "fst (unsubscribe_in c ep e subs) = fst (unsubscribe_in (Some d) ep e subs)"
  "fst (prune_subscriptions keep c subs) = fst (prune_subscriptions keep (Some d) subs)"
  by (auto simp: subscribe_in_def unsubscribe_in_def prune_subscriptions_def Let_def split: option.splits)

lemma state_ok_prune:
  assumes "state_ok C st" and "\<And>ep. keep ep \<Longrightarrow> ep_client_id ep \<in> C \<Longrightarrow> ep_client_id ep \<in> D"
    and "set (keys (offers st)) \<subseteq> D"
  shows "state_ok D (st\<lparr>event_subscriptions := fst (prune_subscriptions keep c (event_subscriptions st))\<rparr>)"
proof -
  have ok: "subs_ok (event_subscriptions st)" using assms(1) by (simp add: state_ok_def)
  obtain subs calls where p: "prune_subscriptions keep (Some 0) (event_subscriptions st) = (subs, calls)" by force
  note e = prune_effect [OF ok p]
  have "fst (prune_subscriptions keep c (event_subscriptions st)) = subs"
    using subscription_tables_connector(3) [of keep c _ 0] p by simp
  then show ?thesis using assms e(1,2) by (auto simp: state_ok_def)
qed

lemma state_ok_subscribe [table_ok]:
  assumes "state_ok C st" and "ep_client_id ep \<in> C"
  shows "state_ok C (st\<lparr>event_subscriptions := fst (subscribe_in c ep e (event_subscriptions st))\<rparr>)"
proof -
  have ok: "subs_ok (event_subscriptions st)" using assms(1) by (simp add: state_ok_def)
  obtain subs calls where p: "subscribe_in (Some 0) ep e (event_subscriptions st) = (subs, calls)" by force
  have "fst (subscribe_in c ep e (event_subscriptions st)) = subs"
    using subscription_tables_connector(1) [of c ep e _ 0] p by simp
  then show ?thesis using assms subscribe_in_effect(1,2) [OF ok p] by (auto simp: state_ok_def)
qed

lemma state_ok_unsubscribe [table_ok]:
  assumes "state_ok C st"
  shows "state_ok C (st\<lparr>event_subscriptions := fst (unsubscribe_in c ep e (event_subscriptions st))\<rparr>)"
proof -
  have ok: "subs_ok (event_subscriptions st)" using assms(1) by (simp add: state_ok_def)
  obtain subs calls where p: "unsubscribe_in (Some 0) ep e (event_subscriptions st) = (subs, calls)" by force
  have "fst (unsubscribe_in c ep e (event_subscriptions st)) = subs"
    using subscription_tables_connector(2) [of c ep e _ 0] p by simp
  then show ?thesis using assms unsubscribe_in_effect(1,2) [OF ok p] by (auto simp: state_ok_def)
qed

lemma states_ok_add_service [table_ok]: "states_ok C sts \<Longrightarrow> states_ok C (add_service k s i n sts)"
  by (simp add: add_service_def table_ok)

lemma states_ok_process_offer [table_ok]:
  "states_ok C sts \<Longrightarrow> c \<in> C \<Longrightarrow> states_ok C (snd (process_offer k c s i off sts))"
  by (simp add: process_offer_def Let_def table_ok)

lemma states_ok_process_request [table_ok]:
  "states_ok C sts \<Longrightarrow> states_ok C (snd (snd (snd (process_request_service k n s i u sts))))"
  by (simp add: process_request_service_def Let_def table_ok)

lemma states_ok_connectors [table_ok]:
  assumes "states_ok C sts"
  shows "states_ok C (snd (add_server_connector k c sts))"
    and "states_ok C (mark_client_connector_pending k s i sts)"
    and "states_ok C (clear_client_connector_pending k sts)"
    and "states_ok C (snd (remove_client_connector k sts))"
    and "states_ok C (clear_event_subscriptions k sts)"
  using assms states_ok_states_get [OF assms]
  by (auto simp: add_server_connector_def mark_client_connector_pending_def clear_client_connector_pending_def
      remove_client_connector_def clear_event_subscriptions_def table_ok split: option.splits)

lemma states_ok_add_client_connector [table_ok]:
  "states_ok C sts \<Longrightarrow> add_client_connector k c sts = Ok (old, sts') \<Longrightarrow> states_ok C sts'"
  using states_ok_states_get by (auto simp: add_client_connector_def intro!: states_ok_update split: option.splits)

lemma states_ok_update_event_subscription [table_ok]:
  assumes "states_ok C sts" and "ep_client_id ep \<in> C"
  shows "states_ok C (fst (update_event_subscription k ep e sub sts))"
  using assms states_ok_states_get [OF assms(1)]
  by (auto simp: update_event_subscription_def Let_def case_prod_unfold table_ok split: option.splits)

lemma states_ok_remove_connection_subs [table_ok]:
  assumes "states_ok C sts"
  shows "states_ok C (fst (remove_event_subscriptions_for_connection k c p sts))"
proof (cases "states_get k sts")
  case None
  then show ?thesis using assms by (simp add: remove_event_subscriptions_for_connection_def)
next
  case (Some st)
  have "state_ok C st" by (rule states_ok_states_get [OF assms Some])
  then have "state_ok C (fst (remove_event_subscription \<lparr>ep_client_id = c, ep_provided_id = p\<rparr> (client_connector st) st))"
    unfolding remove_event_subscription_def Let_def case_prod_unfold fst_conv
    by (intro state_ok_prune [of C]) (auto simp: state_ok_def)
  then show ?thesis using Some assms
    by (simp add: remove_event_subscriptions_for_connection_def Let_def case_prod_unfold table_ok)
qed

lemma states_ok_remove_client_subs [table_ok]:
  assumes "states_ok C sts"
  shows "states_ok C (fst (remove_event_subscriptions_for_client c sts))"
  unfolding remove_event_subscriptions_for_client_def fst_conv
proof (rule states_ok_map_vals [OF assms])
  fix st assume "state_ok C st"
  then show "state_ok C (fst (remove_event_subscriptions c (client_connector st) st))"
    unfolding remove_event_subscriptions_def Let_def case_prod_unfold fst_conv
    by (intro state_ok_prune [of C]) (auto simp: state_ok_def)
qed

lemma mapping_ok_removals [table_ok]:
  assumes "mapping_ok C cm"
  shows "mapping_ok C (remove_service k cm)"
    and "mapping_ok C (remove_mapping_for_client_and_key c k cm)"
    and "mapping_ok C (remove_mapping c h cm)"
  using assms
  by (auto simp: mapping_ok_def cm_inv_remove_service conns_remove_service cm_inv_erase_ids conns_erase_ids
      remove_mapping_for_client_and_key_def remove_mapping_def split: if_splits)

lemma mapping_ok_add [table_ok]:
  "mapping_ok C cm \<Longrightarrow> c \<in> C \<Longrightarrow> add_mapping c ids cm = Ok cm' \<Longrightarrow> mapping_ok C cm'"
  using cm_inv_add_mapping [of cm c ids cm'] add_mapping_effect [of c ids cm cm']
  by (auto simp: mapping_ok_def split: if_splits)

lemma pending_ok_ops [table_ok]:
  assumes "pending_ok C pend"
  shows "pending_ok C (clear_pending_connects P pend)"
    and "pending_ok C (clear_pending_connects_for_key k pend)"
    and "pending_ok C (pending_erase h pend)"
  using assms
  by (auto simp: pending_ok_def pending_find_clear clear_pending_connects_for_key_def pending_find_erase
      split: option.splits if_splits) (simp add: pending_erase_def)

lemma pending_ok_emplace [table_ok]:
  "pending_ok C pend \<Longrightarrow> pc_client_id v \<in> C \<Longrightarrow> pending_ok C (pending_emplace h v pend)"
  by (auto simp: pending_ok_def pending_find_emplace distinct_pending_emplace)

lemma interest_ok_update [table_ok]:
  "interest_ok C ip \<Longrightarrow> set cs \<subseteq> C \<Longrightarrow> interest_ok C (AList.update k cs ip)"
  by (simp add: interest_ok_def) (metis get_or_update get_or_update_other)

lemma interest_ok_get: "interest_ok C ip \<Longrightarrow> set (get_or [] k ip) \<subseteq> C"
  unfolding interest_ok_def by blast

subsection \<open>Handlers\<close>

lemma binding_ok_frame [simp]:
  "binding_ok T (b\<lparr>b_log := l\<rparr>) = binding_ok T b"
  "binding_ok T (b\<lparr>b_keys := ks\<rparr>) = binding_ok T b"
  "binding_ok T (b\<lparr>b_slot_managers := sms\<rparr>) = binding_ok T b"
  "binding_ok T (b\<lparr>b_ro_managers := ros\<rparr>) = binding_ok T b"
  "binding_ok T (b\<lparr>b_local_offers := lo\<rparr>) = binding_ok T b"
  "binding_ok T (b\<lparr>b_next_local_id := n\<rparr>) = binding_ok T b"
  "binding_ok T (emit es b) = binding_ok T b"
  by (simp_all add: binding_ok_def emit_def)

lemma emit_fields [simp]:
  "b_keys (emit es b) = b_keys b" "b_connections (emit es b) = b_connections b"
  "b_slot_managers (emit es b) = b_slot_managers b" "b_ro_managers (emit es b) = b_ro_managers b"
  "b_states (emit es b) = b_states b" "b_id_mapping (emit es b) = b_id_mapping b"
  "b_local_offers (emit es b) = b_local_offers b" "b_pending (emit es b) = b_pending b"
  "b_interested (emit es b) = b_interested b" "b_next_local_id (emit es b) = b_next_local_id b"
  by (simp_all add: emit_def)

lemma binding_ok_states [simp]:
  "binding_ok T b \<Longrightarrow> binding_ok T (b\<lparr>b_states := sts\<rparr>) \<longleftrightarrow> states_ok (connected T) sts"
  "binding_ok T b \<Longrightarrow> binding_ok T (b\<lparr>b_id_mapping := cm\<rparr>) \<longleftrightarrow> mapping_ok (connected T) cm"
  "binding_ok T b \<Longrightarrow> binding_ok T (b\<lparr>b_pending := p\<rparr>) \<longleftrightarrow> pending_ok (connected T) p"
  "binding_ok T b \<Longrightarrow> binding_ok T (b\<lparr>b_interested := ip\<rparr>) \<longleftrightarrow> interest_ok (connected T) ip"
  by (auto simp: binding_ok_def)

lemma binding_okD:
  assumes "binding_ok T b"
  shows "b_connections b = T" and "states_ok (connected T) (b_states b)"
    and "mapping_ok (connected T) (b_id_mapping b)" and "pending_ok (connected T) (b_pending b)"
    and "interest_ok (connected T) (b_interested b)" and "distinct (keys T)"
  using assms by (simp_all add: binding_ok_def)

lemma binding_okI:
  assumes "b_connections b = T" and "distinct (keys T)" and "states_ok (connected T) (b_states b)"
    and "mapping_ok (connected T) (b_id_mapping b)" and "pending_ok (connected T) (b_pending b)"
    and "interest_ok (connected T) (b_interested b)"
  shows "binding_ok T b"
  using assms by (simp add: binding_ok_def)

lemma binding_ok_key [simp]: "binding_ok T (snd (binding_key s i b)) = binding_ok T b"
  by (simp add: binding_key_def case_prod_unfold Let_def)

lemma binding_ok_conn_send [simp]: "binding_ok T (snd (conn_send env ch m b)) = binding_ok T b"
  by (simp add: conn_send_def)

lemma binding_ok_send_offer [simp]: "binding_ok T (send_offer_service_to_client env ch s i off b) = binding_ok T b"
  by (simp add: send_offer_service_to_client_def)

lemma binding_ok_request_locked [simp]:
  "binding_ok T (snd (send_request_service_locked env s i u b)) = binding_ok T b"
  using binding_ok_key [of T s i b]
  by (simp add: send_request_service_locked_def case_prod_unfold Let_def del: binding_ok_key)

lemma binding_ok_metadata:
  "binding_metadata env k b = Ok (md, b') \<Longrightarrow> binding_ok T b' = binding_ok T b"
  by (auto simp: binding_metadata_def elim!: and_then_OkE)

lemma connected_channel: "c \<in> connected T \<Longrightarrow> \<exists>ch. get_reply_channel c T = Some ch"
  by (auto simp: connected_def get_reply_channel_def) (metis fst_conv imageI map_of_eq_None_iff not_None_eq)

lemma channel_connected: "get_reply_channel c T = Some ch \<Longrightarrow> c \<in> connected T"
  by (auto simp: connected_def get_reply_channel_def dest!: map_of_SomeD intro: rev_image_eqI)

lemma connect_send_func_ok:
  assumes "connect_send_func env key c h m b = Ok (r, b')" and "binding_ok T b"
  shows "binding_ok T b'"
proof -
  obtain ch where ch: "get_reply_channel c (b_connections b) = Some ch"
    and b': "b' = snd (conn_send env ch m (b\<lparr>b_pending := pending_emplace h \<lparr>pc_key = key, pc_client_id = c\<rparr> (b_pending b)\<rparr>))"
    using assms(1) by (auto simp: connect_send_func_def split: option.splits)
  have "c \<in> connected T" using ch binding_okD(1) [OF assms(2)] channel_connected by simp
  then show ?thesis using assms(2) binding_okD(4) [OF assms(2)] by (simp add: b' pending_ok_emplace)
qed

lemma send_connect_offer_ok:
  assumes "send_connect_offer shm_c shm_a (connect_send_func env key) s i c off cw = Ok (off', cw')"
    and "binding_ok T (cw_world cw)"
  shows "binding_ok T (cw_world cw')"
  using assms
  by (auto simp: send_connect_offer_def Let_def case_prod_unfold split: if_splits elim!: and_then_OkE
      dest: connect_send_func_ok)

lemma send_connect_service_ok:
  assumes "send_connect_service shm_c shm_a (connect_send_func env key) st cw = Ok (st', cw')"
    and "binding_ok T (cw_world cw)" and "state_ok (connected T) st"
  shows "binding_ok T (cw_world cw') \<and> state_ok (connected T) st'"
proof (cases "requested st")
  case False
  then show ?thesis using assms by (simp add: send_connect_service_def)
next
  case True
  let ?body = "\<lambda>(client, offer) (st', cw').
            and_then (send_connect_offer shm_c shm_a (connect_send_func env key) (ss_service st) (ss_instance st) client offer cw') (\<lambda>(offer', cw'').
              Ok (st'\<lparr>offers := AList.update client offer' (offers st')\<rparr>, cw''))"
  have run: "fold_run ?body (offers st) (st, cw) = Ok (st', cw')"
    using assms(1) True by (simp add: send_connect_service_def)
  have "(\<lambda>(st', cw'). binding_ok T (cw_world cw') \<and> state_ok (connected T) st') (st', cw')"
  proof (rule fold_run_invariant [OF _ _ run])
    fix x s s'
    assume x: "x \<in> set (offers st)" and I: "case s of (st', cw') \<Rightarrow> binding_ok T (cw_world cw') \<and> state_ok (connected T) st'"
      and step: "?body x s = Ok s'"
    have "fst x \<in> connected T" using x assms(3) by (auto simp: state_ok_def)
    then show "case s' of (st', cw') \<Rightarrow> binding_ok T (cw_world cw') \<and> state_ok (connected T) st'"
      using I step by (auto simp: case_prod_unfold elim!: and_then_OkE intro: send_connect_offer_ok state_ok_offers_update)
  qed (use assms in simp)
  then show ?thesis by simp
qed

lemma maybe_send_connect_ok:
  assumes "maybe_send_connect_service_locked env key b = Ok b'" and "binding_ok T b"
  shows "binding_ok T b'"
proof -
  obtain st where st: "states_get key (b_states b) = Some st"
    using assms(1) by (auto simp: maybe_send_connect_service_locked_def split: option.splits)
  let ?cw = "\<lparr>cw_next_local_id = b_next_local_id b, cw_keys = b_keys b, cw_slot_managers = b_slot_managers b, cw_world = b\<rparr>"
  obtain st' cw where r: "send_connect_service (e_shm_create env) (e_shm_allocate env) (connect_send_func env key) st ?cw = Ok (st', cw)"
    and b': "b' = (cw_world cw)\<lparr>b_next_local_id := cw_next_local_id cw, b_keys := cw_keys cw, b_slot_managers := cw_slot_managers cw,
        b_states := AList.update key st' (b_states (cw_world cw))\<rparr>"
    using assms(1) st by (auto simp: maybe_send_connect_service_locked_def Let_def elim!: and_then_OkE)
  have "state_ok (connected T) st" by (rule states_ok_states_get [OF binding_okD(2) [OF assms(2)] st])
  then have ok: "binding_ok T (cw_world cw)" "state_ok (connected T) st'"
    using send_connect_service_ok [OF r] assms(2) by simp_all
  then have "states_ok (connected T) (AList.update key st' (b_states (cw_world cw)))"
    by (intro states_ok_update binding_okD(2))
  then show ?thesis using ok by (simp add: b')
qed

lemma send_event_update_ok:
  assumes "send_event_update env key event p b = Ok b'" and "binding_ok T b"
  shows "binding_ok T b'"
proof -
  obtain n b1 cbs sms where
    r: "fold_run (send_event_to env event p) (for_each_client key (b_id_mapping b)) (0, b) = Ok (n, b1)"
    and b': "b' = emit (map Ran_callback cbs) (b1\<lparr>b_slot_managers := sms\<rparr>)"
    using assms(1) by (auto simp: send_event_update_def elim!: and_then_OkE)
  have "(\<lambda>s. binding_ok T (snd s)) (n, b1)"
    by (rule fold_run_invariant [OF _ _ r])
      (use assms(2) in \<open>auto simp: send_event_to_def conn_send_def Let_def split: option.splits elim!: and_then_OkE\<close>)
  then show ?thesis by (simp add: b')
qed

lemma service_state_change_ok:
  assumes "service_state_change env key av n b = Ok b'" and "binding_ok T b"
  shows "binding_ok T b'"
proof -
  let ?b1 = "if av then b else b\<lparr>b_id_mapping := remove_service key (b_id_mapping b)\<rparr>"
  let ?b2 = "?b1\<lparr>b_local_offers := AList.update key av (b_local_offers ?b1)\<rparr>"
  have ok2: "binding_ok T ?b2" using assms(2) binding_okD(3) [OF assms(2)] by (simp add: table_ok)
  obtain s i where "keys_find (b_keys ?b2) key = Some (s, i)"
    using assms(1) by (auto simp: service_state_change_def Let_def split: option.splits)
  then have r: "fold_run (send_offer_to_peer env s i av) (get_or [] key (b_interested ?b2))
      (?b2\<lparr>b_states := add_service key s i n (b_states ?b2), b_interested := AList.update key (get_or [] key (b_interested ?b2)) (b_interested ?b2)\<rparr>) = Ok b'"
    using assms(1) by (simp add: service_state_change_def Let_def)
  show ?thesis
  proof (rule fold_run_invariant [where I = "binding_ok T", OF _ _ r])
    show "binding_ok T (?b2\<lparr>b_states := add_service key s i n (b_states ?b2),
        b_interested := AList.update key (get_or [] key (b_interested ?b2)) (b_interested ?b2)\<rparr>)"
      using binding_okD [OF ok2] by (intro binding_okI) (simp_all add: table_ok interest_ok_get del: if_split)
  qed (auto simp: send_offer_to_peer_def split: option.splits)
qed

lemma event_payload_allocate_ok:
  "event_payload_allocate env key b = Ok (r, b') \<Longrightarrow> binding_ok T b' = binding_ok T b"
  by (auto simp: event_payload_allocate_def split: sum.splits prod.splits elim!: and_then_OkE)

lemma send_request_service_ok:
  assumes "send_request_service env s i n u b = Ok b'" and "binding_ok T b"
  shows "binding_ok T b'"
proof -
  obtain go b1 where l: "send_request_service_locked env s i u b = (go, b1)" by force
  have ok1: "binding_ok T b1" using binding_ok_request_locked [of T env s i u b] l assms(2) by simp
  obtain key b2 where k: "binding_key s i b1 = (key, b2)" by force
  have ok2: "binding_ok T b2" using binding_ok_key [of T s i b1] k ok1 by simp
  obtain present removed rc sts where p: "process_request_service key n s i u (b_states b2) = (present, removed, rc, sts)"
    by (metis prod_cases4)
  have sts: "states_ok (connected T) sts"
    using states_ok_process_request [OF binding_okD(2) [OF ok2], of key n s i u] p by simp
  consider "\<not> go" "b' = b1"
    | "go" "\<not> present" "b' = emit (destroyed Destroyed_client_connector rc @ destroyed Destroyed_server_connector removed)
               (b2\<lparr>b_states := sts, b_id_mapping := remove_service key (b_id_mapping b2),
                   b_pending := clear_pending_connects_for_key key (b_pending b2)\<rparr>)"
    | "maybe_send_connect_service_locked env key (b2\<lparr>b_states := sts\<rparr>) = Ok b'"
    using assms(1) l k p by (auto simp: send_request_service_def Let_def split: if_splits elim!: and_then_OkE)
  then show ?thesis
  proof cases
    case 1
    then show ?thesis using ok1 by simp
  next
    case 2
    show ?thesis unfolding 2(3) binding_ok_frame
      using binding_okD [OF ok2] sts by (intro binding_okI) (simp_all add: table_ok)
  next
    case 3
    then show ?thesis using ok2 sts by (intro maybe_send_connect_ok [OF 3]) simp
  qed
qed

lemma run_runtime_callback_ok:
  "run_runtime_callback env cb b = Ok b' \<Longrightarrow> binding_ok T b \<Longrightarrow> binding_ok T b'"
  by (cases cb) (auto intro: service_state_change_ok send_event_update_ok send_request_service_ok
      elim!: and_then_OkE simp: event_payload_allocate_ok)

lemma handle_connect_ok:
  assumes "handle_connect_message env ch b = Ok b'" and "binding_ok T b"
  shows "binding_ok T b'"
proof -
  let ?b = "snd (conn_send env ch (Connect_reply True) b)"
  have r: "fold_run (resend_request env ch) (b_states ?b) ?b = Ok b'"
    using assms(1) by (simp add: handle_connect_message_def Let_def)
  show ?thesis
    by (rule fold_run_invariant [where I = "binding_ok T", OF _ _ r])
      (use assms(2) in \<open>auto simp: resend_request_def split: if_splits elim!: and_then_OkE\<close>)
qed

lemma handle_connect_reply_ok:
  assumes "handle_connect_reply_message env st b = Ok b'" and "binding_ok T b"
  shows "binding_ok T b'"
proof (cases st)
  case False
  then show ?thesis using assms by (simp add: handle_connect_reply_message_def)
next
  case True
  then have r: "fold_run (reply_to_state env) (keys (b_states b)) b = Ok b'"
    using assms(1) by (simp add: handle_connect_reply_message_def)
  show ?thesis
  proof (rule fold_run_invariant [where I = "binding_ok T", OF _ _ r])
    fix x s s' assume "binding_ok T s" "reply_to_state env x s = Ok s'"
    then show "binding_ok T s'"
      by (auto simp: reply_to_state_def split: option.splits if_splits elim!: and_then_OkE intro: maybe_send_connect_ok)
  qed (rule assms(2))
qed

lemma withdraw_request_ok: "binding_ok T b \<Longrightarrow> binding_ok T (withdraw_request c k b)"
proof -
  assume ok: "binding_ok T b"
  note d = binding_okD [OF ok]
  show ?thesis
    unfolding withdraw_request_def clear_pending_connects_for_key_locked_def Let_def case_prod_unfold
    using d interest_ok_get [OF d(5), of k] by (intro binding_okI) (auto simp: table_ok intro!: interest_ok_update)
qed

lemma binding_key_ok: "binding_key s i b = (k, b') \<Longrightarrow> binding_ok T b \<Longrightarrow> binding_ok T b'"
  using binding_ok_key [of T s i b] by simp

lemma fold_callbacks_ok:
  "fold_run (run_runtime_callback env) cbs b = Ok b' \<Longrightarrow> binding_ok T b \<Longrightarrow> binding_ok T b'"
  by (rule fold_run_invariant [where I = "binding_ok T"]) (auto intro: run_runtime_callback_ok)

lemma handle_request_service_ok:
  assumes "handle_request_service_message env reply c ch s i u b = Ok b'" and "binding_ok T b" and "c \<in> connected T"
  shows "binding_ok T b'"
proof -
  obtain key b1 where k: "binding_key s i b = (key, b1)" by force
  have ok1: "binding_ok T b1" by (rule binding_key_ok [OF k assms(2)])
  let ?b2 = "b1\<lparr>b_interested := AList.update key (insort_insert c (get_or [] key (b_interested b1))) (b_interested b1)\<rparr>"
  have ok2: "binding_ok T ?b2"
    using ok1 binding_okD(5) [OF ok1] interest_ok_get [OF binding_okD(5) [OF ok1], of key] assms(3)
    by (simp add: interest_ok_update set_insort_insert)
  let ?b3 = "?b2\<lparr>b_states := mark_client_connector_pending key s i (b_states ?b2)\<rparr>"
  have ok3: "binding_ok T ?b3" using ok2 binding_okD(2) [OF ok2] by (simp add: states_ok_connectors)
  consider "b' = withdraw_request c key b1" | "b' = send_offer_service_to_client env ch s i True ?b2" | "b' = ?b2"
    | b4 where "fold_run (run_runtime_callback env) (fst reply) ?b3 = Ok b4" "snd reply = None"
        "b' = b4\<lparr>b_states := clear_client_connector_pending key (b_states b4)\<rparr>"
    | b4 x old sts where "fold_run (run_runtime_callback env) (fst reply) ?b3 = Ok b4"
        "add_client_connector key x (b_states b4) = Ok (old, sts)"
        "b' = emit (destroyed Destroyed_client_connector old) (b4\<lparr>b_states := sts\<rparr>)"
    using assms(1) k
    by (auto simp: handle_request_service_message_def Let_def split: if_splits option.splits elim!: and_then_OkE)
  then show ?thesis
  proof cases
    case 4
    then show ?thesis using fold_callbacks_ok [OF 4(1) ok3] by (auto simp: states_ok_connectors dest: binding_okD(2))
  next
    case 5
    have "binding_ok T b4" by (rule fold_callbacks_ok [OF 5(1) ok3])
    then show ?thesis using states_ok_add_client_connector [OF _ 5(2)] 5(3) by (auto dest: binding_okD(2))
  qed (use ok1 ok2 withdraw_request_ok in simp_all)
qed

lemma handle_offer_service_ok:
  assumes "handle_offer_service_message env c s i off b = Ok b'" and "binding_ok T b" and "c \<in> connected T"
  shows "binding_ok T b'"
proof -
  obtain key b1 where k: "binding_key s i b = (key, b1)" by force
  have ok1: "binding_ok T b1" by (rule binding_key_ok [OF k assms(2)])
  obtain rm sts where p: "process_offer key c s i off (b_states b1) = (rm, sts)" by force
  have sts: "states_ok (connected T) sts"
    using states_ok_process_offer [OF binding_okD(2) [OF ok1] assms(3), of key s i off] p by simp
  show ?thesis
  proof (cases off)
    case True
    then have "maybe_send_connect_service_locked env key (b1\<lparr>b_states := sts\<rparr>) = Ok b'"
      using assms(1) k p by (simp add: handle_offer_service_message_def Let_def)
    then show ?thesis by (rule maybe_send_connect_ok) (use ok1 sts in simp)
  next
    case False
    then have b': "b' = emit (destroyed Destroyed_server_connector rm)
        (b1\<lparr>b_states := clear_event_subscriptions key sts, b_id_mapping := remove_service key (b_id_mapping b1),
            b_pending := clear_pending_connects (\<lambda>v. pc_key v = key \<and> pc_client_id v = c) (b_pending b1)\<rparr>)"
      using assms(1) k p by (simp add: handle_offer_service_message_def Let_def clear_pending_connects_for_key_locked_def)
    show ?thesis unfolding b' binding_ok_frame
      using binding_okD [OF ok1] sts by (intro binding_okI) (simp_all add: table_ok)
  qed
qed

lemma mapped_client_connected:
  assumes "mapping_ok C cm"
  shows "get_by_local_handle c h cm = Some ids \<Longrightarrow> c \<in> C"
    and "get_by_remote_handle c h cm = Some ids \<Longrightarrow> c \<in> C"
proof -
  have m: "ids \<in> set (conns cm c) \<Longrightarrow> c \<in> C" for ids using assms unfolding mapping_ok_def by blast
  show "get_by_local_handle c h cm = Some ids \<Longrightarrow> c \<in> C"
    by (rule m [of ids]) (auto simp: get_by_local_handle_def find_Some_iff conns_def get_or_def split: option.splits)
  show "get_by_remote_handle c h cm = Some ids \<Longrightarrow> c \<in> C"
    by (rule m [of ids]) (auto simp: get_by_remote_handle_def find_Some_iff conns_def get_or_def split: option.splits)
qed

lemma handle_subscribe_event_ok:
  assumes "binding_ok T b"
  shows "binding_ok T (handle_subscribe_event_message c p e sub b)"
proof (cases "get_by_local_handle c p (b_id_mapping b)")
  case None
  then show ?thesis using assms by (simp add: handle_subscribe_event_message_def)
next
  case (Some ids)
  have "c \<in> connected T" using mapped_client_connected(1) [OF binding_okD(3) [OF assms] Some] .
  then show ?thesis using Some assms binding_okD(2) [OF assms]
    by (simp add: handle_subscribe_event_message_def case_prod_unfold Let_def states_ok_update_event_subscription)
qed

lemma handle_event_update_ok:
  "handle_event_update_message env r c q e h b = Ok b' \<Longrightarrow> binding_ok T b' = binding_ok T b"
  by (auto simp: handle_event_update_message_def assert_run_def split: option.splits if_splits elim!: and_then_OkE)

lemma handle_payload_consumed_ok [simp]:
  "binding_ok T (handle_payload_consumed_message c q h b) = binding_ok T b"
  by (simp add: handle_payload_consumed_message_def case_prod_unfold Let_def split: option.splits)

lemma client_notifications_ok [simp]:
  "binding_ok T (on_payload_destruction env c q h b) = binding_ok T b"
  "binding_ok T (on_event_subscription_change env c p e sub b) = binding_ok T b"
  by (simp_all add: on_payload_destruction_def on_event_subscription_change_def split: option.splits)

lemma disconnect_service_ok:
  assumes "binding_ok T b"
  shows "binding_ok T (disconnect_service c key q b)"
proof -
  note d = binding_okD [OF assms]
  show ?thesis
    unfolding disconnect_service_def clear_pending_connects_for_key_locked_def Let_def case_prod_unfold
    using d by (intro binding_okI) (auto simp: table_ok split: option.splits)
qed

lemma handle_connect_service_ok:
  assumes "handle_connect_service_message env c ch s i q md u b = Ok b'" and "binding_ok T b" and "c \<in> connected T"
  shows "binding_ok T b'"
proof -
  obtain key b1 where k: "binding_key s i b = (key, b1)" by force
  have ok1: "binding_ok T b1" by (rule binding_key_ok [OF k assms(2)])
  show ?thesis
  proof (cases u)
    case False
    then show ?thesis using assms(1) k disconnect_service_ok [OF ok1] by (auto simp: handle_connect_service_message_def)
  next
    case True
    then obtain l nxt lmd b3 cm m where
      md: "binding_metadata env key (b1\<lparr>b_next_local_id := nxt\<rparr>) = Ok (lmd, b3)"
      and add: "add_mapping c \<lparr>ids_key = key, local_handle = l, remote_handle = q, local_metadata = lmd, remote_metadata = md\<rparr>
          (b_id_mapping b3) = Ok cm"
      and b': "b' = snd (conn_send env ch m (b3\<lparr>b_id_mapping := cm\<rparr>))"
      using assms(1) k
      by (auto simp: handle_connect_service_message_def Let_def case_prod_unfold split: option.splits elim!: and_then_OkE)
    have ok3: "binding_ok T b3" using binding_ok_metadata [OF md, of T] ok1 by simp
    then show ?thesis using mapping_ok_add [OF binding_okD(3) [OF ok3] assms(3) add] by (simp add: b')
  qed
qed

lemma connect_service_reply_locked_ok:
  assumes "connect_service_reply_locked env c q p md b = Ok (r, b')" and "binding_ok T b"
  shows "binding_ok T b'"
proof (cases "pending_find q (b_pending b)")
  case None
  then show ?thesis using assms by (simp add: connect_service_reply_locked_def)
next
  case (Some pend)
  note d = binding_okD [OF assms(2)]
  have c: "pc_client_id pend \<in> connected T" using d(4) Some by (auto simp: pending_ok_def)
  consider "b' = b" | "b' = b\<lparr>b_pending := pending_erase q (b_pending b)\<rparr>"
    | lmd b1 cm ids where "binding_metadata env (pc_key pend) b = Ok (lmd, b1)" "pc_client_id pend = c"
        "add_mapping c ids (b_id_mapping b1) = Ok cm"
        "b' = b1\<lparr>b_id_mapping := cm, b_pending := pending_erase q (b_pending b1)\<rparr>"
    using assms(1) Some by (auto simp: connect_service_reply_locked_def split: if_splits option.splits elim!: and_then_OkE)
  then show ?thesis
  proof cases
    case 3
    have "binding_ok T b1" using binding_ok_metadata [OF 3(1), of T] assms(2) by simp
    note d1 = binding_okD [OF this]
    show ?thesis unfolding 3(4)
      using d1 c 3(2) mapping_ok_add [OF d1(3) _ 3(3)] by (intro binding_okI) (simp_all add: table_ok)
  qed (use assms(2) d(4) in \<open>simp_all add: table_ok\<close>)
qed

lemma connect_service_reply_connector_ok:
  assumes "connect_service_reply_connector env r c p key b = Ok b'" and "binding_ok T b"
  shows "binding_ok T b'"
proof -
  have fold: "binding_ok T (foldl (\<lambda>b' (e, sub). on_event_subscription_change env c p e sub b') b es)" for es
    using assms(2) by (induction es arbitrary: b) auto
  show ?thesis using assms(1) fold [of "snd r"] binding_okD(2) [OF fold [of "snd r"]]
    by (auto simp: connect_service_reply_connector_def Let_def case_prod_unfold states_ok_connectors split: option.splits)
qed

lemma handle_connect_service_reply_ok:
  assumes "handle_connect_service_reply_message env r c q p md b = Ok b'" and "binding_ok T b"
  shows "binding_ok T b'"
proof -
  obtain k b1 where l: "connect_service_reply_locked env c q p md b = Ok (k, b1)"
    and n: "(case k of None \<Rightarrow> Ok b1 | Some k \<Rightarrow> connect_service_reply_connector env r c p k b1) = Ok b'"
    using assms(1) by (auto simp: handle_connect_service_reply_message_def elim!: and_then_OkE)
  have "binding_ok T b1" by (rule connect_service_reply_locked_ok [OF l assms(2)])
  then show ?thesis using n by (cases k) (auto dest: connect_service_reply_connector_ok)
qed

theorem handle_message_ok:
  assumes "handle_message env ra c ch m b = Ok b'" and "binding_ok T b" and "c \<in> connected T"
  shows "binding_ok T b'"
  using assms
  by (cases m) (auto intro: handle_connect_ok handle_connect_reply_ok handle_connect_service_ok
      handle_connect_service_reply_ok handle_request_service_ok handle_offer_service_ok handle_subscribe_event_ok
      simp: handle_event_update_ok)

theorem on_receive_message_ok:
  assumes "on_receive_message env ra c ch a data b = Ok b'" and "binding_ok T b" and "c \<in> connected T"
  shows "binding_ok T b'"
  using assms by (auto simp: on_receive_message_def split: if_splits option.splits elim!: and_then_OkE
      intro: handle_connect_ok handle_message_ok)

subsection \<open>Removal of a client\<close>

lemma state_ok_remove_subs:
  assumes "state_ok C st"
  shows "subs_ok (event_subscriptions (fst (remove_event_subscriptions c cc st)))"
    and "subs_rel (event_subscriptions (fst (remove_event_subscriptions c cc st))) =
         {(e, ep). (e, ep) \<in> subs_rel (event_subscriptions st) \<and> ep_client_id ep \<noteq> c}"
proof -
  let ?keep = "\<lambda>ep. ep_client_id ep \<noteq> c"
  have ok: "subs_ok (event_subscriptions st)" using assms by (simp add: state_ok_def)
  obtain subs calls where p: "prune_subscriptions ?keep (Some 0) (event_subscriptions st) = (subs, calls)" by force
  have "fst (prune_subscriptions ?keep cc (event_subscriptions st)) = subs"
    using subscription_tables_connector(3) [of ?keep cc _ 0] p by simp
  then show "subs_ok (event_subscriptions (fst (remove_event_subscriptions c cc st)))"
    and "subs_rel (event_subscriptions (fst (remove_event_subscriptions c cc st))) =
         {(e, ep). (e, ep) \<in> subs_rel (event_subscriptions st) \<and> ep_client_id ep \<noteq> c}"
    using prune_effect [OF ok p] by (auto simp: remove_event_subscriptions_def Let_def case_prod_unfold)
qed

lemma state_ok_without_client:
  assumes "state_ok C st"
  shows "state_ok (C - {c}) (snd (remove_offer_of c (fst (remove_event_subscriptions c cc st))))"
proof -
  let ?st = "fst (remove_event_subscriptions c cc st)"
  have o: "offers ?st = offers st" by (simp add: remove_event_subscriptions_def Let_def case_prod_unfold)
  note s = state_ok_remove_subs [OF assms, of c cc]
  have sub: "(e, ep) \<in> subs_rel (event_subscriptions ?st) \<Longrightarrow> ep_client_id ep \<in> C - {c}" for e ep
    using assms s(2) by (auto simp: state_ok_def)
  show ?thesis
  proof (cases "map_of (offers st) c")
    case None
    then have "set (keys (offers st)) \<subseteq> C - {c}" using assms by (auto simp: state_ok_def map_of_eq_None_iff)
    then show ?thesis using None assms s(1) sub o by (auto simp: remove_offer_of_def state_ok_def)
  next
    case (Some v)
    let ?st' = "?st\<lparr>offers := AList.delete c (offers ?st)\<rparr>"
    have "set (keys (offers ?st')) \<subseteq> C - {c}"
      using assms by (auto simp: state_ok_def o delete_keys)
    then have ok: "state_ok (C - {c}) ?st'"
      using assms s(1) sub by (auto simp: state_ok_def o distinct_AList_delete)
    have "state_ok (C - {c}) (?st'\<lparr>event_subscriptions := [], enabled_connector := None\<rparr>)"
      using state_ok_clear_subs [OF ok] by simp
    then show ?thesis using Some ok unfolding remove_offer_of_def Let_def o by (auto split: if_splits option.splits)
  qed
qed

lemma connected_remove: "connected (connections_remove_client c T) = connected T - {c}"
  by (auto simp: connected_def connections_remove_client_def delete_keys)

lemma interest_ok_forget:
  assumes "interest_ok C ip"
  shows "interest_ok (C - {c}) (forget_interest c ip)"
proof -
  have d: "distinct (keys (map_vals (removeAll c) ip))" using assms by (simp add: interest_ok_def)
  have "set (get_or [] k (forget_interest c ip)) \<subseteq> C - {c}" for k
    using interest_ok_get [OF assms, of k]
    by (auto simp: forget_interest_def get_or_def map_of_keep_vals [OF d] map_of_map_vals split: option.splits if_splits)
  then show ?thesis using d by (simp add: interest_ok_def forget_interest_def)
qed

lemma mapping_ok_remove_client: "mapping_ok C cm \<Longrightarrow> mapping_ok (C - {c}) (cm_remove_client c cm)"
  unfolding mapping_ok_def by (auto simp: cm_inv_remove_client conns_remove_client split: if_splits)

lemma pending_ok_remove_client:
  "pending_ok C pend \<Longrightarrow> pending_ok (C - {c}) (clear_pending_connects (\<lambda>v. pc_client_id v = c) pend)"
  by (auto simp: pending_ok_def pending_find_clear split: option.splits if_splits)

lemma states_ok_remove_client:
  assumes "states_ok C sts"
  shows "states_ok (C - {c}) (snd (remove_offers c (fst (remove_event_subscriptions_for_client c sts))))"
proof -
  have "snd (remove_offers c (fst (remove_event_subscriptions_for_client c sts))) =
      map_vals (\<lambda>st. snd (remove_offer_of c (fst (remove_event_subscriptions c (client_connector st) st)))) sts"
    by (simp add: remove_offers_def remove_event_subscriptions_for_client_def map_vals_def)
  then show ?thesis using states_ok_map_vals [OF assms state_ok_without_client [of C _ c]] by simp
qed

theorem remove_client_ok:
  assumes "binding_ok T b"
  shows "binding_ok (connections_remove_client c T) (remove_client c b)"
proof -
  note d = binding_okD [OF assms]
  have "distinct (keys (connections_remove_client c T))"
    using d(6) by (simp add: connections_remove_client_def distinct_AList_delete)
  then show ?thesis
    unfolding remove_client_def remove_client_state_locked_def Let_def case_prod_unfold fst_conv snd_conv binding_ok_frame
    using d by (intro binding_okI)
      (simp_all add: connected_remove states_ok_remove_client mapping_ok_remove_client pending_ok_remove_client interest_ok_forget)
qed

lemma binding_ok_mono_tables:
  "states_ok C sts \<Longrightarrow> C \<subseteq> D \<Longrightarrow> states_ok D sts" "mapping_ok C cm \<Longrightarrow> C \<subseteq> D \<Longrightarrow> mapping_ok D cm"
  "pending_ok C p \<Longrightarrow> C \<subseteq> D \<Longrightarrow> pending_ok D p" "interest_ok C ip \<Longrightarrow> C \<subseteq> D \<Longrightarrow> interest_ok D ip"
proof -
  show "states_ok C sts \<Longrightarrow> C \<subseteq> D \<Longrightarrow> states_ok D sts"
    unfolding states_ok_def state_ok_def by (meson subset_iff)
  show "mapping_ok C cm \<Longrightarrow> C \<subseteq> D \<Longrightarrow> mapping_ok D cm" by (simp add: mapping_ok_def) blast
  show "pending_ok C p \<Longrightarrow> C \<subseteq> D \<Longrightarrow> pending_ok D p" by (simp add: pending_ok_def) blast
  show "interest_ok C ip \<Longrightarrow> C \<subseteq> D \<Longrightarrow> interest_ok D ip" by (simp add: interest_ok_def) blast
qed

theorem add_client_ok:
  assumes "add_client c ch b = Ok b'" and "binding_ok T b"
  shows "binding_ok (b_connections b') b'"
proof -
  note d = binding_okD [OF assms(2)]
  have b': "b' = b\<lparr>b_connections := T @ [(c, ch)]\<rparr>" and c: "c \<notin> set (keys T)"
    using assms(1) d(1) by (auto simp: add_client_def connections_add_client_Ok simp del: set_map elim!: and_then_OkE)
  have "connected T \<subseteq> connected (T @ [(c, ch)])" by (auto simp: connected_def)
  then show ?thesis unfolding b' using d c
    by (intro binding_okI) (auto intro: binding_ok_mono_tables)
qed

end
