(* ===== verification/Binding_Properties.thy ===== *)
theory Binding_Properties
  imports Binding_Invariant
begin

text \<open>
  Properties of the binding over all its executions (\<^verbatim>\<open>impl/binding_base.cpp\<close>): the step
  relation of everything that can happen to a binding, the invariant of its tables, what a
  state change and an event update send, the removal of a client, and the handshake by
  which two bindings connect a service.

  A step is one critical section of the recursive mutex. The handler of
  \<^verbatim>\<open>Connect_service_reply\<close> releases the mutex once, so its two halves are also steps of their
  own. \<open>deliver\<close> is \<open>receive\<close> after the bytes have been read. A message is received from a client
  that has a reply channel; for the server this follows from the order of the transport's
  callbacks, for the client see the theory of the endpoints.
\<close>

inductive binding_step :: "env \<Rightarrow> Binding \<Rightarrow> Binding \<Rightarrow> bool" for env where
  connect: "add_client c ch b = Ok b' \<Longrightarrow> binding_step env b b'"
| disconnect: "binding_step env b (remove_client c b)"
| configure: "binding_step env b (register_shared_memory_configurations configs b)"
| receive: "get_reply_channel c (b_connections b) = Some ch \<Longrightarrow> on_receive_message env ra c ch a data b = Ok b'
    \<Longrightarrow> binding_step env b b'"
| deliver: "get_reply_channel c (b_connections b) = Some ch \<Longrightarrow> handle_message env ra c ch m b = Ok b' \<Longrightarrow> binding_step env b b'"
| reply_first: "connect_service_reply_locked env c q p md b = Ok (key, b') \<Longrightarrow> binding_step env b b'"
| reply_second: "connect_service_reply_connector env r c p key b = Ok b' \<Longrightarrow> binding_step env b b'"
| callback: "run_runtime_callback env cb b = Ok b' \<Longrightarrow> binding_step env b b'"
| consumed: "binding_step env b (on_payload_destruction env c q h b)"
| subscription: "binding_step env b (on_event_subscription_change env c p e sub b)"

definition binding_reachable :: "env \<Rightarrow> Shared_memory_configuration \<Rightarrow> Binding \<Rightarrow> bool" where
  "binding_reachable env cfg b \<longleftrightarrow> (binding_step env)\<^sup>*\<^sup>* (Binding_init cfg) b"

lemma binding_reachable_init: "binding_reachable env cfg (Binding_init cfg)"
  by (simp add: binding_reachable_def)

lemma binding_reachable_step: "binding_reachable env cfg b \<Longrightarrow> binding_step env b b' \<Longrightarrow> binding_reachable env cfg b'"
  by (simp add: binding_reachable_def)

lemma Binding_init_ok: "binding_ok [] (Binding_init cfg)"
  by (auto simp: binding_ok_def Binding_init_def states_ok_def mapping_ok_def pending_ok_def pending_find_def
      interest_ok_def get_or_def Connection_metadata_init_inv)
    (simp add: Connection_metadata_init_def conns_def get_or_def)

lemma binding_ok_connections: "binding_ok T b \<Longrightarrow> binding_ok (b_connections b) b"
  by (simp add: binding_ok_def)

lemma binding_step_ok:
  assumes "binding_step env b b'" and "binding_ok (b_connections b) b"
  shows "binding_ok (b_connections b') b'"
  using assms
proof cases
  case (disconnect c)
  then show ?thesis using binding_ok_connections [OF remove_client_ok [OF assms(2), of c]] by simp
next
  case (configure configs)
  then show ?thesis using assms(2) by (simp add: register_shared_memory_configurations_def)
next
  case (receive c ch ra a data)
  show ?thesis
    by (rule binding_ok_connections [OF on_receive_message_ok [OF receive(2) assms(2) channel_connected [OF receive(1)]]])
next
  case (deliver c ch ra m)
  show ?thesis
    by (rule binding_ok_connections [OF handle_message_ok [OF deliver(2) assms(2) channel_connected [OF deliver(1)]]])
next
  case (consumed c q h)
  show ?thesis unfolding consumed by (rule binding_ok_connections [where T = "b_connections b"]) (simp add: assms(2))
next
  case (subscription c p e sub)
  show ?thesis unfolding subscription by (rule binding_ok_connections [where T = "b_connections b"]) (simp add: assms(2))
qed (auto intro: add_client_ok binding_ok_connections connect_service_reply_locked_ok
    connect_service_reply_connector_ok run_runtime_callback_ok)

lemma binding_reachable_ok: "binding_reachable env cfg b \<Longrightarrow> binding_ok (b_connections b) b"
  unfolding binding_reachable_def
proof (induction rule: rtranclp_induct)
  case base
  then show ?case using binding_ok_connections [OF Binding_init_ok] .
next
  case (step b b')
  then show ?case by (blast intro: binding_step_ok)
qed

subsection \<open>State changes\<close>

definition channel_of :: "Connections \<Rightarrow> Client_id \<Rightarrow> channel" where
  "channel_of T c = get_or 0 c T"

lemma channel_of_connected: "c \<in> connected T \<Longrightarrow> get_reply_channel c T = Some (channel_of T c)"
  using connected_channel [of c T] by (auto simp: channel_of_def get_or_def get_reply_channel_def)

lemma send_offers:
  assumes "set cs \<subseteq> connected (b_connections b)"
  shows "fold_run (send_offer_to_peer env s i av) cs b =
    Ok (emit (map (\<lambda>c. Sent (channel_of (b_connections b) c) (Offer_service s i av)) cs) b)"
  using assms
proof (induction cs arbitrary: b)
  case Nil
  then show ?case by (simp add: emit_def)
next
  case (Cons c cs)
  let ?b = "send_offer_service_to_client env (channel_of (b_connections b) c) s i av b"
  have "send_offer_to_peer env s i av c b = Ok ?b"
    using Cons.prems by (simp add: send_offer_to_peer_def channel_of_connected)
  moreover have "b_connections ?b = b_connections b" by (simp add: send_offer_service_to_client_def conn_send_def)
  ultimately show ?case using Cons.IH [of ?b] Cons.prems
    by (simp add: send_offer_service_to_client_def conn_send_def emit_def)
qed

lemma service_state_change_sends:
  assumes "binding_ok (b_connections b) b" and "keys_find (b_keys b) key = Some (s, i)"
  shows "\<exists>b'. service_state_change env key av n b = Ok b'
     \<and> b_log b' = b_log b @ map (\<lambda>c. Sent (channel_of (b_connections b) c) (Offer_service s i av)) (get_or [] key (b_interested b))
     \<and> map_of (b_local_offers b') key = Some av \<and> (\<not> av \<longrightarrow> for_each_client key (b_id_mapping b') = [])"
proof -
  let ?peers = "get_or [] key (b_interested b)"
  let ?b1 = "if av then b else b\<lparr>b_id_mapping := remove_service key (b_id_mapping b)\<rparr>"
  let ?b3 = "?b1\<lparr>b_local_offers := AList.update key av (b_local_offers ?b1),
      b_states := add_service key s i n (b_states ?b1), b_interested := AList.update key ?peers (b_interested ?b1)\<rparr>"
  have T: "b_connections ?b3 = b_connections b" by simp
  have sub: "set ?peers \<subseteq> connected (b_connections ?b3)"
    unfolding T by (rule interest_ok_get [OF binding_okD(5) [OF assms(1)]])
  have "service_state_change env key av n b = fold_run (send_offer_to_peer env s i av) ?peers ?b3"
    using assms(2) by (simp add: service_state_change_def Let_def)
  also have "\<dots> = Ok (emit (map (\<lambda>c. Sent (channel_of (b_connections b) c) (Offer_service s i av)) ?peers) ?b3)"
    using send_offers [OF sub] T by simp
  finally have r: "service_state_change env key av n b = \<dots>" .
  have "for_each_client key (remove_service key (b_id_mapping b)) = []"
  proof -
    have inv: "cm_inv (remove_service key (b_id_mapping b))"
      using binding_okD(3) [OF assms(1)] by (simp add: mapping_ok_def cm_inv_remove_service)
    have "x \<notin> set (for_each_client key (remove_service key (b_id_mapping b)))" for x
      using for_each_client_iff [OF inv, of "fst x" "snd x" key] by (auto simp: conns_remove_service)
    then show ?thesis by (metis list.set_intros(1) neq_Nil_conv)
  qed
  then show ?thesis using r by (auto simp: emit_def update_conv')
qed

subsection \<open>Event updates\<close>

text \<open>What \<open>send_event_update\<close> sends for a payload of the given span: one message for each
  connection of the key.\<close>

definition event_messages ::
    "Connections \<Rightarrow> Event_id \<Rightarrow> size_t \<Rightarrow> span \<Rightarrow> (Client_id \<times> Ids) list \<Rightarrow> (channel \<times> message) list" where
  "event_messages T event slot d targets =
    map (\<lambda>(c, ids). (channel_of T c,
      Event_update (remote_handle ids) event \<lparr>slot_index = slot, used_bytes = span_size d\<rparr>)) targets"

definition sent :: "(channel \<times> message) list \<Rightarrow> effect list" where
  "sent ms = map (\<lambda>(ch, m). Sent ch m) ms"

lemma send_event_to_all:
  assumes "fst ` set targets \<subseteq> connected (b_connections b)" and "payload_data p = Ok d"
  shows "fold_run (send_event_to env event p) targets (n, b) =
    Ok (n + of_nat (length (filter (\<lambda>(ch, m). e_send_ok env ch m) (event_messages (b_connections b) event (get_slot_handle p) d targets))),
        emit (sent (event_messages (b_connections b) event (get_slot_handle p) d targets)) b)"
  using assms(1)
proof (induction targets arbitrary: n b)
  case Nil
  then show ?case by (simp add: event_messages_def sent_def emit_def)
next
  case (Cons t ts)
  obtain c ids where t: "t = (c, ids)" by force
  let ?ch = "channel_of (b_connections b) c"
  let ?m = "Event_update (remote_handle ids) event \<lparr>slot_index = get_slot_handle p, used_bytes = span_size d\<rparr>"
  let ?b = "emit [Sent ?ch ?m] b"
  have c: "c \<in> connected (b_connections b)" using Cons.prems t by simp
  have "send_event_to env event p t (n, b) = Ok (if e_send_ok env ?ch ?m then n + 1 else n, ?b)"
    using assms(2) t by (simp add: send_event_to_def channel_of_connected [OF c] conn_send_def channel_send_def)
  moreover have "fst ` set ts \<subseteq> connected (b_connections ?b)" using Cons.prems by simp
  ultimately show ?case
    using Cons.IH [of ?b "if e_send_ok env ?ch ?m then n + 1 else n"] t
    by (simp add: event_messages_def sent_def emit_def algebra_simps)
qed

lemma event_targets_connected:
  assumes "binding_ok (b_connections b) b"
  shows "fst ` set (for_each_client key (b_id_mapping b)) \<subseteq> connected (b_connections b)"
proof
  fix c assume "c \<in> fst ` set (for_each_client key (b_id_mapping b))"
  then obtain ids where m: "(c, ids) \<in> set (for_each_client key (b_id_mapping b))" by auto
  have ok: "mapping_ok (connected (b_connections b)) (b_id_mapping b)" by (rule binding_okD(3) [OF assms])
  then have "ids \<in> set (conns (b_id_mapping b) c)"
    using m for_each_client_iff [of "b_id_mapping b" c ids key] by (simp add: mapping_ok_def)
  then show "c \<in> connected (b_connections b)" using ok unfolding mapping_ok_def by blast
qed

lemma send_event_update_eq:
  fixes env event p key b d
  defines "ms \<equiv> event_messages (b_connections b) event (get_slot_handle p) d (for_each_client key (b_id_mapping b))"
  assumes "binding_ok (b_connections b) b" and "payload_data p = Ok d"
  shows "send_event_update env key event p b =
    and_then (insert_allocation key p (of_nat (length (filter (\<lambda>(ch, m). e_send_ok env ch m) ms))) (b_slot_managers b)) (\<lambda>(cbs, sms).
      Ok (emit (sent ms @ map Ran_callback cbs) (b\<lparr>b_slot_managers := sms\<rparr>)))"
  unfolding send_event_update_def
  using send_event_to_all [OF event_targets_connected [OF assms(2)] assms(3), of env event key 0]
  by (simp add: ms_def emit_def case_prod_unfold)

subsection \<open>Removal of a client\<close>

definition mentions :: "Binding \<Rightarrow> Client_id \<Rightarrow> bool" where
  "mentions b c \<longleftrightarrow> conns (b_id_mapping b) c \<noteq> []
     \<or> (\<exists>h v. pending_find h (b_pending b) = Some v \<and> pc_client_id v = c)
     \<or> (\<exists>k. c \<in> set (get_or [] k (b_interested b)))
     \<or> (\<exists>k st. states_get k (b_states b) = Some st \<and>
           (c \<in> set (keys (offers st)) \<or> (\<exists>e ep. (e, ep) \<in> subs_rel (event_subscriptions st) \<and> ep_client_id ep = c)))"

lemma mentions_connected:
  assumes "binding_ok (b_connections b) b" and "mentions b c"
  shows "c \<in> connected (b_connections b)"
proof -
  note d = binding_okD [OF assms(1)]
  let ?C = "connected (b_connections b)"
  have "conns (b_id_mapping b) c \<noteq> [] \<Longrightarrow> c \<in> ?C"
    using d(3) unfolding mapping_ok_def by (metis list.set_intros(1) neq_Nil_conv)
  moreover have "pending_find h (b_pending b) = Some v \<Longrightarrow> pc_client_id v \<in> ?C" for h v
    using d(4) by (simp add: pending_ok_def)
  moreover have "states_get k (b_states b) = Some st \<Longrightarrow> state_ok ?C st" for k st
    by (rule states_ok_states_get [OF d(2)])
  ultimately show ?thesis using assms(2) interest_ok_get [OF d(5)]
    unfolding mentions_def state_ok_def by blast
qed

lemma remove_client_tables:
  "b_connections (remove_client c b) = connections_remove_client c (b_connections b)"
  "b_id_mapping (remove_client c b) = cm_remove_client c (b_id_mapping b)"
  "b_pending (remove_client c b) = clear_pending_connects (\<lambda>v. pc_client_id v = c) (b_pending b)"
  "b_interested (remove_client c b) = forget_interest c (b_interested b)"
  by (simp_all add: remove_client_def remove_client_state_locked_def Let_def case_prod_unfold)

lemma interest_forget_get:
  "distinct (keys ip) \<Longrightarrow> get_or [] k (forget_interest c ip) = removeAll c (get_or [] k ip)"
  by (simp add: forget_interest_def get_or_def map_of_keep_vals map_of_map_vals split: option.splits)

subsection \<open>The handshake\<close>

lemma find_append: "find P (xs @ ys) = (case find P xs of None \<Rightarrow> find P ys | Some x \<Rightarrow> Some x)"
  by (induction xs) auto

lemma get_by_handle_conns:
  "get_by_local_handle c h cm = find (\<lambda>ids. local_handle ids = h) (conns cm c)"
  "get_by_remote_handle c h cm = find (\<lambda>ids. remote_handle ids = h) (conns cm c)"
  by (simp_all add: get_by_local_handle_def get_by_remote_handle_def conns_def get_or_def split: option.splits)

lemma get_by_local_handle_add:
  assumes "add_mapping c ids cm = Ok cm'"
  shows "get_by_local_handle c (local_handle ids) cm' = Some ids"
proof -
  have "find (\<lambda>e. local_handle e = local_handle ids) (conns cm c) = None"
    using assms by (simp add: add_mapping_Ok find_None_iff)
  then show ?thesis using add_mapping_effect [OF assms, of c] by (simp add: get_by_handle_conns find_append)
qed

lemma get_by_remote_handle_add:
  assumes "add_mapping c ids cm = Ok cm'" and "remote_handle ids \<notin> remote_handle ` set (conns cm c)"
  shows "get_by_remote_handle c (remote_handle ids) cm' = Some ids"
proof -
  have "find (\<lambda>e. remote_handle e = remote_handle ids) (conns cm c) = None"
    using assms(2) by (auto simp: find_None_iff image_iff)
  then show ?thesis using add_mapping_effect [OF assms(1), of c] by (simp add: get_by_handle_conns find_append)
qed

lemma binding_metadata_frame:
  assumes "binding_metadata env key b = Ok (md, b')"
  shows "\<exists>sms. b' = b\<lparr>b_slot_managers := sms\<rparr>"
  using assms by (auto simp: binding_metadata_def elim!: and_then_OkE)

text \<open>The providing side.\<close>

lemma connect_service_accepted:
  assumes "handle_connect_service_message env c ch s i q md True b = Ok b'"
  shows "\<exists>ids nm ne. get_by_local_handle c (local_handle ids) (b_id_mapping b') = Some ids
     \<and> ids_key ids = fst (binding_key s i b) \<and> remote_handle ids = q \<and> remote_metadata ids = md
     \<and> b_log b' = b_log b @ [Sent ch (Connect_service_reply q (local_handle ids) (local_metadata ids) nm ne)]"
proof -
  obtain key b1 where k: "binding_key s i b = (key, b1)" by force
  obtain l nxt lmd b3 cm nm ne where
    md: "binding_metadata env key (b1\<lparr>b_next_local_id := nxt\<rparr>) = Ok (lmd, b3)"
    and add: "add_mapping c \<lparr>ids_key = key, local_handle = l, remote_handle = q, local_metadata = lmd, remote_metadata = md\<rparr>
        (b_id_mapping b3) = Ok cm"
    and b': "b' = snd (conn_send env ch (Connect_service_reply q l lmd nm ne)
        (b3\<lparr>b_id_mapping := cm\<rparr>))"
    using assms k
    by (auto simp: handle_connect_service_message_def Let_def case_prod_unfold split: option.splits elim!: and_then_OkE)
  have log: "b_log b3 = b_log b"
    using binding_metadata_frame [OF md] k by (auto simp: binding_key_def Let_def case_prod_unfold)
  show ?thesis
    by (rule exI [of _ "\<lparr>ids_key = key, local_handle = l, remote_handle = q, local_metadata = lmd, remote_metadata = md\<rparr>"])
      (use get_by_local_handle_add [OF add] log k in \<open>auto simp: b' conn_send_def emit_def\<close>)
qed

text \<open>The requesting side.\<close>

lemma on_event_subscription_change_tables [simp]:
  "b_id_mapping (on_event_subscription_change env c p e sub b) = b_id_mapping b"
  "b_pending (on_event_subscription_change env c p e sub b) = b_pending b"
  by (simp_all add: on_event_subscription_change_def conn_send_def split: option.splits)

lemma connector_part_tables:
  assumes "connect_service_reply_connector env r c p key b = Ok b'"
  shows "b_id_mapping b' = b_id_mapping b" and "b_pending b' = b_pending b"
proof -
  have f: "b_id_mapping (foldl (\<lambda>b' (e, sub). on_event_subscription_change env c p e sub b') b es) = b_id_mapping b
      \<and> b_pending (foldl (\<lambda>b' (e, sub). on_event_subscription_change env c p e sub b') b es) = b_pending b" for es
    by (induction es arbitrary: b) auto
  show "b_id_mapping b' = b_id_mapping b" "b_pending b' = b_pending b"
    using assms f [of "snd r"]
    by (auto simp: connect_service_reply_connector_def Let_def case_prod_unfold split: option.splits)
qed

lemma connect_service_reply_accepted:
  assumes "handle_connect_service_reply_message env r c q p md b = Ok b'"
    and "pending_find q (b_pending b) = Some \<lparr>pc_key = key, pc_client_id = c\<rparr>"
    and "states_get key (b_states b) \<noteq> None" and "q \<notin> remote_handle ` set (conns (b_id_mapping b) c)"
  shows "\<exists>ids. get_by_remote_handle c q (b_id_mapping b') = Some ids \<and> get_by_local_handle c p (b_id_mapping b') = Some ids
     \<and> ids_key ids = key \<and> local_handle ids = p \<and> remote_handle ids = q \<and> remote_metadata ids = md
     \<and> pending_find q (b_pending b') = None"
proof -
  obtain lmd b1 cm where
    md: "binding_metadata env key b = Ok (lmd, b1)"
    and add: "add_mapping c \<lparr>ids_key = key, local_handle = p, remote_handle = q, local_metadata = lmd, remote_metadata = md\<rparr>
        (b_id_mapping b1) = Ok cm"
    and n: "connect_service_reply_connector env r c p key
        (b1\<lparr>b_id_mapping := cm, b_pending := pending_erase q (b_pending b1)\<rparr>) = Ok b'"
    using assms(1-3)
    by (auto simp: handle_connect_service_reply_message_def connect_service_reply_locked_def split: option.splits elim!: and_then_OkE)
  have b1: "b_id_mapping b1 = b_id_mapping b" "b_pending b1 = b_pending b" using binding_metadata_frame [OF md] by auto
  show ?thesis
    by (rule exI [of _ "\<lparr>ids_key = key, local_handle = p, remote_handle = q, local_metadata = lmd, remote_metadata = md\<rparr>"])
      (use get_by_local_handle_add [OF add] get_by_remote_handle_add [OF add] assms(4) b1 in
        \<open>simp add: connector_part_tables [OF n] pending_find_erase\<close>)
qed

subsection \<open>Two peers\<close>

text \<open>
  A peer with one connection, number 0 on channel 0, that requests the service \<open>mine\<close> and
  provides the service \<open>other\<close>; the runtime announces \<open>other\<close> as soon as a peer asks for it.
\<close>

definition demo_metadata :: Shared_memory_metadata where
  "demo_metadata = \<lparr>path = ''/m'', slot_size = 8, slot_count = 1\<rparr>"

definition demo_service :: "char \<Rightarrow> Service" where
  "demo_service n = \<lparr>sii_id = [n], sii_version = \<lparr>major = 1, minor = 0\<rparr>\<rparr>"

definition demo_env :: env where
  "demo_env = \<lparr>e_shm_create = (\<lambda>_ _. True), e_shm_allocate = (\<lambda>_ _. Some 4096), e_shm_open = (\<lambda>_. Some 4096),
     e_send_ok = (\<lambda>_ _. True)\<rparr>"

definition demo_counts :: Service_counts where
  "demo_counts = \<lparr>num_methods = 0, num_events = 1\<rparr>"

definition demo_configuration :: Shared_memory_configuration where
  "demo_configuration = [(demo_service CHR ''X'', [(''1'', demo_metadata)]), (demo_service CHR ''Y'', [(''1'', demo_metadata)])]"

definition demo_answer :: "Key_t \<Rightarrow> runtime_answer" where
  "demo_answer key = \<lparr>ra_client = ([On_service_state_change key True demo_counts], Some 7), ra_server = (Some 9, []), ra_update = True\<rparr>"

fun deliver_all :: "env \<Rightarrow> runtime_answer \<Rightarrow> message list \<Rightarrow> Binding \<Rightarrow> Binding run" where
  "deliver_all env ra [] b = Ok b"
| "deliver_all env ra (m # ms) b = and_then (handle_message env ra 0 0 m b) (deliver_all env ra ms)"

definition demo_peer :: "char \<Rightarrow> message list \<Rightarrow> Binding run" where
  "demo_peer mine ms =
    and_then (add_client 0 0 (Binding_init demo_configuration)) (\<lambda>b.
    and_then (send_request_service demo_env (demo_service mine) ''1'' demo_counts True b)
      (deliver_all demo_env (demo_answer 1) ms))"

definition sent_messages :: "Binding \<Rightarrow> message list" where
  "sent_messages b = concat (map (\<lambda>e. case e of Sent ch m \<Rightarrow> [m] | _ \<Rightarrow> []) (b_log b))"

text \<open>What a peer that requests \<open>mine\<close> sends when both peers request each other's service at once.\<close>

definition cross_messages :: "char \<Rightarrow> char \<Rightarrow> message list" where
  "cross_messages mine other =
    [Request_service (demo_service mine) ''1'' True,
     Offer_service (demo_service other) ''1'' True,
     Connect_service (demo_service mine) ''1'' 1 demo_metadata True,
     Connect_service_reply 1 2 demo_metadata 0 1]"

lemma deliver_all_reachable:
  assumes "binding_reachable env cfg b" and "get_reply_channel 0 (b_connections b) = Some 0"
    and "deliver_all env ra ms b = Ok b'"
  shows "binding_reachable env cfg b'"
  using assms
proof (induction ms arbitrary: b)
  case Nil
  then show ?case by simp
next
  case (Cons m ms)
  then obtain b1 where h: "handle_message env ra 0 0 m b = Ok b1" and r: "deliver_all env ra ms b1 = Ok b'"
    by (auto elim: and_then_OkE)
  have "binding_ok (b_connections b) b1"
    by (rule handle_message_ok [OF h binding_reachable_ok [OF Cons.prems(1)] channel_connected [OF Cons.prems(2)]])
  then have "b_connections b1 = b_connections b" by (rule binding_okD(1))
  then show ?case using Cons.IH [OF _ _ r] Cons.prems(2)
      binding_reachable_step [OF Cons.prems(1) binding_step.deliver [OF Cons.prems(2) h]] by simp
qed

lemma demo_peer_reachable:
  assumes "demo_peer mine ms = Ok b"
  shows "binding_reachable demo_env demo_configuration b"
proof -
  let ?b0 = "Binding_init demo_configuration"
  obtain b1 b2 where a: "add_client 0 0 ?b0 = Ok b1"
    and s: "send_request_service demo_env (demo_service mine) ''1'' demo_counts True b1 = Ok b2"
    and d: "deliver_all demo_env (demo_answer 1) ms b2 = Ok b"
    using assms by (auto simp: demo_peer_def elim!: and_then_OkE)
  have s1: "binding_step demo_env ?b0 b1" by (rule binding_step.connect [OF a])
  have s2: "binding_step demo_env b1 b2"
    by (rule binding_step.callback [of _ "On_request_service (demo_service mine) ''1'' demo_counts True"]) (simp add: s)
  have r1: "binding_reachable demo_env demo_configuration b1"
    by (rule binding_reachable_step [OF binding_reachable_init s1])
  have c1: "get_reply_channel 0 (b_connections b1) = Some 0"
    using a get_reply_channel_add [of 0 0 "b_connections ?b0"] by (auto simp: add_client_def elim!: and_then_OkE)
  have "b_connections b2 = b_connections b1"
    using binding_okD(1) [OF send_request_service_ok [OF s binding_reachable_ok [OF r1]]] .
  then show ?thesis using deliver_all_reachable [OF binding_reachable_step [OF r1 s2] _ d] c1 by simp
qed

lemma cross_peer_sends:
  "map_sum id sent_messages (demo_peer CHR ''X'' (take 3 (cross_messages CHR ''Y'' CHR ''X''))) = Ok (cross_messages CHR ''X'' CHR ''Y'')"
  by code_simp

subsection \<open>Properties\<close>





text \<open>C2. An event update goes to exactly the connections of its service. In a reachable state the update
  sends one message to each client connected to the service, carrying the handle that
  client chose and the slot of the payload; the payload is then kept for exactly as many
  consumers as the transport accepted messages, and destroyed at once when there are none.\<close>

theorem event_update_broadcast:
  fixes env event p key b d
  defines "ms \<equiv> event_messages (b_connections b) event (get_slot_handle p) d (for_each_client key (b_id_mapping b))"
  assumes "binding_reachable env cfg b" and "payload_data p = Ok d"
  shows "send_event_update env key event p b =
      and_then (insert_allocation key p (of_nat (length (filter (\<lambda>(ch, m). e_send_ok env ch m) ms))) (b_slot_managers b)) (\<lambda>(cbs, sms).
        Ok (emit (sent ms @ map Ran_callback cbs) (b\<lparr>b_slot_managers := sms\<rparr>)))
    \<and> set (for_each_client key (b_id_mapping b)) = {(c, ids). ids \<in> set (conns (b_id_mapping b) c) \<and> ids_key ids = key}
    \<and> distinct (map fst (for_each_client key (b_id_mapping b)))"
proof -
  note ok = binding_reachable_ok [OF assms(2)]
  have inv: "cm_inv (b_id_mapping b)" using binding_okD(3) [OF ok] by (simp add: mapping_ok_def)
  show ?thesis unfolding ms_def
    using send_event_update_eq [OF ok assms(3), of env key event] for_each_client_iff [OF inv] for_each_client_once [OF inv]
    by auto
qed

definition demo_payload :: payload where
  "demo_payload = make_payload \<lparr>span_data = 4096, span_size = 8\<rparr> 0 (Other_callback 0) 0 0"

theorem event_update_broadcast_witness:
  "\<exists>b b'. demo_peer CHR ''X'' (take 3 (cross_messages CHR ''Y'' CHR ''X'')) = Ok b
     \<and> send_event_update demo_env 1 5 demo_payload b = Ok b'
     \<and> b_log b' = b_log b @ [Sent 0 (Event_update 1 5 \<lparr>slot_index = 0, used_bytes = 8\<rparr>)]"
proof -
  let ?r = "demo_peer CHR ''X'' (take 3 (cross_messages CHR ''Y'' CHR ''X''))"
  let ?ms = "[(0, Event_update 1 5 \<lparr>slot_index = 0, used_bytes = 8\<rparr>)]"
  obtain b where b: "?r = Ok b" using cross_peer_sends by (cases ?r) auto
  have "map_sum id (\<lambda>b. (event_messages (b_connections b) 5 0 \<lparr>span_data = 4096, span_size = 8\<rparr> (for_each_client 1 (b_id_mapping b)),
        map_sum id fst (insert_allocation 1 demo_payload 1 (b_slot_managers b)))) ?r = Ok (?ms, Ok [])"
    by code_simp
  then have ms: "event_messages (b_connections b) 5 0 \<lparr>span_data = 4096, span_size = 8\<rparr> (for_each_client 1 (b_id_mapping b)) = ?ms"
    and ins: "map_sum id fst (insert_allocation 1 demo_payload 1 (b_slot_managers b)) = Ok []"
    by (simp_all add: b)
  obtain sms where ins': "insert_allocation 1 demo_payload 1 (b_slot_managers b) = Ok ([], sms)"
    using ins by (cases "insert_allocation 1 demo_payload 1 (b_slot_managers b)") auto
  have d: "payload_data demo_payload = Ok \<lparr>span_data = 4096, span_size = 8\<rparr>" "get_slot_handle demo_payload = 0"
    by (simp_all add: demo_payload_def payload_data_def make_payload_def subspan_from_def get_slot_handle_def)
  have "send_event_update demo_env 1 5 demo_payload b = Ok (emit (sent ?ms) (b\<lparr>b_slot_managers := sms\<rparr>))"
    using event_update_broadcast [OF demo_peer_reachable [OF b] d(1), of 1 5] ms ins' d(2)
    by (simp add: demo_env_def)
  then show ?thesis using b by (simp add: emit_def sent_def)
qed







end
