(* ===== verification/Ipc_Endpoints.thy ===== *)
theory Ipc_Endpoints
  imports Binding_Properties
begin

text \<open>
  The two transport endpoints of the binding (\<^verbatim>\<open>impl/gateway_ipc_binding_server.cpp\<close>,
  \<^verbatim>\<open>impl/gateway_ipc_binding_client.cpp\<close>).

  The transport \<^verbatim>\<open>score::message_passing\<close> is a library: its callbacks are the operations below,
  a connection is its channel number, and the identity it reports for a peer is a number.
  The contents of a \<^verbatim>\<open>Connect\<close> message are read when it is dispatched, see the handlers.
\<close>

subsection \<open>Server\<close>

record Client_info =
  ci_identifier :: string
  client_identity :: nat

datatype find_service_change = Find_service_change Client_id "Service_instance list" bool

record Server =
  sv_next_client_id :: Client_id
  sv_listening :: bool
  sv_connections :: "(Client_id, channel) assoc"
  sv_find_elements :: "(Client_id, Service_instance list) assoc"
  sv_client_identifiers :: "(Client_id, Client_info) assoc"
  sv_changes :: "find_service_change list"
  sv_binding :: Binding

definition Server_create :: "Shared_memory_configuration \<Rightarrow> Server" where
  "Server_create cfg =
    \<lparr>sv_next_client_id = 0, sv_listening = False, sv_connections = [], sv_find_elements = [],
     sv_client_identifiers = [], sv_changes = [], sv_binding = Binding_init cfg\<rparr>"

definition server_reply_send :: "send_ok \<Rightarrow> channel \<Rightarrow> message \<Rightarrow> (Bidirectional_channel_error, unit) result" where
  "server_reply_send notify conn msg = (if notify conn msg then Ok () else Err runtime_error_send_failed)"

text \<open>\<open>listen_ok\<close> is the answer of \<^verbatim>\<open>StartListening\<close>.\<close>

definition server_start :: "bool \<Rightarrow> Server \<Rightarrow> (Bidirectional_channel_error, unit) result \<times> Server" where
  "server_start listen_ok sv =
    (if sv_listening sv then (Err runtime_error_listen_failed, sv)
     else if \<not> listen_ok then (Err runtime_error_listen_failed, sv)
     else (Ok (), sv\<lparr>sv_listening := True\<rparr>))"

text \<open>The destructor: the result says whether \<^verbatim>\<open>StopListening\<close> is called.\<close>

definition server_destroy :: "Server \<Rightarrow> bool" where
  "server_destroy sv = sv_listening sv"

definition server_connect_callback :: "channel \<Rightarrow> Server \<Rightarrow> (Client_id \<times> Server) run" where
  "server_connect_callback conn sv =
    (let (client, nxt) = get_next_id (sv_next_client_id sv);
         tab = (if map_of (sv_connections sv) client = None then AList.update client conn (sv_connections sv) else sv_connections sv) in
     and_then (add_client client (get_or conn client tab) (sv_binding sv)) (\<lambda>b.
       Ok (client, sv\<lparr>sv_next_client_id := nxt, sv_connections := tab, sv_binding := b\<rparr>)))"

definition server_disconnect_callback :: "Client_id \<Rightarrow> Server \<Rightarrow> Server" where
  "server_disconnect_callback client sv =
    (let sv1 = sv\<lparr>sv_binding := remove_client client (sv_binding sv),
                   sv_connections := AList.delete client (sv_connections sv),
                   sv_client_identifiers := AList.delete client (sv_client_identifiers sv)\<rparr> in
     case map_of (sv_find_elements sv1) client of
       None \<Rightarrow> sv1
     | Some els \<Rightarrow> sv1\<lparr>sv_changes := sv_changes sv1 @ [Find_service_change client els False],
                        sv_find_elements := AList.delete client (sv_find_elements sv1)\<rparr>)"

fun server_register_connect :: "nat \<Rightarrow> Client_id \<Rightarrow> message \<Rightarrow> Server \<Rightarrow> Server" where
  "server_register_connect identity client (Connect els cfgs ident) sv =
    (let sv1 = sv\<lparr>sv_client_identifiers := AList.update client \<lparr>ci_identifier = ident, client_identity = identity\<rparr> (sv_client_identifiers sv),
                   sv_binding := register_shared_memory_configurations cfgs (sv_binding sv)\<rparr> in
     if els \<noteq> []
     then sv1\<lparr>sv_changes := sv_changes sv1 @ [Find_service_change client els True],
              sv_find_elements := AList.update client els (sv_find_elements sv1)\<rparr>
     else sv1)"
| "server_register_connect identity client m sv = sv"

definition server_message_callback ::
    "env \<Rightarrow> runtime_answer \<Rightarrow> nat \<Rightarrow> Client_id \<Rightarrow> channel \<Rightarrow> nat \<Rightarrow> u8 list \<Rightarrow> Server \<Rightarrow> Server run" where
  "server_message_callback env ra identity client conn address data sv =
    (if data = [] then Err Out_of_bounds
     else let forward = (\<lambda>sv'. and_then (on_receive_message env ra client conn address data (sv_binding sv')) (\<lambda>b.
                Ok (sv'\<lparr>sv_binding := b\<rparr>))) in
       if get_message_type (hd data) = Some MT_Connect
       then (case check_and_cast MT_Connect address data of
               None \<Rightarrow> Ok sv
             | Some v \<Rightarrow> (case read_message MT_Connect v of
                   None \<Rightarrow> Err Assert_failed
                 | Some r \<Rightarrow> and_then r (\<lambda>msg. forward (server_register_connect identity client msg sv))))
       else forward sv)"

definition get_client_identifiers :: "Server \<Rightarrow> (Client_id, Client_info) assoc" where
  "get_client_identifiers sv = sv_client_identifiers sv"

subsection \<open>Client\<close>

datatype client_state = kStarting | kReady | kStopping | kStopped

datatype stop_reason = kUserRequested | kPermission | kShutdown | Other_reason

datatype client_effect = Sent_connect message | Restarted

record Client =
  cl_connected :: bool
  cl_stopped :: bool
  cl_find_elements :: "Service_instance list"
  cl_identifier :: string
  cl_configs :: "Service_shared_memory_config list"
  cl_effects :: "client_effect list"
  cl_binding :: Binding

definition client_id :: Client_id where
  "client_id = 0"

text \<open>The client is its own reply channel, number 0.\<close>

definition Client_create ::
    "Shared_memory_configuration \<Rightarrow> Service_instance list \<Rightarrow> Service_shared_memory_config list \<Rightarrow> string \<Rightarrow> Client run" where
  "Client_create cfg els configs ident =
    (case fixed_string_from_string kMax_client_identifier_size ident of
       Err _ \<Rightarrow> Err Assert_failed
     | Ok _ \<Rightarrow> Ok \<lparr>cl_connected = False, cl_stopped = False, cl_find_elements = els, cl_identifier = ident,
                    cl_configs = configs, cl_effects = [], cl_binding = Binding_init cfg\<rparr>)"

definition is_connected :: "Client \<Rightarrow> bool" where
  "is_connected cl = cl_connected cl"

definition client_send :: "bool \<Rightarrow> (Bidirectional_channel_error, unit) result" where
  "client_send accepted = (if accepted then Ok () else Err runtime_error_send_failed)"

fun on_state_change :: "stop_reason \<Rightarrow> client_state \<Rightarrow> Client \<Rightarrow> Client" where
  "on_state_change reason kReady cl =
    cl\<lparr>cl_effects := cl_effects cl @ [Sent_connect (Connect (cl_find_elements cl) (cl_configs cl) (cl_identifier cl))]\<rparr>"
| "on_state_change reason kStopped cl =
    (if reason = kUserRequested \<or> reason = kPermission \<or> reason = kShutdown then cl\<lparr>cl_stopped := True\<rparr>
     else cl\<lparr>cl_effects := cl_effects cl @ [Restarted]\<rparr>)"
| "on_state_change reason st cl =
    cl\<lparr>cl_connected := False, cl_binding := remove_client client_id (cl_binding cl)\<rparr>"

definition client_handle_connect_reply :: "bool \<Rightarrow> Client \<Rightarrow> Client run" where
  "client_handle_connect_reply status cl =
    assert_run status
      (let cl1 = cl\<lparr>cl_connected := status\<rparr> in
       if cl_connected cl1
       then and_then (add_client client_id 0 (cl_binding cl1)) (\<lambda>b. Ok (cl1\<lparr>cl_binding := b\<rparr>))
       else Ok cl1)"

definition client_on_receive_message :: "env \<Rightarrow> runtime_answer \<Rightarrow> nat \<Rightarrow> u8 list \<Rightarrow> Client \<Rightarrow> Client run" where
  "client_on_receive_message env ra address data cl =
    (if data = [] then Ok cl
     else let forward = (\<lambda>cl'. and_then (on_receive_message env ra client_id 0 address data (cl_binding cl')) (\<lambda>b.
                Ok (cl'\<lparr>cl_binding := b\<rparr>))) in
       if get_message_type (hd data) = Some MT_Connect_reply
       then (case check_and_cast MT_Connect_reply address data of
               None \<Rightarrow> Ok cl
             | Some v \<Rightarrow> (case read_message MT_Connect_reply v of
                   Some (Inr (Connect_reply status)) \<Rightarrow> and_then (client_handle_connect_reply status cl) forward
                 | _ \<Rightarrow> Err Assert_failed))
       else forward cl)"

subsection \<open>Executions of the server\<close>

text \<open>
  What the transport and the runtime do to a server. The transport calls the message callback
  only for a connection that is open, with the number its connect callback returned.
\<close>

inductive server_step :: "env \<Rightarrow> Server \<Rightarrow> Server \<Rightarrow> bool" for env where
  start: "server_step env sv (snd (server_start ok sv))"
| connect: "server_connect_callback conn sv = Ok (c, sv') \<Longrightarrow> server_step env sv sv'"
| disconnect: "server_step env sv (server_disconnect_callback c sv)"
| message: "map_of (sv_connections sv) c = Some conn \<Longrightarrow>
    server_message_callback env ra identity c conn address data sv = Ok sv' \<Longrightarrow> server_step env sv sv'"
| runtime: "run_runtime_callback env cb (sv_binding sv) = Ok b \<Longrightarrow> server_step env sv (sv\<lparr>sv_binding := b\<rparr>)"
| consumed: "server_step env sv (sv\<lparr>sv_binding := on_payload_destruction env c q h (sv_binding sv)\<rparr>)"
| subscription: "server_step env sv (sv\<lparr>sv_binding := on_event_subscription_change env c p e sub (sv_binding sv)\<rparr>)"

text \<open>The find-service elements of a client as the owner of the server knows them from the
  notifications.\<close>

fun notify_change :: "find_service_change \<Rightarrow> (Client_id \<rightharpoonup> Service_instance list) \<Rightarrow> (Client_id \<rightharpoonup> Service_instance list)" where
  "notify_change (Find_service_change c els found) m = (if found then m(c \<mapsto> els) else m(c := None))"

definition notified :: "find_service_change list \<Rightarrow> Client_id \<rightharpoonup> Service_instance list" where
  "notified cs = fold notify_change cs Map.empty"

definition server_ok :: "Server \<Rightarrow> bool" where
  "server_ok sv \<longleftrightarrow> binding_ok (b_connections (sv_binding sv)) (sv_binding sv)
     \<and> map_of (sv_connections sv) = map_of (b_connections (sv_binding sv))
     \<and> map_of (sv_find_elements sv) = notified (sv_changes sv)
     \<and> dom (notified (sv_changes sv)) \<subseteq> dom (map_of (sv_connections sv))"

lemma notified_append: "notified (cs @ [x]) = notify_change x (notified cs)"
  by (simp add: notified_def)

lemma server_okI:
  assumes "server_ok sv" and "binding_ok (b_connections (sv_binding sv)) b"
  shows "server_ok (sv\<lparr>sv_binding := b\<rparr>)"
  using assms binding_okD(1) [OF assms(2)] by (auto simp: server_ok_def)

lemma on_receive_binding_step:
  assumes "server_ok sv" and "map_of (sv_connections sv) c = Some conn"
    and "on_receive_message env ra c conn address data (sv_binding sv) = Ok b"
  shows "binding_step env (sv_binding sv) b" and "server_ok (sv\<lparr>sv_binding := b\<rparr>)"
proof -
  have ch: "get_reply_channel c (b_connections (sv_binding sv)) = Some conn"
    using assms(1,2) by (simp add: server_ok_def get_reply_channel_def)
  show "binding_step env (sv_binding sv) b" by (rule binding_step.receive [OF ch assms(3)])
  have "binding_ok (b_connections (sv_binding sv)) b"
    using assms(1) by (intro on_receive_message_ok [OF assms(3) _ channel_connected [OF ch]]) (simp add: server_ok_def)
  then show "server_ok (sv\<lparr>sv_binding := b\<rparr>)" by (rule server_okI [OF assms(1)])
qed

lemma server_register_connect_ok:
  assumes "server_ok sv" and "map_of (sv_connections sv) c \<noteq> None"
  shows "server_ok (server_register_connect identity c m sv)"
    and "(binding_step env)\<^sup>*\<^sup>* (sv_binding sv) (sv_binding (server_register_connect identity c m sv))"
    and "sv_connections (server_register_connect identity c m sv) = sv_connections sv"
proof -
  show "server_ok (server_register_connect identity c m sv)"
    using assms
    by (cases m) (auto simp: server_ok_def register_shared_memory_configurations_def Let_def notified_append update_conv')
  show "(binding_step env)\<^sup>*\<^sup>* (sv_binding sv) (sv_binding (server_register_connect identity c m sv))"
    using binding_step.configure [of env "sv_binding sv"] by (cases m) (auto simp: Let_def)
  show "sv_connections (server_register_connect identity c m sv) = sv_connections sv"
    by (cases m) (auto simp: Let_def)
qed

lemma server_message_ok:
  assumes "server_message_callback env ra identity c conn address data sv = Ok sv'"
    and "server_ok sv" and "map_of (sv_connections sv) c = Some conn"
  shows "server_ok sv' \<and> (binding_step env)\<^sup>*\<^sup>* (sv_binding sv) (sv_binding sv')"
proof -
  consider "sv' = sv" | sv1 b where "sv1 = sv \<or> (\<exists>m. sv1 = server_register_connect identity c m sv)"
      "on_receive_message env ra c conn address data (sv_binding sv1) = Ok b" "sv' = sv1\<lparr>sv_binding := b\<rparr>"
    using assms(1) by (auto simp: server_message_callback_def Let_def split: if_splits option.splits elim!: and_then_OkE)
  then show ?thesis
  proof cases
    case 1
    then show ?thesis using assms(2) by simp
  next
    case 2
    have 3: "server_ok sv1" "map_of (sv_connections sv1) c = Some conn" "(binding_step env)\<^sup>*\<^sup>* (sv_binding sv) (sv_binding sv1)"
      using 2(1) assms(2,3) server_register_connect_ok [OF assms(2), of c] by auto
    show ?thesis using on_receive_binding_step [OF 3(1,2) 2(2)] 3(3) 2(3) by auto
  qed
qed

lemma server_connect_ok:
  assumes "server_connect_callback conn sv = Ok (c, sv')" and "server_ok sv"
  shows "server_ok sv' \<and> binding_step env (sv_binding sv) (sv_binding sv')
    \<and> map_of (sv_connections sv) c = None \<and> map_of (sv_connections sv') c = Some conn"
proof -
  let ?b = "sv_binding sv" and ?c = "sv_next_client_id sv"
  let ?tab = "if map_of (sv_connections sv) ?c = None then AList.update ?c conn (sv_connections sv) else sv_connections sv"
  obtain b where b: "add_client ?c (get_or conn ?c ?tab) ?b = Ok b"
    and sv': "c = ?c" "sv' = sv\<lparr>sv_next_client_id := ?c + 1, sv_connections := ?tab, sv_binding := b\<rparr>"
    using assms(1) by (auto simp: server_connect_callback_def Let_def get_next_id_def elim!: and_then_OkE)
  have new: "?c \<notin> set (keys (b_connections ?b))" and b_eq: "b = ?b\<lparr>b_connections := b_connections ?b @ [(?c, get_or conn ?c ?tab)]\<rparr>"
    using b by (auto simp: add_client_def connections_add_client_Ok simp del: set_map elim!: and_then_OkE)
  have none: "map_of (sv_connections sv) ?c = None"
    using new assms(2) by (simp add: server_ok_def map_of_eq_None_iff)
  have bok: "binding_ok (b_connections b) b"
    by (rule add_client_ok [OF b, where T = "b_connections ?b"]) (use assms(2) in \<open>simp add: server_ok_def\<close>)
  have tab: "map_of (b_connections b) = (map_of (sv_connections sv))(?c \<mapsto> conn)"
    using none assms(2) by (auto simp: b_eq server_ok_def map_add_def fun_eq_iff get_or_def update_conv' split: option.splits)
  show ?thesis using assms(2) bok tab none binding_step.connect [OF b, of env]
    by (auto simp: sv' server_ok_def update_conv')
qed

lemma server_disconnect_ok:
  assumes "server_ok sv"
  shows "server_ok (server_disconnect_callback c sv)
    \<and> binding_step env (sv_binding sv) (sv_binding (server_disconnect_callback c sv))"
proof -
  let ?b = "sv_binding sv" and ?m = "notified (sv_changes sv)"
  have b: "sv_binding (server_disconnect_callback c sv) = remove_client c ?b"
    by (simp add: server_disconnect_callback_def Let_def split: option.splits)
  have ok: "binding_ok (b_connections (remove_client c ?b)) (remove_client c ?b)"
    using assms by (intro binding_ok_connections [OF remove_client_ok [where T = "b_connections ?b"]]) (simp add: server_ok_def)
  have T: "map_of (b_connections (remove_client c ?b)) = (map_of (b_connections ?b))(c := None)"
    by (simp add: remove_client_tables connections_remove_client_def delete_conv' fun_eq_iff)
  have "notified (sv_changes (server_disconnect_callback c sv)) = ?m(c := None)"
    and "map_of (sv_find_elements (server_disconnect_callback c sv)) = ?m(c := None)"
    and "map_of (sv_connections (server_disconnect_callback c sv)) = (map_of (sv_connections sv))(c := None)"
    using assms
    by (auto simp: server_disconnect_callback_def Let_def server_ok_def notified_append delete_conv' fun_eq_iff split: option.splits)
  then show ?thesis using assms ok T b binding_step.disconnect [of env ?b c] by (auto simp: server_ok_def)
qed

lemma server_step_ok:
  assumes "server_step env sv sv'" and "server_ok sv"
  shows "server_ok sv' \<and> (binding_step env)\<^sup>*\<^sup>* (sv_binding sv) (sv_binding sv')"
  using assms
proof cases
  case (start ok)
  then have "sv_binding sv' = sv_binding sv" "server_ok sv'"
    using assms(2) by (auto simp: server_start_def server_ok_def)
  then show ?thesis by simp
next
  case (connect conn c)
  then show ?thesis using server_connect_ok [OF connect assms(2)] by blast
next
  case (disconnect c)
  then show ?thesis using server_disconnect_ok [OF assms(2)] by blast
next
  case (message c conn ra identity address data)
  then show ?thesis using server_message_ok [OF message(2) assms(2) message(1)] by blast
next
  case (runtime cb b)
  have "binding_ok (b_connections (sv_binding sv)) b"
    using assms(2) by (intro run_runtime_callback_ok [OF runtime(2)]) (simp add: server_ok_def)
  then show ?thesis using server_okI [OF assms(2)] binding_step.callback [OF runtime(2)] runtime(1) by auto
next
  case (consumed c q h)
  have "server_ok sv'" unfolding consumed using assms(2) by (intro server_okI) (auto simp: server_ok_def)
  then show ?thesis using binding_step.consumed [of env "sv_binding sv" c q h] consumed by auto
next
  case (subscription c p e sub)
  have "server_ok sv'" unfolding subscription using assms(2) by (intro server_okI) (auto simp: server_ok_def)
  then show ?thesis using binding_step.subscription [of env "sv_binding sv" c p e sub] subscription by auto
qed

lemma Server_create_ok: "server_ok (Server_create cfg)"
  using binding_ok_connections [OF Binding_init_ok, of cfg]
  by (simp add: server_ok_def Server_create_def notified_def) (simp add: Binding_init_def)

lemma server_reachable_ok:
  assumes "(server_step env)\<^sup>*\<^sup>* (Server_create cfg) sv"
  shows "server_ok sv \<and> binding_reachable env cfg (sv_binding sv)"
  using assms
proof (induction rule: rtranclp_induct)
  case base
  then show ?case using Server_create_ok binding_reachable_init by (simp add: Server_create_def)
next
  case (step sv sv')
  then show ?case using server_step_ok [OF step(2)] unfolding binding_reachable_def by auto
qed


subsection \<open>Frames\<close>

definition message_bytes :: "(nat \<Rightarrow> u8) \<Rightarrow> cval list \<Rightarrow> cval list \<Rightarrow> message \<Rightarrow> u8 list" where
  "message_bytes p tl1 tl2 m = frame_bytes p (message_type m) (message_val tl1 tl2 m)"

lemma message_bytes_read:
  assumes "fits_message tl1 tl2 m" and "address mod 8 = 0"
  shows "message_bytes p tl1 tl2 m \<noteq> [] \<and> get_message_type (hd (message_bytes p tl1 tl2 m)) = Some (message_type m)
    \<and> check_and_cast (message_type m) address (message_bytes p tl1 tl2 m) = Some (message_val tl1 tl2 m)
    \<and> read_message (message_type m) (message_val tl1 tl2 m) = Some (Ok m)"
proof -
  note ty = message_val_type [OF assms(1)]
  have "address mod calign (c_Message_frame (message_type m)) = 0"
    using assms(2) calign_c_Message_frame_8 by (meson dvd_trans mod_0_imp_dvd mod_eq_0_iff_dvd)
  then show ?thesis
    using frame_bytes_hd [OF ty, of p "[]"] check_and_cast_frame [OF ty, of "message_type m" address p "[]"]
    by (simp add: message_bytes_def get_message_type_code read_message_val)
qed

lemma on_receive_frame:
  assumes "fits_message tl1 tl2 m" and "address mod 8 = 0"
  shows "on_receive_message env ra c ch address (message_bytes p tl1 tl2 m) b = handle_message env ra c ch m b"
  using message_bytes_read [OF assms, of p]
  by (cases m) (simp_all add: on_receive_message_def dispatched_types_def)

lemma server_receive_connect:
  assumes "fits_message tl1 tl2 (Connect els cfgs ident)" and "address mod 8 = 0"
  shows "server_message_callback env ra identity c conn address (message_bytes p tl1 tl2 (Connect els cfgs ident)) sv =
    (let sv1 = server_register_connect identity c (Connect els cfgs ident) sv in
     and_then (handle_connect_message env conn (sv_binding sv1)) (\<lambda>b. Ok (sv1\<lparr>sv_binding := b\<rparr>)))"
  using message_bytes_read [OF assms, of p] on_receive_frame [OF assms, of env ra c conn p]
  by (simp add: server_message_callback_def Let_def)

lemma client_receive_frame:
  assumes "fits_message tl1 tl2 m" and "address mod 8 = 0" and "message_type m \<noteq> MT_Connect_reply"
  shows "client_on_receive_message env ra address (message_bytes p tl1 tl2 m) cl =
    and_then (handle_message env ra client_id 0 m (cl_binding cl)) (\<lambda>b. Ok (cl\<lparr>cl_binding := b\<rparr>))"
  using message_bytes_read [OF assms(1,2), of p] on_receive_frame [OF assms(1,2), of env ra client_id 0 p] assms(3)
  by (simp add: client_on_receive_message_def Let_def)

definition demo_element :: Service_instance where
  "demo_element = \<lparr>si_service = demo_service CHR ''X'', si_instance = ''1''\<rparr>"

definition demo_config :: Service_shared_memory_config where
  "demo_config = \<lparr>cfg_service = demo_service CHR ''X'', cfg_instance = ''1'', cfg_metadata = demo_metadata\<rparr>"

definition demo_connect_bytes :: "u8 list" where
  "demo_connect_bytes = message_bytes (\<lambda>_. 0) (replicate 15 (v_Service_instance demo_element))
     (replicate 15 (v_config demo_config)) (Connect [demo_element] [demo_config] ''c'')"

lemma demo_connect_fits:
  "fits_message (replicate 15 (v_Service_instance demo_element)) (replicate 15 (v_config demo_config))
     (Connect [demo_element] [demo_config] ''c'')"
proof -
  have "fits_service (demo_service CHR ''X'')" "fits_instance ''1''" "fits_metadata demo_metadata"
    by (simp_all add: fits_service_def fits_instance_def fits_metadata_def demo_service_def demo_metadata_def
        kMax_service_id_size_def kMax_instance_id_size_def kMax_shared_memory_path_size_def)
  then show ?thesis
    by (simp add: demo_element_def demo_config_def kMax_find_service_elements_def kMax_client_identifier_size_def
        c_Service_instance_def v_Service_instance_def c_Service_shared_memory_config_def v_config_def field_types list_all_iff)
qed



end
