(* ===== verification/String_Registry.thy ===== *)
theory String_Registry
  imports Prelude
begin

text \<open>
  The string registry of SOCom (\<^verbatim>\<open>socom/string_registry.hpp\<close>, \<^verbatim>\<open>socom/impl/string_registry.cpp\<close>) and
  the views it hands out (\<^verbatim>\<open>socom/registry_string_view.hpp\<close>).

  Views are compared by address and length, so the registry must give equal strings one
  address. A view is an address and a length into a memory of characters. The
  \<^verbatim>\<open>std::unordered_set<std::string_view>\<close> is a list of views whose contents differ; its order is
  arbitrary. A string that is copied into the registry goes to the address \<open>fresh\<close> that the
  allocator returns, followed by a null character as in \<^verbatim>\<open>std::string\<close>. The overload for
  temporary strings looks for an entry by comparing the entry's \<^verbatim>\<open>data()\<close>, a pointer to
  characters up to the next null character, with the new string.
\<close>

type_synonym memory = "nat \<Rightarrow> char"

abbreviation NUL :: char where
  "NUL \<equiv> CHR 0x00"

record Registry_string_view =
  v_data :: nat
  v_length :: nat

definition view_string :: "memory \<Rightarrow> Registry_string_view \<Rightarrow> string" where
  "view_string m v = map m [v_data v..<v_data v + v_length v]"

definition view_eq :: "Registry_string_view \<Rightarrow> Registry_string_view \<Rightarrow> bool" where
  "view_eq lhs rhs \<longleftrightarrow> v_data lhs = v_data rhs \<and> v_length lhs = v_length rhs"

fun string_less :: "string \<Rightarrow> string \<Rightarrow> bool" where
  "string_less s [] = False"
| "string_less [] (c # t) = True"
| "string_less (a # s) (c # t) = ((of_char a :: nat) < of_char c \<or> (a = c \<and> string_less s t))"

definition view_less :: "memory \<Rightarrow> Registry_string_view \<Rightarrow> Registry_string_view \<Rightarrow> bool" where
  "view_less m lhs rhs = string_less (view_string m lhs) (view_string m rhs)"

definition view_hash :: "(nat \<Rightarrow> size_t) \<Rightarrow> Registry_string_view \<Rightarrow> size_t" where
  "view_hash hash_ptr v = hash_ptr (v_data v)"

definition view_empty :: "Registry_string_view \<Rightarrow> bool" where
  "view_empty v = (v_length v = 0)"

text \<open>\<^verbatim>\<open>char const* == std::string\<close>.\<close>

definition c_string_eq :: "memory \<Rightarrow> nat \<Rightarrow> string \<Rightarrow> bool" where
  "c_string_eq m a s \<longleftrightarrow> map m [a..<a + length s] = s \<and> NUL \<notin> set s \<and> m (a + length s) = NUL"

definition write_string :: "nat \<Rightarrow> string \<Rightarrow> memory \<Rightarrow> memory" where
  "write_string a s m = (\<lambda>i. if a \<le> i \<and> i < a + length s then s ! (i - a) else if i = a + length s then NUL else m i)"

type_synonym registry = "Registry_string_view list"

definition insert_literal ::
    "memory \<Rightarrow> Registry_string_view \<Rightarrow> registry \<Rightarrow> (Registry_string_view \<times> bool) \<times> registry" where
  "insert_literal m new_string reg =
    (case find (\<lambda>e. view_string m e = view_string m new_string) reg of
       Some e \<Rightarrow> ((e, False), reg)
     | None \<Rightarrow> ((new_string, True), reg @ [new_string]))"

definition insert_view ::
    "nat \<Rightarrow> string \<Rightarrow> memory \<times> registry \<Rightarrow> (Registry_string_view \<times> bool) \<times> memory \<times> registry" where
  "insert_view fresh new_string st =
    (let (m, reg) = st in
     case find (\<lambda>e. view_string m e = new_string) reg of
       Some e \<Rightarrow> ((e, False), st)
     | None \<Rightarrow> let v = \<lparr>v_data = fresh, v_length = length new_string\<rparr> in
         ((v, True), write_string fresh new_string m, reg @ [v]))"

definition insert_temporary ::
    "nat \<Rightarrow> string \<Rightarrow> memory \<times> registry \<Rightarrow> (Registry_string_view \<times> bool) \<times> memory \<times> registry" where
  "insert_temporary fresh new_string st =
    (let (m, reg) = st in
     case find (\<lambda>e. c_string_eq m (v_data e) new_string) reg of
       Some e \<Rightarrow> ((e, False), st)
     | None \<Rightarrow> let v = \<lparr>v_data = fresh, v_length = length new_string\<rparr>; m' = write_string fresh new_string m in
         (case find (\<lambda>e. view_string m' e = new_string) reg of
            Some e \<Rightarrow> ((e, False), m', reg)
          | None \<Rightarrow> ((v, True), m', reg @ [v])))"

subsection \<open>Interning\<close>

text \<open>Contents differ between entries, and the block the allocator returns overlaps none of them.\<close>

definition registry_ok :: "memory \<times> registry \<Rightarrow> bool" where
  "registry_ok st \<longleftrightarrow> distinct (map (view_string (fst st)) (snd st))"

definition fresh_for :: "nat \<Rightarrow> nat \<Rightarrow> registry \<Rightarrow> bool" where
  "fresh_for a n reg \<longleftrightarrow> (\<forall>e \<in> set reg. v_data e + v_length e \<le> a \<or> a + n < v_data e)"

text \<open>Entries whose contents are C strings: no null character inside and one right behind.\<close>

definition terminated :: "memory \<times> registry \<Rightarrow> bool" where
  "terminated st \<longleftrightarrow> (\<forall>e \<in> set (snd st). NUL \<notin> set (view_string (fst st) e) \<and> fst st (v_data e + v_length e) = NUL)"

lemma view_string_length [simp]: "length (view_string m v) = v_length v"
  by (simp add: view_string_def)

lemma view_string_write_old:
  assumes "v_data e + v_length e \<le> a \<or> a + length s < v_data e"
  shows "view_string (write_string a s m) e = view_string m e"
  using assms by (auto simp: view_string_def write_string_def)

lemma view_string_write_new: "view_string (write_string a s m) \<lparr>v_data = a, v_length = length s\<rparr> = s"
  by (rule nth_equalityI) (simp_all add: view_string_def write_string_def)

lemma views_agree:
  assumes "registry_ok (m, reg)" and "e \<in> set reg" and "f \<in> set reg"
  shows "view_eq e f \<longleftrightarrow> view_string m e = view_string m f"
proof
  assume "view_string m e = view_string m f"
  then show "view_eq e f" using assms by (auto simp: registry_ok_def distinct_map inj_on_def view_eq_def)
qed (simp add: view_eq_def view_string_def)

lemma find_registered:
  "find (\<lambda>e. view_string m e = s) reg = Some e \<Longrightarrow> e \<in> set reg \<and> view_string m e = s"
  by (auto simp: find_Some_iff)

lemma find_not_registered:
  "find (\<lambda>e. view_string m e = s) reg = None \<Longrightarrow> s \<notin> view_string m ` set reg"
  by (auto simp: find_None_iff)

lemma registry_ok_added:
  assumes "registry_ok (m, reg)" and "fresh_for a (length s) reg" and "s \<notin> view_string m ` set reg"
  shows "registry_ok (write_string a s m, reg @ [\<lparr>v_data = a, v_length = length s\<rparr>])"
proof -
  have eq: "map (view_string (write_string a s m)) reg = map (view_string m) reg"
    using assms(2) by (intro map_cong) (auto simp: fresh_for_def intro!: view_string_write_old)
  then have "view_string (write_string a s m) ` set reg = view_string m ` set reg" by (metis list.set_map)
  then show ?thesis using assms(1,3) eq by (simp add: registry_ok_def view_string_write_new del: map_eq_conv)
qed

lemma insert_view_interns:
  assumes "registry_ok (m, reg)" and "fresh_for a (length s) reg" and "insert_view a s (m, reg) = ((v, new), m', reg')"
  shows "registry_ok (m', reg')" and "v \<in> set reg'" and "view_string m' v = s" and "set reg \<subseteq> set reg'"
    and "e \<in> set reg \<Longrightarrow> view_string m' e = view_string m e" and "new \<longleftrightarrow> s \<notin> view_string m ` set reg"
proof -
  have "registry_ok (m', reg') \<and> v \<in> set reg' \<and> view_string m' v = s \<and> set reg \<subseteq> set reg'
      \<and> (\<forall>e \<in> set reg. view_string m' e = view_string m e) \<and> (new \<longleftrightarrow> s \<notin> view_string m ` set reg)"
  proof (cases "find (\<lambda>e. view_string m e = s) reg")
    case None
    then show ?thesis
      using assms registry_ok_added [OF assms(1,2) find_not_registered [OF None]] find_not_registered [OF None]
      by (auto simp: insert_view_def Let_def view_string_write_new fresh_for_def view_string_write_old)
  next
    case (Some e)
    then show ?thesis using assms find_registered [OF Some] by (auto simp: insert_view_def)
  qed
  then show "registry_ok (m', reg')" "v \<in> set reg'" "view_string m' v = s" "set reg \<subseteq> set reg'"
    "e \<in> set reg \<Longrightarrow> view_string m' e = view_string m e" "new \<longleftrightarrow> s \<notin> view_string m ` set reg"
    by blast+
qed

lemma c_string_eq_terminated:
  assumes "NUL \<notin> set (view_string m e)" and "m (v_data e + v_length e) = NUL" and "NUL \<notin> set s"
  shows "c_string_eq m (v_data e) s \<longleftrightarrow> view_string m e = s"
proof
  assume c: "c_string_eq m (v_data e) s"
  have nz: "m (v_data e + i) \<noteq> NUL" if "i < length s" for i
  proof -
    have "s ! i = map m [v_data e..<v_data e + length s] ! i" using c by (simp add: c_string_eq_def)
    also have "\<dots> = m (v_data e + i)" using that by simp
    finally show ?thesis using c nth_mem [OF that] by (auto simp: c_string_eq_def)
  qed
  have nz': "m (v_data e + i) \<noteq> NUL" if "i < v_length e" for i
  proof -
    have "m (v_data e + i) \<in> set (view_string m e)" using that by (simp add: view_string_def)
    then show ?thesis using assms(1) by metis
  qed
  have "\<not> v_length e < length s" using nz [of "v_length e"] assms(2) by auto
  moreover have "\<not> length s < v_length e" using nz' [of "length s"] c by (auto simp: c_string_eq_def)
  ultimately show "view_string m e = s" using c by (simp add: c_string_eq_def view_string_def)
next
  assume "view_string m e = s"
  then show "c_string_eq m (v_data e) s" using assms by (auto simp: c_string_eq_def view_string_def)
qed

text \<open>The overload for temporary strings agrees with the other one as long as the entries are C strings.\<close>

lemma insert_temporary_eq:
  assumes "terminated (m, reg)" and "NUL \<notin> set s" and "fresh_for a (length s) reg"
  shows "insert_temporary a s (m, reg) = insert_view a s (m, reg)"
proof -
  have c: "c_string_eq m (v_data e) s \<longleftrightarrow> view_string m e = s" if "e \<in> set reg" for e
    using that assms(1,2) by (intro c_string_eq_terminated) (auto simp: terminated_def)
  then have f: "find (\<lambda>e. c_string_eq m (v_data e) s) reg = find (\<lambda>e. view_string m e = s) reg"
    by (intro find_cong) auto
  have g: "find (\<lambda>e. view_string (write_string a s m) e = s) reg = find (\<lambda>e. view_string m e = s) reg"
    using assms(3) by (intro find_cong) (auto simp: fresh_for_def view_string_write_old)
  show ?thesis by (simp add: insert_temporary_def insert_view_def f g Let_def split: option.splits)
qed

text \<open>It does not agree in general: an entry that is the beginning of a longer literal is taken for
  the whole literal.\<close>

lemma insert_temporary_confuses:
  "\<exists>m reg v. registry_ok (m, reg) \<and> fresh_for 100 3 reg \<and> insert_temporary 100 ''abc'' (m, reg) = ((v, False), m, reg)
     \<and> view_string m v = ''ab''"
  by (intro exI [of _ "write_string 0 ''abc'' (\<lambda>_. NUL)"] exI [of _ "[\<lparr>v_data = 0, v_length = 2\<rparr>]"]
      exI [of _ "\<lparr>v_data = 0, v_length = 2\<rparr>"])
    (simp add: registry_ok_def fresh_for_def insert_temporary_def c_string_eq_def write_string_def view_string_def
      numeral_3_eq_3 numeral_2_eq_2 upt_rec)

lemma insert_literal_interns:
  assumes "registry_ok (m, reg)" and "insert_literal m l reg = ((v, new), reg')"
  shows "registry_ok (m, reg') \<and> v \<in> set reg' \<and> view_string m v = view_string m l \<and> set reg \<subseteq> set reg'"
proof (cases "find (\<lambda>e. view_string m e = view_string m l) reg")
  case None
  then show ?thesis using assms find_not_registered [OF None] by (auto simp: insert_literal_def registry_ok_def)
next
  case (Some e)
  then show ?thesis using assms find_registered [OF Some] by (auto simp: insert_literal_def)
qed



end
