(* ===== verification/Socom_Identifiers.thy ===== *)
theory Socom_Identifiers
  imports Ipc_Types String_Registry
begin

text \<open>
  Identifiers of SOCom: versions, service interfaces, instances and definitions
  (\<^verbatim>\<open>socom/service_interface_identifier.hpp\<close>, \<^verbatim>\<open>socom/service_interface_definition.hpp\<close> and
  \<^verbatim>\<open>.cpp\<close>, \<^verbatim>\<open>socom/impl/service_identifier.cpp\<close>).

  The identifiers hold views into the string registries. As equality of views is equality of
  strings there, see the theory of the registry, an identifier is modelled with the string
  itself.
\<close>

definition version_eq :: "Version \<Rightarrow> Version \<Rightarrow> bool" where
  "version_eq lhs rhs \<longleftrightarrow> major lhs = major rhs \<and> minor lhs = minor rhs"

definition version_less :: "Version \<Rightarrow> Version \<Rightarrow> bool" where
  "version_less lhs rhs \<longleftrightarrow> major lhs < major rhs \<or> (\<not> major rhs < major lhs \<and> minor lhs < minor rhs)"

definition instance_less :: "string \<Rightarrow> string \<Rightarrow> bool" where
  "instance_less lhs rhs = string_less lhs rhs"

definition sii_eq :: "Service_interface_identifier \<Rightarrow> Service_interface_identifier \<Rightarrow> bool" where
  "sii_eq lhs rhs \<longleftrightarrow> sii_id lhs = sii_id rhs \<and> version_eq (sii_version lhs) (sii_version rhs)"

definition sii_less :: "Service_interface_identifier \<Rightarrow> Service_interface_identifier \<Rightarrow> bool" where
  "sii_less lhs rhs \<longleftrightarrow> string_less (sii_id lhs) (sii_id rhs)
     \<or> (\<not> string_less (sii_id rhs) (sii_id lhs) \<and> version_less (sii_version lhs) (sii_version rhs))"

definition sii_hash :: "(string \<Rightarrow> size_t) \<Rightarrow> (u16 \<Rightarrow> size_t) \<Rightarrow> Service_interface_identifier \<Rightarrow> size_t" where
  "sii_hash hash_view hash_u16 s =
    (let h1 = hash_view (sii_id s); h2 = hash_u16 (major (sii_version s)); h3 = hash_u16 (minor (sii_version s)) in
     (h1 XOR push_bit 1 h2) XOR push_bit 2 h3)"

record Service_interface_definition =
  def_interface :: Service_interface_identifier
  def_num_methods :: u16
  def_num_events :: u16

text \<open>The conversion to the 16-bit counters keeps the low 16 bits.\<close>

definition to_num_of_events :: "size_t \<Rightarrow> u16" where
  "to_num_of_events value = ucast value"

definition to_num_of_methods :: "size_t \<Rightarrow> u16" where
  "to_num_of_methods value = ucast value"

definition make_definition :: "Service_interface_identifier \<Rightarrow> u16 \<Rightarrow> u16 \<Rightarrow> Service_interface_definition" where
  "make_definition sif methods events = \<lparr>def_interface = sif, def_num_methods = methods, def_num_events = events\<rparr>"

definition make_definition_without_members :: "Service_interface_identifier \<Rightarrow> Service_interface_definition" where
  "make_definition_without_members sif = \<lparr>def_interface = sif, def_num_methods = 0, def_num_events = 0\<rparr>"

definition def_less :: "Service_interface_definition \<Rightarrow> Service_interface_definition \<Rightarrow> bool" where
  "def_less lhs rhs = sii_less (def_interface lhs) (def_interface rhs)"

definition def_eq :: "Service_interface_definition \<Rightarrow> Service_interface_definition \<Rightarrow> bool run" where
  "def_eq lhs rhs =
    (let is_equal = (\<not> def_less lhs rhs \<and> \<not> def_less rhs lhs) in
     assert_run (\<not> is_equal \<or> (def_num_events lhs = def_num_events rhs \<and> def_num_methods lhs = def_num_methods rhs))
       (Ok is_equal))"

record Service_instance_identifier =
  ident_interface :: Service_interface_identifier
  ident_instance :: string

definition instance_identifier_less :: "Service_instance_identifier \<Rightarrow> Service_instance_identifier \<Rightarrow> bool" where
  "instance_identifier_less lhs rhs \<longleftrightarrow> instance_less (ident_instance lhs) (ident_instance rhs)
     \<or> (\<not> instance_less (ident_instance rhs) (ident_instance lhs) \<and> sii_less (ident_interface lhs) (ident_interface rhs))"

subsection \<open>Orders\<close>

lemma string_less_irrefl [simp]: "\<not> string_less s s"
  by (induction s) auto

lemma string_less_linear: "string_less s t \<or> s = t \<or> string_less t s"
proof (induction s t rule: string_less.induct)
  case (1 s)
  then show ?case by (cases s) auto
next
  case (3 a s c t)
  have "(of_char a :: nat) = of_char c \<Longrightarrow> a = c" by simp
  then show ?case using 3 by (auto simp: not_less_iff_gr_or_eq)
qed simp

lemma string_less_trans: "string_less s t \<Longrightarrow> string_less t u \<Longrightarrow> string_less s u"
proof (induction s t arbitrary: u rule: string_less.induct)
  case (2 c t)
  then show ?case by (cases u) auto
next
  case (3 a s c t)
  then show ?case by (cases u) auto
qed simp

lemma string_less_asym: "string_less s t \<Longrightarrow> \<not> string_less t s"
  using string_less_trans [of s t s] by auto

lemma version_less_linear: "version_less a b \<or> a = b \<or> version_less b a"
  by (auto simp: version_less_def not_less intro: Version.equality)

lemma sii_less_irrefl [simp]: "\<not> sii_less a a"
  by (simp add: sii_less_def version_less_def)

lemma sii_equality: "sii_id a = sii_id b \<Longrightarrow> sii_version a = sii_version b \<Longrightarrow> (a :: Service_interface_identifier) = b"
  by (rule Service_interface_identifier.equality) simp_all

lemma sii_less_linear: "sii_less a b \<or> a = b \<or> sii_less b a"
  using string_less_linear [of "sii_id a" "sii_id b"] version_less_linear [of "sii_version a" "sii_version b"]
  by (auto simp: sii_less_def intro: sii_equality)

text \<open>Two definitions are equivalent in the order of the runtime's maps exactly when their
  interfaces are equal; comparing definitions of one interface with different member counts
  fails the assertion.\<close>

lemma def_equiv: "\<not> def_less a b \<and> \<not> def_less b a \<longleftrightarrow> def_interface a = def_interface b"
  using sii_less_linear [of "def_interface a" "def_interface b"] by (auto simp: def_less_def)

lemma def_eq_result:
  "def_eq a b =
    (if def_interface a \<noteq> def_interface b then Ok False
     else if def_num_events a = def_num_events b \<and> def_num_methods a = def_num_methods b then Ok True else Err Assert_failed)"
  using def_equiv [of a b] by (auto simp: def_eq_def Let_def assert_run_def)

lemma to_num_of_events_wraps: "unat (to_num_of_events v) = unat v mod 65536"
  by (simp add: to_num_of_events_def unsigned_ucast_eq take_bit_eq_mod)

end
