(* ===== verification/Error_Domains.thy ===== *)
theory Error_Domains
  imports Ipc_Errors
begin

text \<open>
  Error codes of SOCom (\<^verbatim>\<open>socom/error.hpp\<close>, \<^verbatim>\<open>socom/impl/error.cpp\<close>) and of the SOME/IP library
  (\<^verbatim>\<open>someip/someip_error.h\<close>, \<^verbatim>\<open>someip/impl/someip_error.cpp\<close>), with the numbering of the
  enumerations and the texts of the error domains.
\<close>

datatype Error =
    runtime_error_service_not_available
  | runtime_error_request_rejected
  | logic_error_id_out_of_range
  | runtime_error_malformed_payload
  | runtime_error_permission_not_allowed

datatype Server_connector_error =
    server_logic_error_id_out_of_range
  | runtime_error_no_client_subscribed_for_event

datatype Construction_error = duplicate_service | duplicate_client | callback_missing

datatype Errc =
    kInitializationFailed | kInvalidConfiguration | kRuntimeError | kMessageTooLarge
  | kSerializationError | kServiceNotFound | kMethodNotFound | kEventNotFound | kFieldNotFound
  | kInvalidMessage | kUnknownError

fun error_code :: "Error \<Rightarrow> int" where
  "error_code runtime_error_service_not_available = 0"
| "error_code runtime_error_request_rejected = 1"
| "error_code logic_error_id_out_of_range = 2"
| "error_code runtime_error_malformed_payload = 3"
| "error_code runtime_error_permission_not_allowed = 4"

fun server_connector_code :: "Server_connector_error \<Rightarrow> int" where
  "server_connector_code server_logic_error_id_out_of_range = 0"
| "server_connector_code runtime_error_no_client_subscribed_for_event = 1"

fun construction_code :: "Construction_error \<Rightarrow> int" where
  "construction_code duplicate_service = 0"
| "construction_code duplicate_client = 1"
| "construction_code callback_missing = 2"

fun errc_code :: "Errc \<Rightarrow> int" where
  "errc_code kInitializationFailed = 0"
| "errc_code kInvalidConfiguration = 1"
| "errc_code kRuntimeError = 2"
| "errc_code kMessageTooLarge = 3"
| "errc_code kSerializationError = 4"
| "errc_code kServiceNotFound = 5"
| "errc_code kMethodNotFound = 6"
| "errc_code kEventNotFound = 7"
| "errc_code kFieldNotFound = 8"
| "errc_code kInvalidMessage = 9"
| "errc_code kUnknownError = 10"

definition Error_MessageFor :: "int \<Rightarrow> string" where
  "Error_MessageFor code =
    (if code = 0 then ''Service not available''
     else if code = 1 then ''Request rejected''
     else if code = 2 then ''ID out of range''
     else if code = 3 then ''Malformed payload''
     else if code = 4 then ''Permission not allowed''
     else ''Unknown Error'')"

definition Server_connector_MessageFor :: "int \<Rightarrow> string" where
  "Server_connector_MessageFor code =
    (if code = 0 then ''ID out of range''
     else if code = 1 then ''No client subscribed for event''
     else ''Unknown Error'')"

definition Construction_MessageFor :: "int \<Rightarrow> string" where
  "Construction_MessageFor code =
    (if code = 0 then ''Duplicate service''
     else if code = 1 then ''Duplicate client''
     else if code = 2 then ''Callback missing''
     else ''Unknown Error'')"

definition Someip_MessageFor :: "int \<Rightarrow> string" where
  "Someip_MessageFor code =
    (if code = 0 then ''Initialization of the SOME/IP stack failed.''
     else if code = 1 then ''The provided configuration is invalid.''
     else if code = 2 then ''A runtime error occurred in the SOME/IP stack.''
     else if code = 3 then ''The message exceeds the maximum allowed size.''
     else if code = 4 then ''An error occurred during message serialization or deserialization.''
     else if code = 5 then ''The requested service was not found.''
     else if code = 6 then ''The requested method was not found.''
     else if code = 7 then ''The requested event was not found.''
     else if code = 8 then ''The requested field was not found.''
     else if code = 9 then ''The received message is invalid or malformed.''
     else if code = 10 then ''An unknown error occurred.''
     else ''Unknown SOME/IP error.'')"

definition MakeError_error :: "Error \<Rightarrow> string \<Rightarrow> error_value" where
  "MakeError_error c um =
    \<lparr>err_code = error_code c, err_message = Error_MessageFor (error_code c), err_user_message = um\<rparr>"

definition MakeError_server_connector :: "Server_connector_error \<Rightarrow> string \<Rightarrow> error_value" where
  "MakeError_server_connector c um =
    \<lparr>err_code = server_connector_code c, err_message = Server_connector_MessageFor (server_connector_code c),
     err_user_message = um\<rparr>"

definition MakeError_construction :: "Construction_error \<Rightarrow> string \<Rightarrow> error_value" where
  "MakeError_construction c um =
    \<lparr>err_code = construction_code c, err_message = Construction_MessageFor (construction_code c), err_user_message = um\<rparr>"

definition MakeError_someip :: "Errc \<Rightarrow> string \<Rightarrow> error_value" where
  "MakeError_someip c um =
    \<lparr>err_code = errc_code c, err_message = Someip_MessageFor (errc_code c), err_user_message = um\<rparr>"

lemmas error_text_defs = Error_MessageFor_def Server_connector_MessageFor_def Construction_MessageFor_def Someip_MessageFor_def

text \<open>The texts tell the codes of one domain apart, and no code gets the text of the default branch.\<close>

lemma error_texts_distinct: "Error_MessageFor (error_code a) = Error_MessageFor (error_code b) \<longleftrightarrow> a = b"
  by (cases a; cases b; simp add: error_text_defs)

lemma construction_texts_distinct:
  "Construction_MessageFor (construction_code a) = Construction_MessageFor (construction_code b) \<longleftrightarrow> a = b"
  by (cases a; cases b; simp add: error_text_defs)

lemma server_connector_texts_distinct:
  "Server_connector_MessageFor (server_connector_code a) = Server_connector_MessageFor (server_connector_code b) \<longleftrightarrow> a = b"
  by (cases a; cases b; simp add: error_text_defs)

lemma someip_texts_distinct:
  "Someip_MessageFor (errc_code a) = Someip_MessageFor (errc_code b) \<longleftrightarrow> a = b"
  by (cases a; cases b; simp add: error_text_defs)

lemma someip_texts_known: "Someip_MessageFor (errc_code a) \<noteq> ''Unknown SOME/IP error.''"
  by (cases a) (simp_all add: error_text_defs)

end
