(* ===== verification/Server_Connector.thy ===== *)
theory Server_Connector
  imports Socom_Identifiers Error_Domains Socom_Payload
begin

text \<open>
  The server connector of SOCom (\<^verbatim>\<open>socom/impl/server_connector_impl.hpp\<close> and \<^verbatim>\<open>.cpp\<close>): the events
  of a provided service instance, the client connected to it, and the requests that client
  sends.

  A server has at most one client connection; a pointer to it in an \<^verbatim>\<open>Event\<close> is the number of
  the client connector. The application's callbacks are returned as a list of
  \<open>server_callback\<close>s; what a callback returns is an argument of the operation. The operations
  that involve the runtime or the client connector are in the theory of the runtime.
\<close>

type_synonym client_ref = nat
type_synonym server_ref = nat

datatype Event_mode = update | update_and_initial_value

record Posix_credentials =
  uid :: u32
  gid :: u32

datatype 'p server_callback =
    On_event_subscription_change Event_id bool
  | On_event_update_request Event_id
  | On_method_call Method_id 'p "client_ref option" Posix_credentials
  | On_method_call_payload_allocate Method_id

text \<open>\<^verbatim>\<open>m_subscriber\<close> and \<^verbatim>\<open>m_update_requester\<close> have one entry per event.\<close>

record Server_connector =
  sc_configuration :: Service_interface_definition
  sc_instance :: string
  sc_registered :: bool
  sc_stop_block_token :: bool
  sc_subscriber :: "client_ref option list"
  sc_update_requester :: "client_ref option list"
  sc_event_infos :: "Event_mode list"
  sc_client :: "client_ref option"
  sc_credentials :: Posix_credentials

definition num_events_of :: "Service_interface_definition \<Rightarrow> nat" where
  "num_events_of cfg = unat (def_num_events cfg)"

definition Server_connector_init ::
    "Service_interface_definition \<Rightarrow> string \<Rightarrow> Posix_credentials \<Rightarrow> Server_connector" where
  "Server_connector_init cfg inst cred =
    \<lparr>sc_configuration = cfg, sc_instance = inst, sc_registered = False, sc_stop_block_token = False,
     sc_subscriber = replicate (num_events_of cfg) None, sc_update_requester = replicate (num_events_of cfg) None,
     sc_event_infos = replicate (num_events_of cfg) update, sc_client = None, sc_credentials = cred\<rparr>"

subsection \<open>Events of the provider\<close>

text \<open>The client the update goes to, if any.\<close>

definition sc_update_event :: "Event_id \<Rightarrow> Server_connector \<Rightarrow> (Server_connector_error, client_ref option) result" where
  "sc_update_event server_id sc =
    (if server_id \<ge> def_num_events (sc_configuration sc) then Err server_logic_error_id_out_of_range
     else Ok (sc_subscriber sc ! unat server_id))"

definition sc_update_requested_event ::
    "Event_id \<Rightarrow> Server_connector \<Rightarrow> (Server_connector_error, client_ref option) result \<times> Server_connector" where
  "sc_update_requested_event server_id sc =
    (if server_id \<ge> def_num_events (sc_configuration sc) then (Err server_logic_error_id_out_of_range, sc)
     else (Ok (sc_update_requester sc ! unat server_id),
           sc\<lparr>sc_update_requester := (sc_update_requester sc)[unat server_id := None]\<rparr>))"

definition sc_get_event_mode :: "Event_id \<Rightarrow> Server_connector \<Rightarrow> (Server_connector_error, Event_mode) result" where
  "sc_get_event_mode server_id sc =
    (if server_id \<ge> def_num_events (sc_configuration sc) then Err server_logic_error_id_out_of_range
     else Ok (sc_event_infos sc ! unat server_id))"

text \<open>\<open>answer\<close> is what the subscribed client's allocation callback returns.\<close>

definition sc_allocate_event_payload ::
    "(client_ref \<Rightarrow> (Server_connector_error, 'p) result) \<Rightarrow> Event_id \<Rightarrow> Server_connector \<Rightarrow> (Server_connector_error, 'p) result" where
  "sc_allocate_event_payload answer event_id sc =
    (if event_id \<ge> def_num_events (sc_configuration sc) then Err server_logic_error_id_out_of_range
     else (case sc_subscriber sc ! unat event_id of
             None \<Rightarrow> Err runtime_error_no_client_subscribed_for_event
           | Some c \<Rightarrow> answer c))"

subsection \<open>Subscriptions\<close>

definition sc_unsubscribe_all :: "Server_connector \<Rightarrow> Server_connector" where
  "sc_unsubscribe_all sc =
    sc\<lparr>sc_subscriber := map (\<lambda>_. None) (sc_subscriber sc), sc_update_requester := map (\<lambda>_. None) (sc_update_requester sc)\<rparr>"

definition sc_unsubscribe_event :: "Event_id \<Rightarrow> Server_connector \<Rightarrow> 'p server_callback list \<times> Server_connector" where
  "sc_unsubscribe_event eid sc =
    (let was_subscribed = (sc_subscriber sc ! unat eid \<noteq> None);
         sc' = sc\<lparr>sc_subscriber := (sc_subscriber sc)[unat eid := None],
                  sc_update_requester := (sc_update_requester sc)[unat eid := None]\<rparr> in
     (if was_subscribed then [On_event_subscription_change eid False] else [], sc'))"

fun sc_unsubscribe_events :: "Event_id list \<Rightarrow> Server_connector \<Rightarrow> 'p server_callback list \<times> Server_connector" where
  "sc_unsubscribe_events [] sc = ([], sc)"
| "sc_unsubscribe_events (eid # eids) sc =
    (let (cbs, sc1) = sc_unsubscribe_event eid sc; (cbs', sc2) = sc_unsubscribe_events eids sc1 in (cbs @ cbs', sc2))"

definition sc_unsubscribe_client :: "Server_connector \<Rightarrow> 'p server_callback list \<times> Server_connector" where
  "sc_unsubscribe_client sc = sc_unsubscribe_events (map of_nat [0..<num_events_of (sc_configuration sc)]) sc"

text \<open>The dereference of the optional client is a fault when there is none.\<close>

definition sc_remove_client :: "Server_connector \<Rightarrow> ('p server_callback list \<times> Server_connector) run" where
  "sc_remove_client sc =
    (case sc_client sc of
       None \<Rightarrow> Err Null_deref
     | Some c \<Rightarrow> let (cbs, sc') = sc_unsubscribe_client sc in Ok (cbs, sc'\<lparr>sc_client := None\<rparr>))"

subsection \<open>Messages of the client connector\<close>

definition sc_receive_connect :: "client_ref \<Rightarrow> Server_connector \<Rightarrow> ((Error, unit) result \<times> Server_connector) run" where
  "sc_receive_connect c sc =
    (if \<not> sc_stop_block_token sc then Ok (Err runtime_error_service_not_available, sc)
     else assert_run (sc_client sc = None) (Ok (Ok (), sc\<lparr>sc_client := Some c\<rparr>)))"

definition sc_receive_call_method ::
    "Method_id \<Rightarrow> 'p \<Rightarrow> client_ref option \<Rightarrow> Posix_credentials \<Rightarrow> Server_connector \<Rightarrow> (Error, 'p server_callback) result" where
  "sc_receive_call_method mid payload reply_to cred sc =
    (if mid \<ge> def_num_methods (sc_configuration sc) then Err logic_error_id_out_of_range
     else Ok (On_method_call mid payload reply_to cred))"

definition sc_receive_allocate_method_call_payload :: "Method_id \<Rightarrow> Server_connector \<Rightarrow> (Error, 'p server_callback) result" where
  "sc_receive_allocate_method_call_payload mid sc =
    (if mid \<ge> def_num_methods (sc_configuration sc) then Err logic_error_id_out_of_range
     else Ok (On_method_call_payload_allocate mid))"

definition sc_receive_posix_credentials :: "Server_connector \<Rightarrow> Posix_credentials" where
  "sc_receive_posix_credentials sc = sc_credentials sc"

definition sc_receive_subscribe_event ::
    "client_ref \<Rightarrow> Event_id \<Rightarrow> Event_mode \<Rightarrow> Server_connector \<Rightarrow> ((Error, unit) result \<times> 'p server_callback list) \<times> Server_connector" where
  "sc_receive_subscribe_event c eid mode sc =
    (if unat eid \<ge> length (sc_event_infos sc) then ((Err logic_error_id_out_of_range, []), sc)
     else let already_subscribed = (sc_subscriber sc ! unat eid \<noteq> None);
              already_update_requester = (sc_update_requester sc ! unat eid \<noteq> None);
              is_update_requester = (mode = update_and_initial_value);
              sc1 = sc\<lparr>sc_subscriber := (sc_subscriber sc)[unat eid := Some c]\<rparr>;
              sc2 = (if is_update_requester
                     then sc1\<lparr>sc_update_requester := (sc_update_requester sc1)[unat eid := Some c],
                              sc_event_infos := (sc_event_infos sc1)[unat eid := update_and_initial_value]\<rparr>
                     else sc1) in
       ((Ok (), (if already_subscribed then [] else [On_event_subscription_change eid True])
              @ (if is_update_requester \<and> \<not> already_update_requester then [On_event_update_request eid] else [])), sc2))"

definition sc_receive_unsubscribe_event ::
    "Event_id \<Rightarrow> Server_connector \<Rightarrow> ((Error, unit) result \<times> 'p server_callback list) \<times> Server_connector" where
  "sc_receive_unsubscribe_event eid sc =
    (if unat eid \<ge> length (sc_event_infos sc) then ((Err logic_error_id_out_of_range, []), sc)
     else let (cbs, sc') = sc_unsubscribe_event eid sc in ((Ok (), cbs), sc'))"

definition sc_receive_request_event_update ::
    "client_ref \<Rightarrow> Event_id \<Rightarrow> Server_connector \<Rightarrow> ((Error, unit) result \<times> 'p server_callback list) \<times> Server_connector" where
  "sc_receive_request_event_update c eid sc =
    (if unat eid \<ge> length (sc_update_requester sc) then ((Err logic_error_id_out_of_range, []), sc)
     else if sc_update_requester sc ! unat eid \<noteq> None then ((Ok (), []), sc)
     else ((Ok (), [On_event_update_request eid]),
           sc\<lparr>sc_update_requester := (sc_update_requester sc)[unat eid := Some c]\<rparr>))"

subsection \<open>Well-formed servers\<close>

text \<open>One entry per event; only the connected client is subscribed or has requested an update.\<close>

definition sc_wf :: "Server_connector \<Rightarrow> bool" where
  "sc_wf sc \<longleftrightarrow> length (sc_subscriber sc) = num_events_of (sc_configuration sc)
     \<and> length (sc_update_requester sc) = num_events_of (sc_configuration sc)
     \<and> length (sc_event_infos sc) = num_events_of (sc_configuration sc)
     \<and> set (sc_subscriber sc) \<subseteq> {None, sc_client sc} \<and> set (sc_update_requester sc) \<subseteq> {None, sc_client sc}"

definition sc_subscribed :: "Server_connector \<Rightarrow> Event_id set" where
  "sc_subscribed sc = {e. unat e < length (sc_subscriber sc) \<and> sc_subscriber sc ! unat e \<noteq> None}"

lemma event_in_range: "e < def_num_events cfg \<longleftrightarrow> unat e < num_events_of cfg"
  by (simp add: num_events_of_def word_less_nat_alt)

lemma Server_connector_init_wf: "sc_wf (Server_connector_init cfg inst cred)"
  by (auto simp: sc_wf_def Server_connector_init_def)

lemma set_update_subset: "set xs \<subseteq> A \<Longrightarrow> x \<in> A \<Longrightarrow> set (xs[i := x]) \<subseteq> A"
  by (meson insert_subset order_trans set_update_subset_insert)

lemma sc_frame [simp]:
  "sc_configuration (snd (sc_unsubscribe_event e sc)) = sc_configuration sc"
  "sc_client (snd (sc_unsubscribe_event e sc)) = sc_client sc"
  "length (sc_subscriber (snd (sc_unsubscribe_event e sc))) = length (sc_subscriber sc)"
  by (simp_all add: sc_unsubscribe_event_def Let_def)

lemma sc_unsubscribe_event_wf: "sc_wf sc \<Longrightarrow> sc_wf (snd (sc_unsubscribe_event e sc))"
  unfolding sc_unsubscribe_event_def Let_def by (simp add: sc_wf_def set_update_subset)

lemma sc_subscribe_wf:
  assumes "sc_wf sc" and "sc_client sc = Some c"
  shows "sc_wf (snd (sc_receive_subscribe_event c e mode sc))"
  using assms unfolding sc_receive_subscribe_event_def Let_def by (simp add: sc_wf_def set_update_subset)

lemma sc_unsubscribe_wf: "sc_wf sc \<Longrightarrow> sc_wf (snd (sc_receive_unsubscribe_event e sc))"
  by (simp add: sc_receive_unsubscribe_event_def Let_def case_prod_unfold sc_unsubscribe_event_wf)

lemma sc_request_update_wf:
  assumes "sc_wf sc" and "sc_client sc = Some c"
  shows "sc_wf (snd (sc_receive_request_event_update c e sc))"
  using assms unfolding sc_receive_request_event_update_def by (simp add: sc_wf_def set_update_subset)

lemma sc_update_requested_wf: "sc_wf sc \<Longrightarrow> sc_wf (snd (sc_update_requested_event e sc))"
  unfolding sc_update_requested_event_def by (simp add: sc_wf_def set_update_subset)

lemma sc_unsubscribe_all_wf: "sc_wf sc \<Longrightarrow> sc_wf (sc_unsubscribe_all sc)"
  by (auto simp: sc_wf_def sc_unsubscribe_all_def)

subsection \<open>Callbacks\<close>

text \<open>What an application knows about the subscriptions from its callbacks.\<close>

fun apply_callback :: "'p server_callback \<Rightarrow> Event_id set \<Rightarrow> Event_id set" where
  "apply_callback (On_event_subscription_change e sub) S = (if sub then insert e S else S - {e})"
| "apply_callback cb S = S"

fun callback_ok :: "'p server_callback \<Rightarrow> Event_id set \<Rightarrow> bool" where
  "callback_ok (On_event_subscription_change e sub) S = (if sub then e \<notin> S else e \<in> S)"
| "callback_ok cb S = True"

fun callbacks_ok :: "'p server_callback list \<Rightarrow> Event_id set \<Rightarrow> bool" where
  "callbacks_ok [] S = True"
| "callbacks_ok (cb # cbs) S = (callback_ok cb S \<and> callbacks_ok cbs (apply_callback cb S))"

lemma callbacks_ok_append [simp]:
  "callbacks_ok (xs @ ys) S \<longleftrightarrow> callbacks_ok xs S \<and> callbacks_ok ys (fold apply_callback xs S)"
  by (induction xs arbitrary: S) auto

lemma unat_inj: "unat (a :: Event_id) = unat b \<longleftrightarrow> a = b"
  using unsigned_word_eqI by auto

lemma sc_unsubscribe_event_effect:
  fixes cbs :: "'p server_callback list"
  assumes "sc_unsubscribe_event e sc = (cbs, sc')" and "unat e < length (sc_subscriber sc)"
  shows "sc_subscribed sc' = sc_subscribed sc - {e} \<and> fold apply_callback cbs (sc_subscribed sc) = sc_subscribed sc - {e}
    \<and> callbacks_ok cbs (sc_subscribed sc) \<and> (sc_wf sc \<longrightarrow> sc_wf sc') \<and> sc_configuration sc' = sc_configuration sc
    \<and> sc_client sc' = sc_client sc \<and> sc_registered sc' = sc_registered sc \<and> sc_stop_block_token sc' = sc_stop_block_token sc
    \<and> sc_instance sc' = sc_instance sc \<and> length (sc_subscriber sc') = length (sc_subscriber sc)"
proof -
  have sc': "sc' = sc\<lparr>sc_subscriber := (sc_subscriber sc)[unat e := None], sc_update_requester := (sc_update_requester sc)[unat e := None]\<rparr>"
    and cbs: "cbs = (if sc_subscriber sc ! unat e \<noteq> None then [On_event_subscription_change e False] else [])"
    using assms(1) by (auto simp: sc_unsubscribe_event_def Let_def)
  have wf: "sc_wf sc \<longrightarrow> sc_wf sc'" unfolding sc' by (simp add: sc_wf_def set_update_subset)
  have sub: "sc_subscribed sc' = sc_subscribed sc - {e}"
    using assms(2) by (auto simp: sc' sc_subscribed_def nth_list_update unat_inj split: if_splits)
  have e: "e \<in> sc_subscribed sc \<longleftrightarrow> sc_subscriber sc ! unat e \<noteq> None" using assms(2) by (simp add: sc_subscribed_def)
  have "fold apply_callback cbs (sc_subscribed sc) = sc_subscribed sc - {e} \<and> callbacks_ok cbs (sc_subscribed sc)"
    using e by (cases "e \<in> sc_subscribed sc") (simp_all add: cbs)
  with wf sub show ?thesis by (simp add: sc')
qed

lemma sc_unsubscribe_events_effect:
  fixes cbs :: "'p server_callback list"
  assumes "list_all (\<lambda>e. unat e < length (sc_subscriber sc)) es" and "sc_unsubscribe_events es sc = (cbs, sc')"
  shows "sc_subscribed sc' = sc_subscribed sc - set es \<and> fold apply_callback cbs (sc_subscribed sc) = sc_subscribed sc - set es
    \<and> callbacks_ok cbs (sc_subscribed sc) \<and> (sc_wf sc \<longrightarrow> sc_wf sc') \<and> sc_configuration sc' = sc_configuration sc
    \<and> sc_client sc' = sc_client sc \<and> sc_registered sc' = sc_registered sc \<and> sc_stop_block_token sc' = sc_stop_block_token sc
    \<and> sc_instance sc' = sc_instance sc \<and> length (sc_subscriber sc') = length (sc_subscriber sc)"
  using assms
proof (induction es arbitrary: sc cbs)
  case Nil
  then show ?case by auto
next
  case (Cons e es)
  obtain c1 :: "'p server_callback list" and sc1 where 1: "sc_unsubscribe_event e sc = (c1, sc1)" by force
  obtain c2 :: "'p server_callback list" and sc2 where 2: "sc_unsubscribe_events es sc1 = (c2, sc2)" by force
  have r: "cbs = c1 @ c2" "sc' = sc2" using Cons.prems(2) 1 2 by auto
  have e: "unat e < length (sc_subscriber sc)" using Cons.prems(1) by simp
  have e1: "list_all (\<lambda>e. unat e < length (sc_subscriber sc1)) es"
    using Cons.prems(1) sc_unsubscribe_event_effect [OF 1 e] by simp
  show ?case using sc_unsubscribe_event_effect [OF 1 e] Cons.IH [OF e1 2 [folded r(2)]] r(1) by auto
qed

text \<open>The entries of the listed events are cleared.\<close>

definition clear_entries :: "Event_id list \<Rightarrow> 'a option list \<Rightarrow> 'a option list" where
  "clear_entries es xs = fold (\<lambda>e ys. ys[unat e := None]) es xs"

lemma clear_entries_simps [simp]: "clear_entries [] xs = xs" "clear_entries (e # es) xs = clear_entries es (xs[unat e := None])"
  by (simp_all add: clear_entries_def)

lemma clear_entries_nth:
  "length (clear_entries es xs) = length xs \<and>
   (i < length xs \<longrightarrow> clear_entries es xs ! i = (if i \<in> unat ` set es then None else xs ! i))"
  by (induction es arbitrary: xs) (auto simp: nth_list_update)

lemma sc_unsubscribe_events_state:
  fixes cbs :: "'p server_callback list"
  assumes "sc_unsubscribe_events es sc = (cbs, sc')"
  shows "sc' = sc\<lparr>sc_subscriber := clear_entries es (sc_subscriber sc), sc_update_requester := clear_entries es (sc_update_requester sc)\<rparr>"
  using assms
proof (induction es arbitrary: sc cbs)
  case (Cons e es)
  let ?sc = "sc\<lparr>sc_subscriber := (sc_subscriber sc)[unat e := None], sc_update_requester := (sc_update_requester sc)[unat e := None]\<rparr>"
  obtain cbs' :: "'p server_callback list" where "sc_unsubscribe_events es ?sc = (cbs', sc')"
    using Cons.prems by (auto simp: sc_unsubscribe_event_def Let_def split: prod.splits)
  from Cons.IH [OF this] show ?case by simp
qed simp

text \<open>Removing the client reports every subscribed event as unsubscribed, once, and leaves none.\<close>

abbreviation cleared :: "Server_connector \<Rightarrow> client_ref option list" where
  "cleared sc \<equiv> replicate (num_events_of (sc_configuration sc)) None"

lemma sc_subscribed_cleared: "sc_subscribed (sc\<lparr>sc_subscriber := replicate n None\<rparr>) = {}"
  by (auto simp: sc_subscribed_def)

lemma sc_remove_client_effect:
  fixes cbs :: "'p server_callback list"
  assumes "sc_wf sc" and "sc_remove_client sc = Ok (cbs, sc')"
  shows "sc' = sc\<lparr>sc_subscriber := cleared sc, sc_update_requester := cleared sc, sc_client := None\<rparr>
    \<and> fold apply_callback cbs (sc_subscribed sc) = {} \<and> callbacks_ok cbs (sc_subscribed sc)"
proof -
  obtain sc1 where u: "sc_unsubscribe_client sc = (cbs, sc1)" and sc': "sc' = sc1\<lparr>sc_client := None\<rparr>"
    using assms(2) by (auto simp: sc_remove_client_def split: option.splits prod.splits)
  let ?n = "num_events_of (sc_configuration sc)" and ?es = "map of_nat [0..<num_events_of (sc_configuration sc)] :: Event_id list"
  have n: "?n < 65536" using unsigned_less [of "def_num_events (sc_configuration sc)", where ?'a = nat] by (simp add: num_events_of_def)
  then have es: "unat ` set ?es = {0..<?n}" by (force simp: image_image unat_of_nat)
  have clear: "clear_entries ?es xs = replicate ?n None" if "length xs = ?n" for xs :: "client_ref option list"
    using that es clear_entries_nth [of ?es xs] by (intro nth_equalityI) simp_all
  have "sc_subscribed sc \<subseteq> set ?es"
  proof
    fix e assume "e \<in> sc_subscribed sc"
    then have "unat e < ?n" using assms(1) by (simp add: sc_subscribed_def sc_wf_def)
    then show "e \<in> set ?es" by (auto intro!: image_eqI [of _ _ "unat e"])
  qed
  moreover have "list_all (\<lambda>e. unat e < length (sc_subscriber sc)) ?es"
    using assms(1) n by (auto simp: list_all_iff sc_wf_def unat_of_nat)
  ultimately show ?thesis
    using sc_unsubscribe_events_effect [OF _ u [unfolded sc_unsubscribe_client_def]] assms(1)
      sc_unsubscribe_events_state [OF u [unfolded sc_unsubscribe_client_def]] clear
    by (simp add: sc' sc_wf_def Diff_eq_empty_iff)
qed

end
