(* ===== verification/Socom_Runtime.thy ===== *)
theory Socom_Runtime
  imports Server_Connector
begin

text \<open>
  The SOCom runtime (\<^verbatim>\<open>socom/impl/runtime_impl.hpp\<close> and \<^verbatim>\<open>.cpp\<close>) with the client connector
  (\<^verbatim>\<open>socom/impl/client_connector_impl.hpp\<close> and \<^verbatim>\<open>.cpp\<close>): the registry that connects clients to
  servers and forwards the requests of clients without a server to the service bridges.

  Connectors and bridges are numbered objects of the state \<open>Runtime\<close>. Every public operation
  is a function on it; the calls it makes to the application are appended to \<open>rt_log\<close>. The
  operations are not interleaved, except for the registration of a bridge, whose loop has to
  cope with changes made while it runs; callbacks return without calling the runtime again.

  Shared ownership follows the source. The endpoint a client holds keeps its server's
  connection alive: dropping it runs \<^verbatim>\<open>remove_client\<close> of that server. A destructor waits until
  nobody holds the connector's token any more; whether that wait ends is part of the result.
  A map of bridge requests is owned by the registrations of the clients that asked for it and
  otherwise known by weak pointers.
\<close>

type_synonym bridge_ref = nat
type_synonym Bridge_identity = nat

record Client_connector =
  cc_configuration :: Service_interface_definition
  cc_instance :: string
  cc_stop_block_token :: bool
  cc_server :: "server_ref option"
  cc_registered :: bool
  cc_requests :: "nat option"
  cc_credentials :: Posix_credentials

record Service_record =
  rec_server :: "(Service_interface_identifier \<times> server_ref) option"
  rec_client :: "(Service_interface_identifier \<times> client_ref) option"

type_synonym Service_database = "(Service_interface_identifier, (string, Service_record) assoc) assoc"

record service_request =
  rq_definition :: Service_interface_definition
  rq_map :: nat
  rq_identities :: "Bridge_identity option list"

type_synonym request_key = "Service_interface_identifier \<times> string"

datatype 'p socom_effect =
    Client_state_change client_ref bool Service_interface_definition
  | Client_event_update client_ref Event_id 'p
  | Client_requested_update client_ref Event_id 'p
  | Server_callback server_ref "'p server_callback"
  | Bridge_request bridge_ref Service_interface_definition string
  | Bridge_release bridge_ref
  | Logged_incompatible

record 'p Runtime =
  rt_clients :: "(client_ref, Client_connector) assoc"
  rt_servers :: "(server_ref, Server_connector) assoc"
  rt_database :: Service_database
  rt_service_identifiers :: "Service_instance_identifier list"
  rt_bridges :: "(bridge_ref, Bridge_identity) assoc"
  rt_requests :: "(request_key, service_request) assoc"
  rt_request_maps :: "(nat, nat \<times> bridge_ref list) assoc"
  rt_next :: nat
  rt_log :: "'p socom_effect list"

definition create_runtime :: "'p Runtime" where
  "create_runtime = \<lparr>rt_clients = [], rt_servers = [], rt_database = [], rt_service_identifiers = [], rt_bridges = [],
     rt_requests = [], rt_request_maps = [], rt_next = 0, rt_log = []\<rparr>"

definition rt_emit :: "'p socom_effect list \<Rightarrow> 'p Runtime \<Rightarrow> 'p Runtime" where
  "rt_emit es rt = rt\<lparr>rt_log := rt_log rt @ es\<rparr>"

subsection \<open>Compatibility\<close>

definition is_matching_instance :: "string option \<Rightarrow> string \<Rightarrow> bool" where
  "is_matching_instance filt inst \<longleftrightarrow> filt = None \<or> filt = Some inst"

definition is_minor_version_compatible :: "Service_interface_identifier \<Rightarrow> Service_interface_identifier \<Rightarrow> bool" where
  "is_minor_version_compatible server client \<longleftrightarrow> minor (sii_version client) \<le> minor (sii_version server)"

definition is_interface_compatible :: "Service_interface_identifier \<Rightarrow> Service_interface_identifier \<Rightarrow> bool" where
  "is_interface_compatible server client \<longleftrightarrow> sii_id server = sii_id client
     \<and> major (sii_version server) = major (sii_version client) \<and> is_minor_version_compatible server client"

record client_callbacks =
  has_service_state_change :: bool
  has_event_update :: bool
  has_event_requested_update :: bool
  has_event_payload_allocate :: bool

definition is_valid_client :: "client_callbacks \<Rightarrow> bool" where
  "is_valid_client cbs \<longleftrightarrow> has_service_state_change cbs \<and> has_event_update cbs \<and> has_event_requested_update cbs
     \<and> has_event_payload_allocate cbs"

record server_callbacks =
  has_method_call :: bool
  has_event_update_request :: bool
  has_event_subscription_change :: bool
  has_method_call_payload_allocate :: bool

definition is_valid_server :: "server_callbacks \<Rightarrow> bool" where
  "is_valid_server cbs \<longleftrightarrow> has_method_call cbs \<and> has_event_update_request cbs \<and> has_event_subscription_change cbs
     \<and> has_method_call_payload_allocate cbs"

subsection \<open>The database\<close>

definition minor_version_ignoring_key_equal :: "Service_interface_identifier \<Rightarrow> Service_interface_identifier \<Rightarrow> bool" where
  "minor_version_ignoring_key_equal lhs rhs \<longleftrightarrow> sii_id lhs = sii_id rhs \<and> major (sii_version lhs) = major (sii_version rhs)"

definition db_find :: "Service_interface_identifier \<Rightarrow> Service_database \<Rightarrow> (Service_interface_identifier \<times> (string, Service_record) assoc) option" where
  "db_find interface db = find (\<lambda>e. minor_version_ignoring_key_equal (fst e) interface) db"

definition empty_record :: Service_record where
  "empty_record = \<lparr>rec_server = None, rec_client = None\<rparr>"

text \<open>\<^verbatim>\<open>get_record\<close> returns a reference to the record, which it creates if necessary: the record,
  and how to store a changed one.\<close>

definition db_record :: "Service_interface_identifier \<Rightarrow> string \<Rightarrow> Service_database \<Rightarrow> Service_record" where
  "db_record interface inst db =
    (case db_find interface db of
       None \<Rightarrow> empty_record
     | Some (_, instances) \<Rightarrow> get_or empty_record inst instances)"

definition db_store ::
    "Service_interface_identifier \<Rightarrow> string \<Rightarrow> Service_record \<Rightarrow> Service_database \<Rightarrow> Service_database" where
  "db_store interface inst r db =
    (case db_find interface db of
       None \<Rightarrow> db @ [(interface, [(inst, r)])]
     | Some (k, instances) \<Rightarrow> AList.update k (AList.update inst r instances) db)"

definition db_get_instances ::
    "Service_interface_identifier \<Rightarrow> string option \<Rightarrow> Service_database \<Rightarrow> (Service_interface_identifier, string list) assoc" where
  "db_get_instances interface filt db =
    (case db_find interface db of
       None \<Rightarrow> []
     | Some (_, instances) \<Rightarrow>
         [(interface, keys (filter (\<lambda>e. rec_server (snd e) \<noteq> None \<and> is_matching_instance filt (fst e)) instances))])"

definition db_get_all_instances ::
    "Service_interface_identifier option \<Rightarrow> string option \<Rightarrow> Service_database \<Rightarrow> (Service_interface_identifier, string list) assoc" where
  "db_get_all_instances interface filt db =
    (case interface of
       Some i \<Rightarrow> db_get_instances i filt db
     | None \<Rightarrow> map (\<lambda>e. (fst e, keys (snd e))) db)"

subsection \<open>Connections\<close>

definition server_remove_client :: "server_ref \<Rightarrow> 'p Runtime \<Rightarrow> 'p Runtime run" where
  "server_remove_client s rt =
    (case map_of (rt_servers rt) s of
       None \<Rightarrow> Err Null_deref
     | Some sc \<Rightarrow> and_then (sc_remove_client sc) (\<lambda>(cbs, sc').
         Ok (rt_emit (map (Server_callback s) cbs) (rt\<lparr>rt_servers := AList.update s sc' (rt_servers rt)\<rparr>))))"

definition client_reset_server :: "client_ref \<Rightarrow> 'p Runtime \<Rightarrow> 'p Runtime run" where
  "client_reset_server c rt =
    (case map_of (rt_clients rt) c of
       None \<Rightarrow> Err Null_deref
     | Some cc \<Rightarrow> (case cc_server cc of
         None \<Rightarrow> Ok rt
       | Some s \<Rightarrow> server_remove_client s (rt\<lparr>rt_clients := AList.update c (cc\<lparr>cc_server := None\<rparr>) (rt_clients rt)\<rparr>)))"

definition client_receive_state_change ::
    "client_ref \<Rightarrow> bool \<Rightarrow> Service_interface_definition \<Rightarrow> 'p Runtime \<Rightarrow> 'p Runtime run" where
  "client_receive_state_change c available cfg rt =
    and_then (if available then Ok rt else client_reset_server c rt) (\<lambda>rt'.
      Ok (rt_emit [Client_state_change c available cfg] rt'))"

definition set_id_mappings_and_server :: "client_ref \<Rightarrow> server_ref \<Rightarrow> 'p Runtime \<Rightarrow> (bool \<times> 'p Runtime) run" where
  "set_id_mappings_and_server c s rt =
    (case map_of (rt_clients rt) c of
       None \<Rightarrow> Err Null_deref
     | Some cc \<Rightarrow> if \<not> cc_stop_block_token cc then Ok (False, rt)
         else and_then (client_reset_server c rt) (\<lambda>rt'.
           Ok (True, rt'\<lparr>rt_clients := AList.update c (cc\<lparr>cc_server := Some s\<rparr>) (rt_clients rt')\<rparr>)))"

definition on_server_update :: "client_ref \<Rightarrow> server_ref \<Rightarrow> 'p Runtime \<Rightarrow> 'p Runtime run" where
  "on_server_update c s rt =
    (case map_of (rt_clients rt) c of
       None \<Rightarrow> Ok rt
     | Some cc \<Rightarrow> if \<not> cc_stop_block_token cc then Ok rt
         else (case map_of (rt_servers rt) s of
             None \<Rightarrow> Err Null_deref
           | Some sc \<Rightarrow> and_then (sc_receive_connect c sc) (\<lambda>(r, sc').
               (case r of
                  Err _ \<Rightarrow> Ok rt
                | Ok _ \<Rightarrow> and_then (set_id_mappings_and_server c s (rt\<lparr>rt_servers := AList.update s sc' (rt_servers rt)\<rparr>)) (\<lambda>(connected, rt').
                    if connected then client_receive_state_change c True (sc_configuration sc) rt' else server_remove_client s rt')))))"

subsection \<open>Bridges\<close>

definition is_forward_subscription :: "Bridge_identity option \<Rightarrow> Bridge_identity \<Rightarrow> Bridge_identity option list \<Rightarrow> bool" where
  "is_forward_subscription identity bridge_callback_identity subscriber_identity_record =
    (let is_current_subscriber = (identity = Some bridge_callback_identity) in
     if length subscriber_identity_record = 1 then \<not> is_current_subscriber
     else if length subscriber_identity_record = 2
       then Some bridge_callback_identity \<in> set subscriber_identity_record \<and> \<not> is_current_subscriber
     else False)"

text \<open>The result of \<^verbatim>\<open>lock()\<close> on the weak pointer to a map of requests.\<close>

definition lock_map :: "nat \<Rightarrow> 'p Runtime \<Rightarrow> bridge_ref list option" where
  "lock_map r rt = map_option snd (map_of (rt_request_maps rt) r)"

definition get_bridge_requests ::
    "Service_interface_definition \<Rightarrow> string \<Rightarrow> Bridge_identity option \<Rightarrow> 'p Runtime \<Rightarrow> nat \<times> 'p Runtime" where
  "get_bridge_requests configuration inst identity rt =
    (let key = (def_interface configuration, inst);
         found = map_of (rt_requests rt) key;
         alive = Option.bind found (\<lambda>rq. if lock_map (rq_map rq) rt = None then None else Some rq);
         (rq, rt1) = (case alive of
             Some rq \<Rightarrow> (rq, rt\<lparr>rt_request_maps := map (\<lambda>(r, n, bs). if r = rq_map rq then (r, n + 1, bs) else (r, n, bs)) (rt_request_maps rt)\<rparr>)
           | None \<Rightarrow> (\<lparr>rq_definition = (case found of None \<Rightarrow> configuration | Some old \<Rightarrow> rq_definition old),
                       rq_map = rt_next rt, rq_identities = []\<rparr>,
                     rt\<lparr>rt_next := rt_next rt + 1, rt_request_maps := (rt_next rt, 1, []) # rt_request_maps rt\<rparr>));
         rq' = rq\<lparr>rq_identities := rq_identities rq @ [identity]\<rparr>;
         called = keys (filter (\<lambda>b. is_forward_subscription identity (snd b) (rq_identities rq')) (rt_bridges rt1));
         old = (case lock_map (rq_map rq') rt1 of None \<Rightarrow> [] | Some bs \<Rightarrow> bs);
         new = filter (\<lambda>b. b \<notin> set old) called in
     (rq_map rq',
      rt_emit (map (\<lambda>b. Bridge_request b configuration inst) called @ map Bridge_release (filter (\<lambda>b. b \<in> set old) called))
        (rt1\<lparr>rt_requests := AList.update key rq' (rt_requests rt1),
             rt_request_maps := map (\<lambda>(r, n, bs). if r = rq_map rq' then (r, n, bs @ new) else (r, n, bs)) (rt_request_maps rt1)\<rparr>)))"

text \<open>Dropping one owner of a map; the last one destroys the map with the requests in it.\<close>

definition drop_map :: "nat \<Rightarrow> 'p Runtime \<Rightarrow> 'p Runtime" where
  "drop_map r rt =
    (case map_of (rt_request_maps rt) r of
       None \<Rightarrow> rt
     | Some (n, bs) \<Rightarrow>
         if n \<le> 1 then rt_emit (map Bridge_release bs) (rt\<lparr>rt_request_maps := AList.delete r (rt_request_maps rt)\<rparr>)
         else rt\<lparr>rt_request_maps := AList.update r (n - 1, bs) (rt_request_maps rt)\<rparr>)"

definition remove_from_service_requests :: "request_key \<Rightarrow> 'p Runtime \<Rightarrow> 'p Runtime" where
  "remove_from_service_requests key rt =
    (case map_of (rt_requests rt) key of
       None \<Rightarrow> rt
     | Some rq \<Rightarrow> if lock_map (rq_map rq) rt = None then rt\<lparr>rt_requests := AList.delete key (rt_requests rt)\<rparr> else rt)"

definition get_or_create_service_requests :: "Service_interface_definition \<Rightarrow> string \<Rightarrow> 'p Runtime \<Rightarrow> nat \<times> 'p Runtime" where
  "get_or_create_service_requests configuration inst rt = get_bridge_requests configuration inst None rt"

text \<open>The final action of the registration that \<^verbatim>\<open>bridge_service_requests\<close> returns.\<close>

definition release_bridge_requests :: "nat option \<Rightarrow> request_key \<Rightarrow> 'p Runtime \<Rightarrow> 'p Runtime" where
  "release_bridge_requests r key rt =
    (case r of None \<Rightarrow> rt | Some m \<Rightarrow> remove_from_service_requests key (drop_map m rt))"

text \<open>
  The loop of \<^verbatim>\<open>register_bridge\<close>. The mutex is released while the bridge's callback runs for the
  requests to do; \<open>relocks\<close> are the keys of the request table each time it is taken again.
  The result is the sequence of requests the callback is called for.
\<close>

fun register_bridge_loop :: "'k list \<Rightarrow> 'k list \<Rightarrow> 'k list list \<Rightarrow> 'k list" where
  "register_bridge_loop to_do done [] = to_do"
| "register_bridge_loop to_do done (table # relocks) =
    (let done' = done @ to_do; new = filter (\<lambda>k. k \<notin> set done') table in
     to_do @ (if new = [] then [] else register_bridge_loop new done' relocks))"

definition register_bridge :: "bridge_ref \<Rightarrow> 'p Runtime \<Rightarrow> 'p Runtime" where
  "register_bridge b rt =
    (let ks = register_bridge_loop (keys (rt_requests rt)) [] [keys (rt_requests rt)];
         reqs = map (\<lambda>k. the (map_of (rt_requests rt) k)) ks;
         stored = map rq_map reqs;
         lost = filter (\<lambda>r. lock_map r rt = None) stored in
     rt_emit (map2 (\<lambda>k rq. Bridge_request b (rq_definition rq) (snd k)) ks reqs @ map (\<lambda>_. Bridge_release b) lost)
       (rt\<lparr>rt_request_maps := map (\<lambda>(r, n, bs). if r \<in> set stored \<and> b \<notin> set bs then (r, n, bs @ [b]) else (r, n, bs)) (rt_request_maps rt)\<rparr>))"

definition register_service_bridge ::
    "Bridge_identity \<Rightarrow> bool \<Rightarrow> 'p Runtime \<Rightarrow> (Construction_error, bridge_ref) result \<times> 'p Runtime" where
  "register_service_bridge identity has_callback rt =
    (if \<not> has_callback then (Err callback_missing, rt)
     else let b = rt_next rt in
       (Ok b, register_bridge b (rt\<lparr>rt_next := b + 1, rt_bridges := rt_bridges rt @ [(b, identity)]\<rparr>)))"

definition stop_registration :: "bridge_ref \<Rightarrow> 'p Runtime \<Rightarrow> 'p Runtime" where
  "stop_registration b rt =
    (let reqs = map snd (rt_requests rt);
         held = filter (\<lambda>(r, n, bs). b \<in> set bs \<and> r \<in> rq_map ` set reqs) (rt_request_maps rt) in
     rt_emit (map (\<lambda>_. Bridge_release b) held)
       (rt\<lparr>rt_bridges := AList.delete b (rt_bridges rt),
           rt_request_maps := map (\<lambda>(r, n, bs). if r \<in> rq_map ` set reqs then (r, n, removeAll b bs) else (r, n, bs)) (rt_request_maps rt)\<rparr>))"

subsection \<open>Clients\<close>

definition rt_register_client ::
    "Service_interface_definition \<Rightarrow> string \<Rightarrow> client_ref \<Rightarrow> 'p Runtime
      \<Rightarrow> ((Construction_error, nat option) result \<times> 'p Runtime) run" where
  "rt_register_client configuration inst c rt =
    (let interface = def_interface configuration; r = db_record interface inst (rt_database rt) in
     if rec_client r \<noteq> None
     then Ok (Err duplicate_client, rt\<lparr>rt_database := db_store interface inst r (rt_database rt)\<rparr>)
     else let rt1 = rt\<lparr>rt_database := db_store interface inst (r\<lparr>rec_client := Some (interface, c)\<rparr>) (rt_database rt)\<rparr> in
       (case rec_server r of
          Some (server_interface, s) \<Rightarrow>
            if is_minor_version_compatible server_interface interface
            then assert_run (is_interface_compatible server_interface interface)
                   (and_then (on_server_update c s rt1) (\<lambda>rt2. Ok (Ok None, rt2)))
            else Ok (Ok None, rt_emit [Logged_incompatible] rt1)
        | None \<Rightarrow> let (m, rt2) = get_or_create_service_requests configuration inst rt1 in Ok (Ok (Some m), rt2)))"

definition make_client_connector ::
    "client_callbacks \<Rightarrow> Service_interface_definition \<Rightarrow> string \<Rightarrow> Posix_credentials \<Rightarrow> 'p Runtime
      \<Rightarrow> ((Construction_error, client_ref) result \<times> 'p Runtime) run" where
  "make_client_connector cbs configuration inst cred rt =
    (if \<not> is_valid_client cbs then Ok (Err callback_missing, rt)
     else let c = rt_next rt;
              cc = \<lparr>cc_configuration = configuration, cc_instance = inst, cc_stop_block_token = True, cc_server = None,
                    cc_registered = False, cc_requests = None, cc_credentials = cred\<rparr> in
       and_then (rt_register_client configuration inst c (rt\<lparr>rt_next := c + 1, rt_clients := AList.update c cc (rt_clients rt)\<rparr>)) (\<lambda>(r, rt1).
         (case r of
            Err e \<Rightarrow> Ok (Err e, rt1\<lparr>rt_clients := AList.delete c (rt_clients rt1)\<rparr>)
          | Ok m \<Rightarrow> (case map_of (rt_clients rt1) c of
                None \<Rightarrow> Err Null_deref
              | Some cc1 \<Rightarrow> Ok (Ok c, rt1\<lparr>rt_clients := AList.update c (cc1\<lparr>cc_registered := True, cc_requests := m\<rparr>) (rt_clients rt1)\<rparr>)))))"

text \<open>Whether anybody still holds the token of a client: the server it is connected to.\<close>

definition client_token_held :: "client_ref \<Rightarrow> 'p Runtime \<Rightarrow> bool" where
  "client_token_held c rt \<longleftrightarrow> (\<exists>e \<in> set (rt_servers rt). sc_client (snd e) = Some c)"

text \<open>The destructor; the flag says whether its wait ends.\<close>

definition destroy_client :: "client_ref \<Rightarrow> 'p Runtime \<Rightarrow> (bool \<times> 'p Runtime) run" where
  "destroy_client c rt =
    (case map_of (rt_clients rt) c of
       None \<Rightarrow> Err Null_deref
     | Some cc \<Rightarrow>
         let interface = def_interface (cc_configuration cc);
             rt1 = rt\<lparr>rt_clients := AList.update c (cc\<lparr>cc_stop_block_token := False\<rparr>) (rt_clients rt)\<rparr> in
         and_then (client_reset_server c rt1) (\<lambda>rt2.
           let r = db_record interface (cc_instance cc) (rt_database rt2);
               rt3 = (if cc_registered cc
                      then release_bridge_requests (cc_requests cc) (interface, cc_instance cc)
                             (rt2\<lparr>rt_database := db_store interface (cc_instance cc) (r\<lparr>rec_client := None\<rparr>) (rt_database rt2)\<rparr>)
                      else rt2) in
           Ok (\<not> client_token_held c rt3, rt3\<lparr>rt_clients := AList.delete c (rt_clients rt3)\<rparr>)))"

subsection \<open>Servers\<close>

definition make_server_connector ::
    "server_callbacks \<Rightarrow> Service_interface_definition \<Rightarrow> string \<Rightarrow> Posix_credentials \<Rightarrow> 'p Runtime
      \<Rightarrow> (Construction_error, server_ref) result \<times> 'p Runtime" where
  "make_server_connector cbs configuration inst cred rt =
    (let identifier = \<lparr>ident_interface = def_interface configuration, ident_instance = inst\<rparr> in
     if \<not> is_valid_server cbs then (Err callback_missing, rt)
     else if identifier \<in> set (rt_service_identifiers rt) then (Err duplicate_service, rt)
     else let s = rt_next rt in
       (Ok s, rt\<lparr>rt_next := s + 1, rt_service_identifiers := identifier # rt_service_identifiers rt,
                 rt_servers := AList.update s (Server_connector_init configuration inst cred) (rt_servers rt)\<rparr>))"

definition rt_register_server ::
    "Service_interface_identifier \<Rightarrow> string \<Rightarrow> server_ref \<Rightarrow> 'p Runtime \<Rightarrow> 'p Runtime run" where
  "rt_register_server interface inst s rt =
    (let r = db_record interface inst (rt_database rt) in
     assert_run (rec_server r = None)
       (let rt1 = rt\<lparr>rt_database := db_store interface inst (r\<lparr>rec_server := Some (interface, s)\<rparr>) (rt_database rt)\<rparr> in
        case rec_client r of
          None \<Rightarrow> Ok rt1
        | Some (client_interface, c) \<Rightarrow>
            if is_minor_version_compatible interface client_interface
            then assert_run (is_interface_compatible interface client_interface) (on_server_update c s rt1)
            else Ok (rt_emit [Logged_incompatible] rt1)))"

definition enable_server :: "server_ref \<Rightarrow> 'p Runtime \<Rightarrow> 'p Runtime run" where
  "enable_server s rt =
    (case map_of (rt_servers rt) s of
       None \<Rightarrow> Err Null_deref
     | Some sc \<Rightarrow>
         assert_run (\<not> sc_registered sc)
           (and_then (rt_register_server (def_interface (sc_configuration sc)) (sc_instance sc) s
                       (rt\<lparr>rt_servers := AList.update s (sc\<lparr>sc_stop_block_token := True\<rparr>) (rt_servers rt)\<rparr>)) (\<lambda>rt1.
              (case map_of (rt_servers rt1) s of
                 None \<Rightarrow> Err Null_deref
               | Some sc1 \<Rightarrow> Ok (rt1\<lparr>rt_servers := AList.update s (sc1\<lparr>sc_registered := True\<rparr>) (rt_servers rt1)\<rparr>)))))"

text \<open>Whether a client still holds an endpoint of the server.\<close>

definition server_endpoint_held :: "server_ref \<Rightarrow> 'p Runtime \<Rightarrow> bool" where
  "server_endpoint_held s rt \<longleftrightarrow> (\<exists>e \<in> set (rt_clients rt). cc_server (snd e) = Some s)"

definition send_all_not_available :: "server_ref \<Rightarrow> Server_connector \<Rightarrow> 'p Runtime \<Rightarrow> 'p Runtime run" where
  "send_all_not_available s sc rt =
    (case sc_client sc of
       None \<Rightarrow> Ok rt
     | Some c \<Rightarrow> client_receive_state_change c False (sc_configuration sc) rt)"

definition disable_server :: "server_ref \<Rightarrow> 'p Runtime \<Rightarrow> (bool \<times> 'p Runtime) run" where
  "disable_server s rt =
    (case map_of (rt_servers rt) s of
       None \<Rightarrow> Err Null_deref
     | Some sc \<Rightarrow>
         if \<not> sc_registered sc then Ok (True, rt)
         else let interface = def_interface (sc_configuration sc);
                  r = db_record interface (sc_instance sc) (rt_database rt);
                  sc1 = sc_unsubscribe_all (sc\<lparr>sc_registered := False, sc_stop_block_token := False\<rparr>);
                  rt1 = rt\<lparr>rt_database := db_store interface (sc_instance sc) (r\<lparr>rec_server := None\<rparr>) (rt_database rt),
                           rt_servers := AList.update s sc1 (rt_servers rt)\<rparr> in
              and_then (send_all_not_available s sc1 rt1) (\<lambda>rt2. Ok (\<not> server_endpoint_held s rt2, rt2)))"

definition destroy_server :: "server_ref \<Rightarrow> 'p Runtime \<Rightarrow> (bool \<times> 'p Runtime) run" where
  "destroy_server s rt =
    (case map_of (rt_servers rt) s of
       None \<Rightarrow> Err Null_deref
     | Some sc \<Rightarrow> and_then (disable_server s rt) (\<lambda>(ended, rt1).
         Ok (ended, rt1\<lparr>rt_service_identifiers :=
                          removeAll \<lparr>ident_interface = def_interface (sc_configuration sc), ident_instance = sc_instance sc\<rparr>
                            (rt_service_identifiers rt1),
                        rt_servers := AList.delete s (rt_servers rt1)\<rparr>)))"

definition rt_update_event ::
    "server_ref \<Rightarrow> Event_id \<Rightarrow> 'p \<Rightarrow> 'p Runtime \<Rightarrow> ((Server_connector_error, unit) result \<times> 'p Runtime) run" where
  "rt_update_event s eid p rt =
    (case map_of (rt_servers rt) s of
       None \<Rightarrow> Err Null_deref
     | Some sc \<Rightarrow> (case sc_update_event eid sc of
         Err e \<Rightarrow> Ok (Err e, rt)
       | Ok None \<Rightarrow> Ok (Ok (), rt)
       | Ok (Some c) \<Rightarrow> Ok (Ok (), rt_emit [Client_event_update c eid p] rt)))"

definition rt_update_requested_event ::
    "server_ref \<Rightarrow> Event_id \<Rightarrow> 'p \<Rightarrow> 'p Runtime \<Rightarrow> ((Server_connector_error, unit) result \<times> 'p Runtime) run" where
  "rt_update_requested_event s eid p rt =
    (case map_of (rt_servers rt) s of
       None \<Rightarrow> Err Null_deref
     | Some sc \<Rightarrow> let (r, sc') = sc_update_requested_event eid sc; rt' = rt\<lparr>rt_servers := AList.update s sc' (rt_servers rt)\<rparr> in
         (case r of
            Err e \<Rightarrow> Ok (Err e, rt)
          | Ok None \<Rightarrow> Ok (Ok (), rt')
          | Ok (Some c) \<Rightarrow> Ok (Ok (), rt_emit [Client_requested_update c eid p] rt')))"

subsection \<open>Requests of a client\<close>

text \<open>\<^verbatim>\<open>lock_server\<close>: a request runs on the server the client is connected to.\<close>

definition lock_server ::
    "client_ref \<Rightarrow> (server_ref \<Rightarrow> Server_connector \<Rightarrow> 'p Runtime \<Rightarrow> ((Error, 'r) result \<times> 'p Runtime) run)
      \<Rightarrow> 'p Runtime \<Rightarrow> ((Error, 'r) result \<times> 'p Runtime) run" where
  "lock_server c on_server_locked rt =
    (case map_of (rt_clients rt) c of
       None \<Rightarrow> Err Null_deref
     | Some cc \<Rightarrow> (case cc_server cc of
         None \<Rightarrow> Ok (Err runtime_error_service_not_available, rt)
       | Some s \<Rightarrow> (case map_of (rt_servers rt) s of
           None \<Rightarrow> Err Null_deref
         | Some sc \<Rightarrow> on_server_locked s sc rt)))"

definition run_on_server ::
    "(Server_connector \<Rightarrow> ((Error, unit) result \<times> 'p server_callback list) \<times> Server_connector)
      \<Rightarrow> server_ref \<Rightarrow> Server_connector \<Rightarrow> 'p Runtime \<Rightarrow> ((Error, unit) result \<times> 'p Runtime) run" where
  "run_on_server f s sc rt =
    (let ((r, cbs), sc') = f sc in
     Ok (r, rt_emit (map (Server_callback s) cbs) (rt\<lparr>rt_servers := AList.update s sc' (rt_servers rt)\<rparr>)))"

definition subscribe_event ::
    "client_ref \<Rightarrow> Event_id \<Rightarrow> Event_mode \<Rightarrow> 'p Runtime \<Rightarrow> ((Error, unit) result \<times> 'p Runtime) run" where
  "subscribe_event c eid mode = lock_server c (run_on_server (sc_receive_subscribe_event c eid mode))"

definition unsubscribe_event :: "client_ref \<Rightarrow> Event_id \<Rightarrow> 'p Runtime \<Rightarrow> ((Error, unit) result \<times> 'p Runtime) run" where
  "unsubscribe_event c eid = lock_server c (run_on_server (sc_receive_unsubscribe_event eid))"

definition request_event_update :: "client_ref \<Rightarrow> Event_id \<Rightarrow> 'p Runtime \<Rightarrow> ((Error, unit) result \<times> 'p Runtime) run" where
  "request_event_update c eid = lock_server c (run_on_server (sc_receive_request_event_update c eid))"

text \<open>The reply data carries the calling client, whose token decides whether a reply is delivered.\<close>

definition call_method ::
    "client_ref \<Rightarrow> Method_id \<Rightarrow> 'p \<Rightarrow> bool \<Rightarrow> 'p Runtime \<Rightarrow> ((Error, unit) result \<times> 'p Runtime) run" where
  "call_method c mid payload with_reply rt =
    lock_server c (\<lambda>s sc rt'.
      (case map_of (rt_clients rt') c of
         None \<Rightarrow> Err Null_deref
       | Some cc \<Rightarrow> (case sc_receive_call_method mid payload (if with_reply then Some c else None) (cc_credentials cc) sc of
           Err e \<Rightarrow> Ok (Err e, rt')
         | Ok cb \<Rightarrow> Ok (Ok (), rt_emit [Server_callback s cb] rt')))) rt"

definition allocate_method_call_payload :: "client_ref \<Rightarrow> Method_id \<Rightarrow> 'p Runtime \<Rightarrow> ((Error, unit) result \<times> 'p Runtime) run" where
  "allocate_method_call_payload c mid =
    lock_server c (\<lambda>s sc rt.
      (case sc_receive_allocate_method_call_payload mid sc of
         Err e \<Rightarrow> Ok (Err e, rt)
       | Ok cb \<Rightarrow> Ok (Ok (), rt_emit [Server_callback s cb] rt)))"

definition get_peer_credentials :: "client_ref \<Rightarrow> 'p Runtime \<Rightarrow> ((Error, Posix_credentials) result \<times> 'p Runtime) run" where
  "get_peer_credentials c = lock_server c (\<lambda>s sc rt. Ok (Ok (sc_receive_posix_credentials sc), rt))"

definition is_service_available :: "client_ref \<Rightarrow> 'p Runtime \<Rightarrow> bool run" where
  "is_service_available c rt =
    (case map_of (rt_clients rt) c of None \<Rightarrow> Err Null_deref | Some cc \<Rightarrow> Ok (cc_server cc \<noteq> None))"

text \<open>\<^verbatim>\<open>Method_call_reply_data::reply\<close>: the reply is delivered while the client holds its token.\<close>

definition reply_delivered :: "client_ref \<Rightarrow> 'p Runtime \<Rightarrow> bool" where
  "reply_delivered c rt =
    (case map_of (rt_clients rt) c of None \<Rightarrow> False | Some cc \<Rightarrow> cc_stop_block_token cc)"

end
