(* ===== verification/Runtime_Invariant.thy ===== *)
theory Runtime_Invariant
  imports Socom_Runtime
begin

text \<open>
  Invariant of the SOCom runtime: the database names exactly the enabled servers and the live
  clients, and a client is connected to a server exactly when that server is enabled, has the
  client's instance and a compatible interface. The effect of every operation is computed
  first; then each operation keeps the invariant.
\<close>

subsection \<open>The database as a function\<close>

lemma key_equal_equivalence:
  "minor_version_ignoring_key_equal a a"
  "minor_version_ignoring_key_equal a b \<Longrightarrow> minor_version_ignoring_key_equal b a"
  "minor_version_ignoring_key_equal a b \<Longrightarrow> minor_version_ignoring_key_equal b c \<Longrightarrow> minor_version_ignoring_key_equal a c"
  by (simp_all add: minor_version_ignoring_key_equal_def)

lemma db_find_equal:
  assumes "minor_version_ignoring_key_equal i j"
  shows "db_find i db = db_find j db"
proof -
  have "(\<lambda>e. minor_version_ignoring_key_equal (fst e) i) = (\<lambda>e :: _ \<times> (string, Service_record) assoc. minor_version_ignoring_key_equal (fst e) j)"
    using assms by (auto simp: minor_version_ignoring_key_equal_def)
  then show ?thesis by (simp add: db_find_def)
qed

lemma db_find_key: "db_find i db = Some (k, v) \<Longrightarrow> minor_version_ignoring_key_equal k i"
  by (auto simp: db_find_def find_Some_iff dest: arg_cong [of _ _ fst])

lemma db_find_update:
  assumes "db_find i db = Some (k, v0)"
  shows "db_find j (AList.update k v db) = (if minor_version_ignoring_key_equal i j then Some (k, v) else db_find j db)"
  using assms
proof (induction db)
  case (Cons e db)
  have k: "minor_version_ignoring_key_equal k i" using db_find_key [OF Cons.prems] .
  show ?case
  proof (cases "minor_version_ignoring_key_equal (fst e) i")
    case True
    then show ?thesis using Cons.prems
      by (cases e) (auto simp: db_find_def minor_version_ignoring_key_equal_def)
  next
    case False
    then have f: "db_find i db = Some (k, v0)" "k \<noteq> fst e" using Cons.prems k by (auto simp: db_find_def)
    show ?thesis using Cons.IH [OF f(1)] f(2) False
      by (cases e) (auto simp: db_find_def minor_version_ignoring_key_equal_def)
  qed
qed (simp add: db_find_def)

lemma db_find_append:
  assumes "db_find i db = None"
  shows "db_find j (db @ [(i, v)]) = (if minor_version_ignoring_key_equal i j then Some (i, v) else db_find j db)"
  using assms by (induction db) (auto simp: db_find_def minor_version_ignoring_key_equal_def split: if_splits)

theorem db_record_store:
  "db_record j inst' (db_store i inst r db) =
    (if minor_version_ignoring_key_equal i j \<and> inst = inst' then r else db_record j inst' db)"
proof (cases "db_find i db")
  case None
  then show ?thesis using db_find_equal [of i j db]
    by (auto simp: db_record_def db_store_def db_find_append get_or_def)
next
  case (Some e)
  obtain k v where e: "e = (k, v)" by (cases e)
  show ?thesis using Some e db_find_equal [of i j db]
    by (cases "minor_version_ignoring_key_equal i j") (simp_all add: db_record_def db_store_def db_find_update get_or_def update_conv' key_equal_equivalence(1))
qed

subsection \<open>Effects of the operations\<close>

lemma rt_emit_simps [simp]:
  "rt_clients (rt_emit es rt) = rt_clients rt" "rt_servers (rt_emit es rt) = rt_servers rt"
  "rt_database (rt_emit es rt) = rt_database rt" "rt_next (rt_emit es rt) = rt_next rt"
  "rt_service_identifiers (rt_emit es rt) = rt_service_identifiers rt" "rt_bridges (rt_emit es rt) = rt_bridges rt"
  "rt_requests (rt_emit es rt) = rt_requests rt" "rt_request_maps (rt_emit es rt) = rt_request_maps rt"
  "rt_log (rt_emit es rt) = rt_log rt @ es"
  by (simp_all add: rt_emit_def)

text \<open>The part of the state that the connections are about.\<close>

definition same_connections :: "'p Runtime \<Rightarrow> 'p Runtime \<Rightarrow> bool" where
  "same_connections rt rt' \<longleftrightarrow> rt_clients rt' = rt_clients rt \<and> rt_servers rt' = rt_servers rt
     \<and> rt_database rt' = rt_database rt \<and> rt_next rt \<le> rt_next rt'"

lemma get_bridge_requests_frame: "same_connections rt (snd (get_bridge_requests cfg inst i rt))"
  by (auto simp: get_bridge_requests_def same_connections_def Let_def split: option.splits prod.splits)

lemma release_bridge_requests_frame: "same_connections rt (release_bridge_requests r key rt)"
  by (auto simp: release_bridge_requests_def remove_from_service_requests_def drop_map_def same_connections_def Let_def
      split: option.splits prod.splits)

lemma register_bridge_frame: "same_connections rt (snd (register_service_bridge i b rt))"
  by (auto simp: register_service_bridge_def register_bridge_def same_connections_def Let_def)

lemma stop_registration_frame: "same_connections rt (stop_registration b rt)"
  by (auto simp: stop_registration_def same_connections_def Let_def)

lemma on_server_update_effect:
  assumes "map_of (rt_clients rt) c = Some cc" and "cc_stop_block_token cc" and "cc_server cc = None"
    and "map_of (rt_servers rt) s = Some sc" and "sc_stop_block_token sc" and "sc_client sc = None"
  shows "on_server_update c s rt =
    Ok (rt_emit [Client_state_change c True (sc_configuration sc)]
      (rt\<lparr>rt_servers := AList.update s (sc\<lparr>sc_client := Some c\<rparr>) (rt_servers rt),
         rt_clients := AList.update c (cc\<lparr>cc_server := Some s\<rparr>) (rt_clients rt)\<rparr>))"
  using assms
  by (simp add: on_server_update_def sc_receive_connect_def set_id_mappings_and_server_def client_reset_server_def
      client_receive_state_change_def)

text \<open>The state of a server without its client.\<close>

definition sc_vacated :: "Server_connector \<Rightarrow> Server_connector" where
  "sc_vacated sc = sc\<lparr>sc_subscriber := cleared sc, sc_update_requester := cleared sc, sc_client := None\<rparr>"

lemma sc_vacated_simps [simp]:
  "sc_client (sc_vacated sc) = None" "sc_configuration (sc_vacated sc) = sc_configuration sc"
  "sc_instance (sc_vacated sc) = sc_instance sc" "sc_registered (sc_vacated sc) = sc_registered sc"
  "sc_stop_block_token (sc_vacated sc) = sc_stop_block_token sc"
  by (simp_all add: sc_vacated_def)

lemma sc_vacated_wf: "sc_wf sc \<Longrightarrow> sc_wf (sc_vacated sc)"
  by (auto simp: sc_wf_def sc_vacated_def)

lemma server_remove_client_effect:
  fixes rt :: "'p Runtime"
  assumes "map_of (rt_servers rt) s = Some sc" and "sc_wf sc" and "sc_client sc = Some c"
  shows "\<exists>es. server_remove_client s rt = Ok (rt_emit es (rt\<lparr>rt_servers := AList.update s (sc_vacated sc) (rt_servers rt)\<rparr>))"
proof -
  obtain cbs :: "'p server_callback list" and sc' where r: "sc_remove_client sc = Ok (cbs, sc')"
    using assms(3) by (fastforce simp: sc_remove_client_def split: prod.splits)
  then have "sc' = sc_vacated sc" using sc_remove_client_effect [OF assms(2) r] by (simp add: sc_vacated_def)
  then show ?thesis using assms(1) r by (auto simp: server_remove_client_def)
qed

lemma client_reset_server_effect:
  fixes rt :: "'p Runtime"
  assumes "map_of (rt_clients rt) c = Some cc" and "cc_server cc = Some s"
    and "map_of (rt_servers rt) s = Some sc" and "sc_wf sc" and "sc_client sc = Some c'"
  shows "\<exists>es. client_reset_server c rt =
    Ok (rt_emit es (rt\<lparr>rt_clients := AList.update c (cc\<lparr>cc_server := None\<rparr>) (rt_clients rt),
                      rt_servers := AList.update s (sc_vacated sc) (rt_servers rt)\<rparr>))"
  using assms server_remove_client_effect [of "rt\<lparr>rt_clients := AList.update c (cc\<lparr>cc_server := None\<rparr>) (rt_clients rt)\<rparr>" s sc c']
  by (simp add: client_reset_server_def)

subsection \<open>Connections and records\<close>

abbreviation s_interface :: "Server_connector \<Rightarrow> Service_interface_identifier" where
  "s_interface sc \<equiv> def_interface (sc_configuration sc)"

abbreviation c_interface :: "Client_connector \<Rightarrow> Service_interface_identifier" where
  "c_interface cc \<equiv> def_interface (cc_configuration cc)"

text \<open>When a server is meant to serve a client.\<close>

definition serves :: "Server_connector \<Rightarrow> Client_connector \<Rightarrow> bool" where
  "serves sc cc \<longleftrightarrow> sc_registered sc \<and> sc_instance sc = cc_instance cc \<and> is_interface_compatible (s_interface sc) (c_interface cc)"

type_synonym clients = "client_ref \<rightharpoonup> Client_connector"
type_synonym servers = "server_ref \<rightharpoonup> Server_connector"
type_synonym records = "Service_interface_identifier \<Rightarrow> string \<Rightarrow> Service_record"

definition servers_ok :: "servers \<Rightarrow> nat \<Rightarrow> bool" where
  "servers_ok S n \<longleftrightarrow> (\<forall>s sc. S s = Some sc \<longrightarrow> sc_wf sc \<and> sc_stop_block_token sc = sc_registered sc \<and> s < n)"

definition clients_ok :: "clients \<Rightarrow> nat \<Rightarrow> bool" where
  "clients_ok C n \<longleftrightarrow> (\<forall>c cc. C c = Some cc \<longrightarrow> cc_stop_block_token cc \<and> cc_registered cc \<and> c < n)"

definition servers_recorded :: "servers \<Rightarrow> records \<Rightarrow> bool" where
  "servers_recorded S R \<longleftrightarrow> (\<forall>i inst si s. rec_server (R i inst) = Some (si, s) \<longleftrightarrow>
     (\<exists>sc. S s = Some sc \<and> sc_registered sc \<and> si = s_interface sc \<and> inst = sc_instance sc
        \<and> minor_version_ignoring_key_equal si i))"

definition clients_recorded :: "clients \<Rightarrow> records \<Rightarrow> bool" where
  "clients_recorded C R \<longleftrightarrow> (\<forall>i inst ci c. rec_client (R i inst) = Some (ci, c) \<longleftrightarrow>
     (\<exists>cc. C c = Some cc \<and> ci = c_interface cc \<and> inst = cc_instance cc \<and> minor_version_ignoring_key_equal ci i))"

definition linked :: "clients \<Rightarrow> servers \<Rightarrow> bool" where
  "linked C S \<longleftrightarrow>
     (\<forall>c cc s. C c = Some cc \<longrightarrow> (cc_server cc = Some s \<longleftrightarrow> (\<exists>sc. S s = Some sc \<and> serves sc cc)))
   \<and> (\<forall>s sc c. S s = Some sc \<longrightarrow> (sc_client sc = Some c \<longleftrightarrow> (\<exists>cc. C c = Some cc \<and> serves sc cc)))"

definition connections_ok :: "clients \<Rightarrow> servers \<Rightarrow> records \<Rightarrow> nat \<Rightarrow> bool" where
  "connections_ok C S R n \<longleftrightarrow> servers_ok S n \<and> clients_ok C n \<and> servers_recorded S R \<and> clients_recorded C R \<and> linked C S"

lemma compatible_key_equal:
  "is_interface_compatible a b \<longleftrightarrow> minor_version_ignoring_key_equal a b \<and> is_minor_version_compatible a b"
  by (auto simp: is_interface_compatible_def minor_version_ignoring_key_equal_def)

lemma serves_vacated [simp]: "serves (sc_vacated sc) cc \<longleftrightarrow> serves sc cc"
  by (simp add: serves_def)

lemma serves_client_update [simp]: "serves (sc\<lparr>sc_client := x\<rparr>) cc \<longleftrightarrow> serves sc cc"
  "serves sc (cc\<lparr>cc_server := y\<rparr>) \<longleftrightarrow> serves sc cc"
  by (simp_all add: serves_def)

lemma recorded_server:
  "servers_recorded S R \<Longrightarrow> S s = Some sc \<Longrightarrow> sc_registered sc \<Longrightarrow> minor_version_ignoring_key_equal (s_interface sc) i
    \<Longrightarrow> rec_server (R i (sc_instance sc)) = Some (s_interface sc, s)"
  by (auto simp: servers_recorded_def)

lemma recorded_client:
  "clients_recorded C R \<Longrightarrow> C c = Some cc \<Longrightarrow> minor_version_ignoring_key_equal (c_interface cc) i
    \<Longrightarrow> rec_client (R i (cc_instance cc)) = Some (c_interface cc, c)"
  by (auto simp: clients_recorded_def)

lemma serving_server:
  assumes "servers_recorded S R" and "S s = Some sc" and "serves sc cc"
  shows "rec_server (R (c_interface cc) (cc_instance cc)) = Some (s_interface sc, s)"
  using recorded_server [OF assms(1,2)] assms(3) by (simp add: serves_def compatible_key_equal)

lemma served_client:
  assumes "clients_recorded C R" and "C c = Some cc" and "serves sc cc"
  shows "rec_client (R (s_interface sc) (sc_instance sc)) = Some (c_interface cc, c)"
  using recorded_client [OF assms(1,2)] assms(3) by (simp add: serves_def compatible_key_equal key_equal_equivalence(2))

lemma links:
  "linked C S \<Longrightarrow> C c = Some cc \<Longrightarrow> cc_server cc = Some s \<longleftrightarrow> (\<exists>sc. S s = Some sc \<and> serves sc cc)"
  "linked C S \<Longrightarrow> S s = Some sc \<Longrightarrow> sc_client sc = Some c \<longleftrightarrow> (\<exists>cc. C c = Some cc \<and> serves sc cc)"
  by (simp_all add: linked_def)

definition rec_upd :: "Service_interface_identifier \<Rightarrow> string \<Rightarrow> Service_record \<Rightarrow> records \<Rightarrow> records" where
  "rec_upd i inst r R = (\<lambda>j inst'. if minor_version_ignoring_key_equal i j \<and> inst = inst' then r else R j inst')"

lemma servers_recorded_frame:
  "servers_recorded S R \<Longrightarrow> rec_server r = rec_server (R i inst) \<Longrightarrow> servers_recorded S (rec_upd i inst r R)"
  unfolding servers_recorded_def rec_upd_def minor_version_ignoring_key_equal_def by simp

lemma clients_recorded_frame:
  "clients_recorded C R \<Longrightarrow> rec_client r = rec_client (R i inst) \<Longrightarrow> clients_recorded C (rec_upd i inst r R)"
  unfolding clients_recorded_def rec_upd_def minor_version_ignoring_key_equal_def by simp

lemma servers_recorded_same:
  assumes "servers_recorded S R" and "S s = Some sc" and "sc_registered sc' = sc_registered sc"
    and "sc_configuration sc' = sc_configuration sc" and "sc_instance sc' = sc_instance sc"
  shows "servers_recorded (S(s \<mapsto> sc')) R"
  using assms unfolding servers_recorded_def by auto

lemma servers_recorded_unregistered:
  assumes "servers_recorded S R" and "\<And>sc. S s = Some sc \<Longrightarrow> \<not> sc_registered sc" and "\<not> sc_registered sc'"
  shows "servers_recorded (S(s \<mapsto> sc')) R" "servers_recorded (S(s := None)) R"
  using assms unfolding servers_recorded_def by auto

lemma servers_recorded_enable:
  assumes "servers_recorded S R" and "S s = Some sc" and "\<not> sc_registered sc"
    and "rec_server (R (s_interface sc) (sc_instance sc)) = None"
    and "sc_registered sc'" and "sc_configuration sc' = sc_configuration sc" and "sc_instance sc' = sc_instance sc"
    and "rec_server r = Some (s_interface sc, s)"
  shows "servers_recorded (S(s \<mapsto> sc')) (rec_upd (s_interface sc) (sc_instance sc) r R)"
proof -
  have "\<not> (sc_registered sc2 \<and> S s2 = Some sc2 \<and> sc_instance sc2 = sc_instance sc
           \<and> minor_version_ignoring_key_equal (s_interface sc2) (s_interface sc))" for s2 sc2
    using recorded_server [OF assms(1), of s2 sc2 "s_interface sc"] assms(4) by auto
  then show ?thesis using assms unfolding servers_recorded_def rec_upd_def minor_version_ignoring_key_equal_def
    by (auto split: if_splits)
qed

lemma servers_recorded_disable:
  assumes "servers_recorded S R" and "S s = Some sc" and "sc_registered sc" and "\<not> sc_registered sc'" and "rec_server r = None"
  shows "servers_recorded (S(s \<mapsto> sc')) (rec_upd (s_interface sc) (sc_instance sc) r R)"
proof -
  have "s2 = s" if "sc_registered sc2" "S s2 = Some sc2" "sc_instance sc2 = sc_instance sc"
           "minor_version_ignoring_key_equal (s_interface sc2) (s_interface sc)" for s2 sc2
    using recorded_server [OF assms(1) that(2,1,4)] recorded_server [OF assms(1-3) key_equal_equivalence(1)] that(3) by simp
  note unique = this
  show ?thesis unfolding servers_recorded_def
  proof (intro allI)
    fix i inst si s0
    show "rec_server (rec_upd (s_interface sc) (sc_instance sc) r R i inst) = Some (si, s0) \<longleftrightarrow>
      (\<exists>sc0. (S(s \<mapsto> sc')) s0 = Some sc0 \<and> sc_registered sc0 \<and> si = s_interface sc0 \<and> inst = sc_instance sc0
        \<and> minor_version_ignoring_key_equal si i)"
    proof (cases "minor_version_ignoring_key_equal (s_interface sc) i \<and> sc_instance sc = inst")
      case True
      then show ?thesis using assms(4,5) unique [of _ s0]
        by (auto simp: rec_upd_def minor_version_ignoring_key_equal_def) blast
    next
      case False
      then show ?thesis using assms(1,2,4) by (auto simp: rec_upd_def servers_recorded_def)
    qed
  qed
qed

lemma clients_recorded_same:
  assumes "clients_recorded C R" and "C c = Some cc" and "cc_configuration cc' = cc_configuration cc" and "cc_instance cc' = cc_instance cc"
  shows "clients_recorded (C(c \<mapsto> cc')) R"
  using assms unfolding clients_recorded_def by auto

lemma clients_recorded_add:
  assumes "clients_recorded C R" and "C c = None" and "rec_client (R (c_interface cc) (cc_instance cc)) = None"
    and "rec_client r = Some (c_interface cc, c)"
  shows "clients_recorded (C(c \<mapsto> cc)) (rec_upd (c_interface cc) (cc_instance cc) r R)"
proof -
  have "\<not> (C c2 = Some cc2 \<and> cc_instance cc2 = cc_instance cc
           \<and> minor_version_ignoring_key_equal (c_interface cc2) (c_interface cc))" for c2 cc2
    using recorded_client [OF assms(1), of c2 cc2 "c_interface cc"] assms(3) by auto
  then show ?thesis using assms unfolding clients_recorded_def rec_upd_def minor_version_ignoring_key_equal_def
    by (auto split: if_splits)
qed

lemma clients_recorded_remove:
  assumes "clients_recorded C R" and "C c = Some cc" and "rec_client r = None"
  shows "clients_recorded (C(c := None)) (rec_upd (c_interface cc) (cc_instance cc) r R)"
proof -
  have "c2 = c" if "C c2 = Some cc2" "cc_instance cc2 = cc_instance cc"
           "minor_version_ignoring_key_equal (c_interface cc2) (c_interface cc)" for c2 cc2
    using recorded_client [OF assms(1) that(1,3)] recorded_client [OF assms(1,2) key_equal_equivalence(1)] that(2) by simp
  note unique = this
  show ?thesis unfolding clients_recorded_def
  proof (intro allI)
    fix i inst ci c0
    show "rec_client (rec_upd (c_interface cc) (cc_instance cc) r R i inst) = Some (ci, c0) \<longleftrightarrow>
      (\<exists>cc0. (C(c := None)) c0 = Some cc0 \<and> ci = c_interface cc0 \<and> inst = cc_instance cc0
        \<and> minor_version_ignoring_key_equal ci i)"
    proof (cases "minor_version_ignoring_key_equal (c_interface cc) i \<and> cc_instance cc = inst")
      case True
      then show ?thesis using assms(3) unique [of c0]
        by (auto simp: rec_upd_def minor_version_ignoring_key_equal_def)
    next
      case False
      then show ?thesis using assms(1,2) by (auto simp: rec_upd_def clients_recorded_def)
    qed
  qed
qed

lemma linkedI:
  assumes "\<And>c cc s. C c = Some cc \<Longrightarrow> cc_server cc = Some s \<longleftrightarrow> (\<exists>sc. S s = Some sc \<and> serves sc cc)"
    and "\<And>s sc c. S s = Some sc \<Longrightarrow> sc_client sc = Some c \<longleftrightarrow> (\<exists>cc. C c = Some cc \<and> serves sc cc)"
  shows "linked C S"
  using assms by (simp add: linked_def)

lemma link_unique:
  assumes "linked C S" and "C c = Some cc" and "S s = Some sc" and "serves sc cc"
  shows "S s' = Some sc' \<Longrightarrow> serves sc' cc \<Longrightarrow> s' = s" and "C c' = Some cc' \<Longrightarrow> serves sc cc' \<Longrightarrow> c' = c"
  using links(1) [OF assms(1,2), of s'] links(1) [OF assms(1,2), of s]
    links(2) [OF assms(1,3), of c'] links(2) [OF assms(1,3), of c] assms by auto

text \<open>The links after each kind of change.\<close>

lemma linked_server_same:
  assumes "linked C S" and "S s = Some sc" and "\<And>cc. serves sc' cc = serves sc cc" and "sc_client sc' = sc_client sc"
  shows "linked C (S(s \<mapsto> sc'))"
  using assms unfolding linked_def by auto

lemma linked_idle_server:
  assumes "linked C S" and "\<And>sc c cc. S s = Some sc \<Longrightarrow> C c = Some cc \<Longrightarrow> \<not> serves sc cc"
    and "\<And>c cc. C c = Some cc \<Longrightarrow> \<not> serves sc' cc" and "sc_client sc' = None"
  shows "linked C (S(s \<mapsto> sc'))"
  using assms unfolding linked_def by (auto 0 3)

lemma linked_remove_server:
  assumes "linked C S" and "\<And>sc c cc. S s = Some sc \<Longrightarrow> C c = Some cc \<Longrightarrow> \<not> serves sc cc"
  shows "linked C (S(s := None))"
  using assms unfolding linked_def by auto

lemma linked_idle_client:
  assumes "linked C S" and "C c = None" and "\<And>s sc. S s = Some sc \<Longrightarrow> \<not> serves sc cc" and "cc_server cc = None"
  shows "linked (C(c \<mapsto> cc)) S"
  using assms unfolding linked_def by auto

lemma linked_remove_idle_client:
  assumes "linked C S" and "C c = Some cc" and "cc_server cc = None"
  shows "linked (C(c := None)) S"
proof (rule linkedI)
  fix s sc c' assume "S s = Some sc"
  then show "sc_client sc = Some c' \<longleftrightarrow> (\<exists>cc. (C(c := None)) c' = Some cc \<and> serves sc cc)"
    using links(2) [OF assms(1), of s sc c'] links(1) [OF assms(1,2), of s] assms(2,3) by auto
qed (use links(1) [OF assms(1)] in \<open>auto split: if_splits\<close>)

lemma linked_add_server:
  assumes "linked C S" and "S s = None" and "C c = Some cc" and "serves sc cc" and "sc_client sc = Some c"
    and "\<And>c' cc'. C c' = Some cc' \<Longrightarrow> serves sc cc' \<Longrightarrow> c' = c" and "cc_server cc = None"
  shows "linked (C(c \<mapsto> cc\<lparr>cc_server := Some s\<rparr>)) (S(s \<mapsto> sc))"
proof (rule linkedI)
  fix c' cc' s' assume c': "(C(c \<mapsto> cc\<lparr>cc_server := Some s\<rparr>)) c' = Some cc'"
  show "cc_server cc' = Some s' \<longleftrightarrow> (\<exists>sc'. (S(s \<mapsto> sc)) s' = Some sc' \<and> serves sc' cc')"
  proof (cases "c' = c")
    case True
    then have "cc' = cc\<lparr>cc_server := Some s\<rparr>" using c' by simp
    then show ?thesis using links(1) [OF assms(1,3), of s'] assms(4,7) by simp
  next
    case False
    then show ?thesis using c' links(1) [OF assms(1), of c' cc' s'] assms(2) assms(6) [of c' cc'] by (cases "s' = s") auto
  qed
next
  fix s' sc' c' assume s': "(S(s \<mapsto> sc)) s' = Some sc'"
  show "sc_client sc' = Some c' \<longleftrightarrow> (\<exists>cc'. (C(c \<mapsto> cc\<lparr>cc_server := Some s\<rparr>)) c' = Some cc' \<and> serves sc' cc')"
  proof (cases "s' = s")
    case True
    then have "sc' = sc" using s' by simp
    then show ?thesis using assms(4,5) assms(6) [of c'] by (cases "c' = c") auto
  next
    case False
    then show ?thesis using s' links(2) [OF assms(1), of s' sc' c'] assms(3) by (cases "c' = c") simp_all
  qed
qed

lemma linked_add_client:
  assumes "linked C S" and "C c = None" and "S s = Some sc" and "serves sc cc" and "cc_server cc = Some s"
    and "\<And>s' sc'. S s' = Some sc' \<Longrightarrow> serves sc' cc \<Longrightarrow> s' = s" and "sc_client sc = None"
  shows "linked (C(c \<mapsto> cc)) (S(s \<mapsto> sc\<lparr>sc_client := Some c\<rparr>))"
proof (rule linkedI)
  fix c' cc' s' assume c': "(C(c \<mapsto> cc)) c' = Some cc'"
  show "cc_server cc' = Some s' \<longleftrightarrow> (\<exists>sc'. (S(s \<mapsto> sc\<lparr>sc_client := Some c\<rparr>)) s' = Some sc' \<and> serves sc' cc')"
  proof (cases "c' = c")
    case True
    then have "cc' = cc" using c' by simp
    then show ?thesis using assms(4,5) assms(6) [of s'] by (cases "s' = s") auto
  next
    case False
    then show ?thesis using c' links(1) [OF assms(1), of c' cc' s'] assms(3) by (cases "s' = s") simp_all
  qed
next
  fix s' sc' c' assume s': "(S(s \<mapsto> sc\<lparr>sc_client := Some c\<rparr>)) s' = Some sc'"
  show "sc_client sc' = Some c' \<longleftrightarrow> (\<exists>cc'. (C(c \<mapsto> cc)) c' = Some cc' \<and> serves sc' cc')"
  proof (cases "s' = s")
    case True
    then have "sc' = sc\<lparr>sc_client := Some c\<rparr>" using s' by simp
    then show ?thesis using links(2) [OF assms(1,3), of c'] assms(4,7) by simp
  next
    case False
    then show ?thesis using s' links(2) [OF assms(1), of s' sc' c'] assms(2) assms(6) [of s' sc'] by (cases "c' = c") auto
  qed
qed

lemma linked_remove_client:
  assumes "linked C S" and "C c = Some cc" and "cc_server cc = Some s" and "S s = Some sc"
  shows "linked (C(c := None)) (S(s \<mapsto> sc_vacated sc))"
proof (rule linkedI)
  have sv: "serves sc cc" using links(1) [OF assms(1,2), of s] assms(3,4) by simp
  fix c' cc' s' assume c': "(C(c := None)) c' = Some cc'"
  show "cc_server cc' = Some s' \<longleftrightarrow> (\<exists>sc'. (S(s \<mapsto> sc_vacated sc)) s' = Some sc' \<and> serves sc' cc')"
    using links(1) [OF assms(1), of c' cc' s'] c' assms(4) by (auto split: if_splits)
next
  have sv: "serves sc cc" using links(1) [OF assms(1,2), of s] assms(3,4) by simp
  fix s' sc' c' assume s': "(S(s \<mapsto> sc_vacated sc)) s' = Some sc'"
  show "sc_client sc' = Some c' \<longleftrightarrow> (\<exists>cc'. (C(c := None)) c' = Some cc' \<and> serves sc' cc')"
    using links(2) [OF assms(1), of s' sc' c'] s' assms(2,4) link_unique(1) [OF assms(1,2,4) sv, of s' sc']
      link_unique(2) [OF assms(1,2,4) sv, of c'] by (auto split: if_splits)
qed

lemma linked_disable:
  assumes "linked C S" and "S s = Some sc" and "sc_client sc = Some c" and "C c = Some cc"
    and "\<And>cc. \<not> serves sc' cc" and "sc_client sc' = None"
  shows "linked (C(c \<mapsto> cc\<lparr>cc_server := None\<rparr>)) (S(s \<mapsto> sc'))"
proof -
  have sv: "serves sc cc" using links(2) [OF assms(1,2), of c] assms(3,4) by simp
  show ?thesis
  proof (rule linkedI)
    fix c1 cc1 s1 assume c1: "(C(c \<mapsto> cc\<lparr>cc_server := None\<rparr>)) c1 = Some cc1"
    show "cc_server cc1 = Some s1 \<longleftrightarrow> (\<exists>sc1. (S(s \<mapsto> sc')) s1 = Some sc1 \<and> serves sc1 cc1)"
      using links(1) [OF assms(1), of c1 cc1 s1] c1 assms(2,4,5) link_unique(1) [OF assms(1,4,2) sv, of s1]
        link_unique(2) [OF assms(1,4,2) sv, of c1 cc1] by (auto split: if_splits)
  next
    fix s1 sc1 c1 assume s1: "(S(s \<mapsto> sc')) s1 = Some sc1"
    show "sc_client sc1 = Some c1 \<longleftrightarrow> (\<exists>cc1. (C(c \<mapsto> cc\<lparr>cc_server := None\<rparr>)) c1 = Some cc1 \<and> serves sc1 cc1)"
      using links(2) [OF assms(1), of s1 sc1 c1] s1 assms(4-6) link_unique(1) [OF assms(1,4,2) sv, of s1 sc1]
      by (auto split: if_splits)
  qed
qed

subsection \<open>The invariant of the runtime\<close>

definition db_records :: "'p Runtime \<Rightarrow> records" where
  "db_records rt = (\<lambda>i inst. db_record i inst (rt_database rt))"

definition runtime_ok :: "'p Runtime \<Rightarrow> bool" where
  "runtime_ok rt \<longleftrightarrow> connections_ok (map_of (rt_clients rt)) (map_of (rt_servers rt)) (db_records rt) (rt_next rt)
     \<and> distinct (keys (rt_clients rt)) \<and> distinct (keys (rt_servers rt))"

lemma db_records_store:
  "rt_database rt' = db_store i inst r (rt_database rt) \<Longrightarrow> db_records rt' = rec_upd i inst r (db_records rt)"
  by (simp add: db_records_def rec_upd_def db_record_store fun_eq_iff)

lemma connections_ok_next: "connections_ok C S R n \<Longrightarrow> n \<le> m \<Longrightarrow> connections_ok C S R m"
  by (fastforce simp: connections_ok_def servers_ok_def clients_ok_def)

lemma runtime_ok_frame: "runtime_ok rt \<Longrightarrow> same_connections rt rt' \<Longrightarrow> runtime_ok rt'"
  by (auto simp: runtime_ok_def same_connections_def db_records_def intro: connections_ok_next)

lemma runtime_ok_emit [simp]: "runtime_ok (rt_emit es rt) = runtime_ok rt"
  by (simp add: runtime_ok_def db_records_def)

lemma runtime_okD:
  assumes "runtime_ok rt"
  shows "linked (map_of (rt_clients rt)) (map_of (rt_servers rt))"
    and "servers_recorded (map_of (rt_servers rt)) (db_records rt)"
    and "clients_recorded (map_of (rt_clients rt)) (db_records rt)"
    and "map_of (rt_servers rt) s = Some sc \<Longrightarrow> sc_wf sc \<and> sc_stop_block_token sc = sc_registered sc \<and> s < rt_next rt"
    and "map_of (rt_clients rt) c = Some cc \<Longrightarrow> cc_stop_block_token cc \<and> cc_registered cc \<and> c < rt_next rt"
  using assms by (auto simp: runtime_ok_def connections_ok_def servers_ok_def clients_ok_def)

lemma create_runtime_ok: "runtime_ok create_runtime"
  by (auto simp: runtime_ok_def connections_ok_def servers_ok_def clients_ok_def servers_recorded_def clients_recorded_def
      linked_def create_runtime_def db_records_def db_record_def db_find_def empty_record_def)

lemma runtime_okI:
  assumes "map_of (rt_clients rt) = C" and "map_of (rt_servers rt) = S" and "db_records rt = R"
    and "servers_ok S (rt_next rt)" and "clients_ok C (rt_next rt)" and "servers_recorded S R" and "clients_recorded C R"
    and "linked C S" and "distinct (keys (rt_clients rt))" and "distinct (keys (rt_servers rt))"
  shows "runtime_ok rt"
  using assms by (simp add: runtime_ok_def connections_ok_def)

lemma servers_ok_upd: "servers_ok S n \<Longrightarrow> n \<le> m \<Longrightarrow> sc_wf sc \<Longrightarrow> sc_stop_block_token sc = sc_registered sc \<Longrightarrow> s < m
    \<Longrightarrow> servers_ok (S(s \<mapsto> sc)) m"
  by (fastforce simp: servers_ok_def)

lemma clients_ok_upd: "clients_ok C n \<Longrightarrow> n \<le> m \<Longrightarrow> cc_stop_block_token cc \<Longrightarrow> cc_registered cc \<Longrightarrow> c < m
    \<Longrightarrow> clients_ok (C(c \<mapsto> cc)) m"
  by (fastforce simp: clients_ok_def)

lemma refs_ok_mono: "servers_ok S n \<Longrightarrow> n \<le> m \<Longrightarrow> servers_ok S m" "clients_ok C n \<Longrightarrow> n \<le> m \<Longrightarrow> clients_ok C m"
  "servers_ok S n \<Longrightarrow> servers_ok (S(s := None)) n" "clients_ok C n \<Longrightarrow> clients_ok (C(c := None)) n"
  by (fastforce simp: servers_ok_def clients_ok_def)+

lemma runtime_ok_parts:
  assumes "runtime_ok rt"
  shows "servers_ok (map_of (rt_servers rt)) (rt_next rt)" and "clients_ok (map_of (rt_clients rt)) (rt_next rt)"
    and "distinct (keys (rt_clients rt))" and "distinct (keys (rt_servers rt))"
  using assms by (auto simp: runtime_ok_def connections_ok_def)

lemma fresh_refs:
  assumes "runtime_ok rt"
  shows "map_of (rt_servers rt) (rt_next rt) = None" and "map_of (rt_clients rt) (rt_next rt) = None"
  using runtime_okD(4) [OF assms, of "rt_next rt"] runtime_okD(5) [OF assms, of "rt_next rt"]
  by (metis not_None_eq less_irrefl)+

lemmas map_of_update = update_conv'
lemmas map_of_delete = delete_conv'

subsubsection \<open>Servers\<close>

lemma make_server_ok:
  assumes "runtime_ok rt"
  shows "runtime_ok (snd (make_server_connector cbs cfg inst cred rt))"
proof -
  let ?s = "rt_next rt" and ?sc = "Server_connector_init cfg inst cred"
  define rt1 where "rt1 = rt\<lparr>rt_next := ?s + 1, rt_servers := AList.update ?s ?sc (rt_servers rt)\<rparr>"
  have idle: "\<not> sc_registered ?sc" "sc_client ?sc = None" "sc_stop_block_token ?sc = sc_registered ?sc"
    by (simp_all add: Server_connector_init_def)
  have "runtime_ok rt1"
  proof (rule runtime_okI)
    show "map_of (rt_servers rt1) = (map_of (rt_servers rt))(?s \<mapsto> ?sc)" by (simp add: rt1_def map_of_update)
    show "servers_ok ((map_of (rt_servers rt))(?s \<mapsto> ?sc)) (rt_next rt1)"
      using runtime_ok_parts(1) [OF assms] idle Server_connector_init_wf by (auto simp: rt1_def intro!: servers_ok_upd)
    show "servers_recorded ((map_of (rt_servers rt))(?s \<mapsto> ?sc)) (db_records rt)"
      using runtime_okD(2) [OF assms] fresh_refs(1) [OF assms] idle(1) by (intro servers_recorded_unregistered) auto
    show "linked (map_of (rt_clients rt)) ((map_of (rt_servers rt))(?s \<mapsto> ?sc))"
      using fresh_refs(1) [OF assms] idle by (intro linked_idle_server [OF runtime_okD(1) [OF assms]]) (auto simp: serves_def)
  qed (use assms runtime_ok_parts [OF assms] runtime_okD(3) [OF assms] in
        \<open>auto simp: rt1_def db_records_def distinct_update intro: refs_ok_mono\<close>)
  from runtime_ok_frame [OF this] show ?thesis
    using assms by (simp add: make_server_connector_def Let_def rt1_def same_connections_def)
qed

text \<open>Enabling: the database had no server under the key, so the assertion holds and the waiting
  client, if it is compatible, is connected.\<close>

definition sc_enabled :: "client_ref option \<Rightarrow> Server_connector \<Rightarrow> Server_connector" where
  "sc_enabled x sc = sc\<lparr>sc_stop_block_token := True, sc_client := x, sc_registered := True\<rparr>"

lemma sc_enabled_simps [simp]:
  "sc_client (sc_enabled x sc) = x" "sc_configuration (sc_enabled x sc) = sc_configuration sc"
  "sc_instance (sc_enabled x sc) = sc_instance sc" "sc_registered (sc_enabled x sc)" "sc_stop_block_token (sc_enabled x sc)"
  by (simp_all add: sc_enabled_def)

lemma sc_enabled_eq: "sc_client sc = None \<Longrightarrow> sc\<lparr>sc_stop_block_token := True, sc_registered := True\<rparr> = sc_enabled None sc"
  by (cases sc) (simp add: sc_enabled_def)

lemma server_changed_ok:
  assumes "runtime_ok rt" and "map_of (rt_servers rt) s = Some sc"
    and "rt_database rt' = db_store i inst (db_record i inst (rt_database rt)\<lparr>rec_server := x\<rparr>) (rt_database rt)"
    and "map_of (rt_servers rt') = (map_of (rt_servers rt))(s \<mapsto> sc')" and "distinct (keys (rt_servers rt'))"
    and "sc_wf sc'" and "sc_stop_block_token sc' = sc_registered sc'"
    and "servers_recorded ((map_of (rt_servers rt))(s \<mapsto> sc'))
          (rec_upd i inst (db_record i inst (rt_database rt)\<lparr>rec_server := x\<rparr>) (db_records rt))"
    and "map_of (rt_clients rt') = C" and "clients_ok C (rt_next rt)" and "clients_recorded C (db_records rt)"
    and "distinct (keys (rt_clients rt'))" and "linked C ((map_of (rt_servers rt))(s \<mapsto> sc'))" and "rt_next rt' = rt_next rt"
  shows "runtime_ok rt'"
proof (rule runtime_okI [OF assms(9,4) db_records_store [OF assms(3)]])
  show "servers_ok ((map_of (rt_servers rt))(s \<mapsto> sc')) (rt_next rt')"
    using servers_ok_upd [OF runtime_ok_parts(1) [OF assms(1)]] runtime_okD(4) [OF assms(1,2)] assms(6,7,14) by simp
  show "clients_recorded C (rec_upd i inst (db_record i inst (rt_database rt)\<lparr>rec_server := x\<rparr>) (db_records rt))"
    by (intro clients_recorded_frame [OF assms(11)]) (simp add: db_records_def)
qed (use assms in simp_all)

lemma enabled_server_ok:
  assumes "runtime_ok rt" and "map_of (rt_servers rt) s = Some sc" and "\<not> sc_registered sc"
    and "rec_server (db_record (s_interface sc) (sc_instance sc) (rt_database rt)) = None"
    and "rt_database rt' = db_store (s_interface sc) (sc_instance sc)
           (db_record (s_interface sc) (sc_instance sc) (rt_database rt)\<lparr>rec_server := Some (s_interface sc, s)\<rparr>) (rt_database rt)"
    and "rt_servers rt' = AList.update s (sc_enabled x sc) (rt_servers rt)" and "rt_next rt' = rt_next rt"
    and "map_of (rt_clients rt') = C" and "clients_ok C (rt_next rt)" and "clients_recorded C (db_records rt)"
    and "distinct (keys (rt_clients rt'))" and "linked C ((map_of (rt_servers rt))(s \<mapsto> sc_enabled x sc))"
  shows "runtime_ok rt'"
proof (rule server_changed_ok [OF assms(1,2,5)])
  have "sc_client sc = None" "sc_wf sc"
    using runtime_okD(4) [OF assms(1,2)] links(2) [OF runtime_okD(1) [OF assms(1)] assms(2)] assms(3) by (auto simp: serves_def)
  then show "sc_wf (sc_enabled x sc)" by (auto simp: sc_wf_def sc_enabled_def)
  show "servers_recorded ((map_of (rt_servers rt))(s \<mapsto> sc_enabled x sc)) (rec_upd (s_interface sc) (sc_instance sc)
      (db_record (s_interface sc) (sc_instance sc) (rt_database rt)\<lparr>rec_server := Some (s_interface sc, s)\<rparr>) (db_records rt))"
    using assms(4) by (intro servers_recorded_enable [OF runtime_okD(2) [OF assms(1)] assms(2,3)]) (simp_all add: db_records_def)
qed (use assms(6-12) runtime_ok_parts(4) [OF assms(1)] in \<open>simp_all add: map_of_update distinct_update\<close>)

text \<open>The client that waits for a server, if there is one: either it can be connected, or no client
  can.\<close>

lemma waiting_client_cases:
  assumes "runtime_ok rt" and "map_of (rt_servers rt) s = Some sc"
  obtains (idle) "\<And>c cc. map_of (rt_clients rt) c = Some cc \<Longrightarrow> \<not> serves (sc_enabled None sc) cc"
      and "rec_client (db_record (s_interface sc) (sc_instance sc) (rt_database rt)) = None
         \<or> (\<exists>ci c. rec_client (db_record (s_interface sc) (sc_instance sc) (rt_database rt)) = Some (ci, c)
               \<and> \<not> is_minor_version_compatible (s_interface sc) ci)"
  | (client) c cc where "map_of (rt_clients rt) c = Some cc" and "serves (sc_enabled (Some c) sc) cc"
      and "rec_client (db_record (s_interface sc) (sc_instance sc) (rt_database rt)) = Some (c_interface cc, c)"
      and "\<And>c' cc'. map_of (rt_clients rt) c' = Some cc' \<Longrightarrow> serves (sc_enabled (Some c) sc) cc' \<Longrightarrow> c' = c"
proof -
  let ?C = "map_of (rt_clients rt)" and ?i = "s_interface sc" and ?inst = "sc_instance sc"
  let ?r = "db_record ?i ?inst (rt_database rt)"
  note ok = runtime_okD [OF assms(1)]
  have served: "rec_client ?r = Some (c_interface cc, c)" if "?C c = Some cc" "serves (sc_enabled x sc) cc" for c cc x
    using served_client [OF ok(3) that] by (simp add: db_records_def)
  show thesis
  proof (cases "rec_client ?r")
    case None
    show ?thesis by (rule idle) (use served [of _ _ None] None in auto)
  next
    case (Some e)
    obtain ci c cc where e: "e = (ci, c)" "?C c = Some cc" "ci = c_interface cc" "?inst = cc_instance cc"
      "minor_version_ignoring_key_equal ci ?i"
      using ok(3) Some unfolding clients_recorded_def db_records_def by (metis surj_pair)
    show ?thesis
    proof (cases "is_minor_version_compatible ?i ci")
      case True
      then have sv: "serves (sc_enabled (Some c) sc) cc"
        using e(3-5) by (simp add: serves_def compatible_key_equal key_equal_equivalence(2))
      show ?thesis by (rule client [OF e(2) sv]) (use Some e served [of _ _ "Some c"] in auto)
    next
      case False
      have "\<not> serves (sc_enabled None sc) cc'" if c': "?C c' = Some cc'" for c' cc'
        using served [OF c', of None] Some e False by (auto simp: serves_def compatible_key_equal)
      then show ?thesis using idle Some e(1) False by blast
    qed
  qed
qed

lemma enable_server_ok:
  assumes "runtime_ok rt" and "map_of (rt_servers rt) s = Some sc" and "\<not> sc_registered sc"
    and "rec_server (db_record (s_interface sc) (sc_instance sc) (rt_database rt)) = None"
  shows "\<exists>rt'. enable_server s rt = Ok rt' \<and> runtime_ok rt'"
proof -
  let ?C = "map_of (rt_clients rt)" and ?S = "map_of (rt_servers rt)" and ?i = "s_interface sc" and ?inst = "sc_instance sc"
  let ?db = "db_store ?i ?inst (db_record ?i ?inst (rt_database rt)\<lparr>rec_server := Some (?i, s)\<rparr>) (rt_database rt)"
  note ok = runtime_okD [OF assms(1)] and parts = runtime_ok_parts [OF assms(1)] and enabled = enabled_server_ok [OF assms]
  have off: "\<not> serves sc cc" for cc using assms(3) by (simp add: serves_def)
  then have cl: "sc_client sc = None" using links(2) [OF ok(1) assms(2)] by (metis not_None_eq)
  show ?thesis using assms(1,2)
  proof (cases rule: waiting_client_cases)
    case idle
    let ?rt = "rt\<lparr>rt_database := ?db, rt_servers := AList.update s (sc_enabled None sc) (rt_servers rt)\<rparr>"
    have "\<exists>rt'. enable_server s rt = Ok rt' \<and> same_connections ?rt rt'"
      using idle(2) assms(2-4) cl
      by (auto simp: enable_server_def rt_register_server_def map_of_update Let_def same_connections_def sc_enabled_eq)
    moreover have "runtime_ok ?rt"
      by (rule enabled) (use ok(1) ok(3) parts idle(1) off assms(2) in
        \<open>auto simp: map_of_update distinct_update db_records_def intro!: linked_idle_server\<close>)
    ultimately show ?thesis using runtime_ok_frame by blast
  next
    case (client c cc)
    have cc: "cc_stop_block_token cc" "cc_registered cc" "c < rt_next rt" using ok(5) [OF client(1)] by simp_all
    have "\<not> serves sc' cc" if "?S s' = Some sc'" for s' sc'
      using recorded_server [OF ok(2) that, of ?i] client(2) assms(4)
      by (auto simp: serves_def compatible_key_equal minor_version_ignoring_key_equal_def db_records_def)
    then have free: "cc_server cc = None" using links(1) [OF ok(1) client(1)] by (metis not_None_eq)
    let ?rt = "rt\<lparr>rt_database := ?db, rt_clients := AList.update c (cc\<lparr>cc_server := Some s\<rparr>) (rt_clients rt),
                 rt_servers := AList.update s (sc_enabled (Some c) sc) (rt_servers rt)\<rparr>"
    have "\<exists>rt'. enable_server s rt = Ok rt' \<and> same_connections ?rt rt'"
      using client(1-3) assms(2-4) cl cc free
      by (auto simp: enable_server_def rt_register_server_def map_of_update Let_def same_connections_def sc_enabled_def serves_def
          compatible_key_equal on_server_update_effect)
    moreover have "linked (?C(c \<mapsto> cc\<lparr>cc_server := Some s\<rparr>)) ((?S(s := None))(s \<mapsto> sc_enabled (Some c) sc))"
      by (rule linked_add_server [OF linked_remove_server [OF ok(1)] _ client(1,2)]) (use off assms(2) client(4) free in simp_all)
    then have "runtime_ok ?rt"
      by (intro enabled [where C = "?C(c \<mapsto> cc\<lparr>cc_server := Some s\<rparr>)"])
        (use cc parts clients_ok_upd [OF parts(2)] clients_recorded_same [OF ok(3) client(1)] in \<open>simp_all add: map_of_update distinct_update\<close>)
    ultimately show ?thesis using runtime_ok_frame by blast
  qed
qed

text \<open>Disabling always succeeds, and nobody holds an endpoint of the server afterwards: both waits
  end.\<close>

abbreviation sc_off :: "Server_connector \<Rightarrow> Server_connector" where
  "sc_off sc \<equiv> sc_unsubscribe_all (sc\<lparr>sc_registered := False, sc_stop_block_token := False\<rparr>)"

lemma sc_off_simps [simp]:
  "sc_client (sc_off sc) = sc_client sc" "sc_registered (sc_off sc) = False" "sc_stop_block_token (sc_off sc) = False"
  by (simp_all add: sc_unsubscribe_all_def)

lemma sc_off_wf: "sc_wf sc \<Longrightarrow> sc_wf (sc_off sc)"
  by (rule sc_unsubscribe_all_wf) (simp add: sc_wf_def)

lemma disabled_server_ok:
  assumes "runtime_ok rt" and "map_of (rt_servers rt) s = Some sc" and "sc_registered sc"
    and "rt_database rt' = db_store (s_interface sc) (sc_instance sc)
           (db_record (s_interface sc) (sc_instance sc) (rt_database rt)\<lparr>rec_server := None\<rparr>) (rt_database rt)"
    and "map_of (rt_servers rt') = (map_of (rt_servers rt))(s \<mapsto> sc')" and "distinct (keys (rt_servers rt'))"
    and "sc_wf sc'" and "\<not> sc_registered sc'" and "\<not> sc_stop_block_token sc'" and "rt_next rt' = rt_next rt"
    and "map_of (rt_clients rt') = C" and "clients_ok C (rt_next rt)" and "clients_recorded C (db_records rt)"
    and "distinct (keys (rt_clients rt'))" and "linked C ((map_of (rt_servers rt))(s \<mapsto> sc'))"
  shows "runtime_ok rt'"
proof (rule server_changed_ok [OF assms(1,2,4,5)])
  show "servers_recorded ((map_of (rt_servers rt))(s \<mapsto> sc')) (rec_upd (s_interface sc) (sc_instance sc)
      (db_record (s_interface sc) (sc_instance sc) (rt_database rt)\<lparr>rec_server := None\<rparr>) (db_records rt))"
    by (rule servers_recorded_disable [OF runtime_okD(2) [OF assms(1)] assms(2,3,8)]) simp
qed (use assms(6-15) in simp_all)

lemma no_endpoint_of_disabled:
  assumes "runtime_ok rt" and "map_of (rt_servers rt) s = Some sc" and "\<not> sc_registered sc"
  shows "\<not> server_endpoint_held s rt"
proof
  assume "server_endpoint_held s rt"
  then obtain c cc where c: "(c, cc) \<in> set (rt_clients rt)" and s: "cc_server cc = Some s"
    unfolding server_endpoint_held_def by (metis surj_pair snd_conv)
  have "map_of (rt_clients rt) c = Some cc" using mem_assoc_iff [OF runtime_ok_parts(3) [OF assms(1)], of c cc] c by blast
  from links(1) [OF runtime_okD(1) [OF assms(1)] this, of s] obtain sc' where "map_of (rt_servers rt) s = Some sc'" "serves sc' cc"
    using s by blast
  then show False using assms(2,3) by (simp add: serves_def)
qed

lemma disable_server_ok:
  assumes "runtime_ok rt" and "map_of (rt_servers rt) s = Some sc"
  shows "\<exists>rt' sc'. disable_server s rt = Ok (True, rt') \<and> runtime_ok rt' \<and> map_of (rt_servers rt') s = Some sc'
    \<and> \<not> sc_registered sc'"
proof (cases "sc_registered sc")
  case False
  then show ?thesis using assms by (simp add: disable_server_def)
next
  case True
  let ?C = "map_of (rt_clients rt)" and ?S = "map_of (rt_servers rt)" and ?i = "s_interface sc" and ?inst = "sc_instance sc"
  let ?db = "db_store ?i ?inst (db_record ?i ?inst (rt_database rt)\<lparr>rec_server := None\<rparr>) (rt_database rt)"
  let ?rt1 = "rt\<lparr>rt_database := ?db, rt_servers := AList.update s (sc_off sc) (rt_servers rt)\<rparr>"
  note ok = runtime_okD [OF assms(1)] and parts = runtime_ok_parts [OF assms(1)] and disabled = disabled_server_ok [OF assms True]
  have wf: "sc_wf (sc_off sc)" "sc_wf (sc_vacated (sc_off sc))" using ok(4) [OF assms(2)] by (simp_all add: sc_off_wf sc_vacated_wf)
  have "\<exists>rt' sc'. send_all_not_available s (sc_off sc) ?rt1 = Ok rt' \<and> runtime_ok rt' \<and> map_of (rt_servers rt') s = Some sc'
    \<and> \<not> sc_registered sc'"
  proof (cases "sc_client sc")
    case None
    have "\<not> serves sc cc" if "?C c = Some cc" for c cc using links(2) [OF ok(1) assms(2), of c] None that by auto
    then have "linked ?C (?S(s \<mapsto> sc_off sc))"
      by (intro linked_idle_server [OF ok(1)]) (use None assms(2) in \<open>auto simp: serves_def\<close>)
    then have "runtime_ok ?rt1"
      by (rule disabled [rotated -1]) (use wf ok(3) parts in \<open>simp_all add: map_of_update distinct_update\<close>)
    then show ?thesis using None by (simp add: send_all_not_available_def map_of_update)
  next
    case (Some c)
    obtain cc where cc: "?C c = Some cc" "serves sc cc" using links(2) [OF ok(1) assms(2), of c] Some by blast
    then have cs: "cc_server cc = Some s" using links(1) [OF ok(1), of c cc s] assms(2) by blast
    let ?rt2 = "?rt1\<lparr>rt_clients := AList.update c (cc\<lparr>cc_server := None\<rparr>) (rt_clients ?rt1),
                    rt_servers := AList.update s (sc_vacated (sc_off sc)) (rt_servers ?rt1)\<rparr>"
    have "\<exists>es. client_reset_server c ?rt1 = Ok (rt_emit es ?rt2)"
      using client_reset_server_effect [of ?rt1 c cc s "sc_off sc" c] cc(1) cs Some wf(1) by (simp add: map_of_update)
    then have "\<exists>es. send_all_not_available s (sc_off sc) ?rt1 = Ok (rt_emit es ?rt2)"
      using Some by (auto simp: send_all_not_available_def client_receive_state_change_def rt_emit_def)
    moreover have "linked (?C(c \<mapsto> cc\<lparr>cc_server := None\<rparr>)) (?S(s \<mapsto> sc_vacated (sc_off sc)))"
      by (rule linked_disable [OF ok(1) assms(2) Some cc(1)]) (simp_all add: serves_def)
    then have "runtime_ok ?rt2"
      by (rule disabled [rotated -1]) (use wf ok(5) [OF cc(1)] parts clients_ok_upd [OF parts(2)]
        clients_recorded_same [OF ok(3) cc(1)] in \<open>simp_all add: map_of_update distinct_update\<close>)
    ultimately show ?thesis by (auto simp: map_of_update)
  qed
  then obtain rt' sc' where r: "send_all_not_available s (sc_off sc) ?rt1 = Ok rt'" "runtime_ok rt'"
    "map_of (rt_servers rt') s = Some sc'" "\<not> sc_registered sc'" by blast
  then show ?thesis using assms(2) True no_endpoint_of_disabled [OF r(2-4)] by (simp add: disable_server_def Let_def)
qed

lemma destroy_server_ok:
  assumes "runtime_ok rt" and "map_of (rt_servers rt) s = Some sc"
  shows "\<exists>rt'. destroy_server s rt = Ok (True, rt') \<and> runtime_ok rt'"
proof -
  obtain rt1 sc1 where d: "disable_server s rt = Ok (True, rt1)" "runtime_ok rt1" "map_of (rt_servers rt1) s = Some sc1" "\<not> sc_registered sc1"
    using disable_server_ok [OF assms] by blast
  let ?rt = "rt1\<lparr>rt_servers := AList.delete s (rt_servers rt1)\<rparr>"
  have "runtime_ok ?rt"
  proof (rule runtime_okI)
    show "map_of (rt_servers ?rt) = (map_of (rt_servers rt1))(s := None)" by (simp add: map_of_delete)
    show "servers_recorded ((map_of (rt_servers rt1))(s := None)) (db_records rt1)"
      by (rule servers_recorded_unregistered(2) [OF runtime_okD(2) [OF d(2)] _ d(4)]) (use d(3,4) in simp)
    show "linked (map_of (rt_clients rt1)) ((map_of (rt_servers rt1))(s := None))"
      by (rule linked_remove_server [OF runtime_okD(1) [OF d(2)]]) (use d(3,4) in \<open>simp add: serves_def\<close>)
    show "servers_ok ((map_of (rt_servers rt1))(s := None)) (rt_next ?rt)" using runtime_ok_parts(1) [OF d(2)] by (simp add: refs_ok_mono)
  qed (use runtime_ok_parts [OF d(2)] runtime_okD(3) [OF d(2)] in \<open>simp_all add: db_records_def distinct_delete\<close>)
  from runtime_ok_frame [OF this] show ?thesis using d(1) assms(2) by (simp add: destroy_server_def same_connections_def)
qed

subsubsection \<open>Clients\<close>

lemma client_added_ok:
  assumes "runtime_ok rt" and "rec_client (db_record (c_interface cc) (cc_instance cc) (rt_database rt)) = None"
    and "rt_database rt' = db_store (c_interface cc) (cc_instance cc)
           (db_record (c_interface cc) (cc_instance cc) (rt_database rt)\<lparr>rec_client := Some (c_interface cc, rt_next rt)\<rparr>) (rt_database rt)"
    and "map_of (rt_clients rt') = (map_of (rt_clients rt))(rt_next rt \<mapsto> cc)" and "distinct (keys (rt_clients rt'))"
    and "cc_stop_block_token cc" and "cc_registered cc" and "rt_next rt < rt_next rt'"
    and "map_of (rt_servers rt') = S" and "servers_ok S (rt_next rt)" and "servers_recorded S (db_records rt)"
    and "distinct (keys (rt_servers rt'))" and "linked ((map_of (rt_clients rt))(rt_next rt \<mapsto> cc)) S"
  shows "runtime_ok rt'"
proof (rule runtime_okI [OF assms(4,9) db_records_store [OF assms(3)]])
  let ?r = "db_record (c_interface cc) (cc_instance cc) (rt_database rt)\<lparr>rec_client := Some (c_interface cc, rt_next rt)\<rparr>"
  show "servers_ok S (rt_next rt')" using refs_ok_mono(1) [OF assms(10)] assms(8) by simp
  show "clients_ok ((map_of (rt_clients rt))(rt_next rt \<mapsto> cc)) (rt_next rt')"
    using clients_ok_upd [OF runtime_ok_parts(2) [OF assms(1)]] assms(6-8) by simp
  show "servers_recorded S (rec_upd (c_interface cc) (cc_instance cc) ?r (db_records rt))"
    by (rule servers_recorded_frame [OF assms(11)]) (simp add: db_records_def)
  show "clients_recorded ((map_of (rt_clients rt))(rt_next rt \<mapsto> cc)) (rec_upd (c_interface cc) (cc_instance cc) ?r (db_records rt))"
    by (rule clients_recorded_add [OF runtime_okD(3) [OF assms(1)] fresh_refs(2) [OF assms(1)]]) (simp_all add: db_records_def assms(2))
qed (use assms in simp_all)

lemma offering_server_cases:
  assumes "runtime_ok rt"
  obtains (none) "rec_server (db_record (c_interface cc) (cc_instance cc) (rt_database rt)) = None"
      and "\<And>s sc. map_of (rt_servers rt) s = Some sc \<Longrightarrow> \<not> serves sc cc"
  | (incompatible) si s where "rec_server (db_record (c_interface cc) (cc_instance cc) (rt_database rt)) = Some (si, s)"
      and "\<not> is_minor_version_compatible si (c_interface cc)"
      and "\<And>s sc. map_of (rt_servers rt) s = Some sc \<Longrightarrow> \<not> serves sc cc"
  | (server) s sc where "map_of (rt_servers rt) s = Some sc" and "serves sc cc"
      and "rec_server (db_record (c_interface cc) (cc_instance cc) (rt_database rt)) = Some (s_interface sc, s)"
      and "\<And>s' sc'. map_of (rt_servers rt) s' = Some sc' \<Longrightarrow> serves sc' cc \<Longrightarrow> s' = s"
proof -
  let ?S = "map_of (rt_servers rt)" and ?r = "db_record (c_interface cc) (cc_instance cc) (rt_database rt)"
  note ok = runtime_okD [OF assms]
  have serving: "rec_server ?r = Some (s_interface sc, s)" if "?S s = Some sc" "serves sc cc" for s sc
    using serving_server [OF ok(2) that] by (simp add: db_records_def)
  show thesis
  proof (cases "rec_server ?r")
    case None
    have "\<not> serves sc cc" if s: "?S s = Some sc" for s sc using serving [OF s] None by auto
    then show ?thesis using none None by blast
  next
    case (Some e)
    obtain si s sc where e: "e = (si, s)" "?S s = Some sc" "sc_registered sc" "si = s_interface sc" "cc_instance cc = sc_instance sc"
      "minor_version_ignoring_key_equal si (c_interface cc)"
      using ok(2) Some unfolding servers_recorded_def db_records_def by (metis surj_pair)
    show ?thesis
    proof (cases "is_minor_version_compatible si (c_interface cc)")
      case True
      then have sv: "serves sc cc" using e by (simp add: serves_def compatible_key_equal)
      have "s' = s" if "?S s' = Some sc'" "serves sc' cc" for s' sc' using serving [OF that] Some e(1) by simp
      then show ?thesis using server [OF e(2) sv] Some e(1,4) by blast
    next
      case False
      have "\<not> serves sc' cc" if s': "?S s' = Some sc'" for s' sc'
        using serving [OF s'] Some e False by (auto simp: serves_def compatible_key_equal)
      then show ?thesis using incompatible Some e(1) False by blast
    qed
  qed
qed

definition new_client :: "Service_interface_definition \<Rightarrow> string \<Rightarrow> Posix_credentials \<Rightarrow> server_ref option \<Rightarrow> bool \<Rightarrow> nat option \<Rightarrow> Client_connector" where
  "new_client cfg inst cred srv reg m =
    \<lparr>cc_configuration = cfg, cc_instance = inst, cc_stop_block_token = True, cc_server = srv,
     cc_registered = reg, cc_requests = m, cc_credentials = cred\<rparr>"

lemma new_client_simps [simp]:
  "cc_configuration (new_client cfg inst cred srv reg m) = cfg" "cc_instance (new_client cfg inst cred srv reg m) = inst"
  "cc_stop_block_token (new_client cfg inst cred srv reg m)" "cc_server (new_client cfg inst cred srv reg m) = srv"
  "cc_registered (new_client cfg inst cred srv reg m) = reg"
  "new_client cfg inst cred srv reg m\<lparr>cc_server := srv'\<rparr> = new_client cfg inst cred srv' reg m"
  "new_client cfg inst cred srv reg m\<lparr>cc_registered := reg', cc_requests := m'\<rparr> = new_client cfg inst cred srv reg' m'"
  by (simp_all add: new_client_def)

lemma serves_new_client: "serves sc (new_client cfg inst cred srv reg m) \<longleftrightarrow> serves sc (new_client cfg inst cred None False None)"
  by (simp add: serves_def)

lemma db_record_equal: "minor_version_ignoring_key_equal i j \<Longrightarrow> db_record i inst db = db_record j inst db"
  by (simp add: db_record_def db_find_equal)

lemma make_client_duplicate_ok:
  assumes "runtime_ok rt" and "rt_next rt \<le> rt_next rt'" and "rt_servers rt' = rt_servers rt"
    and "rt_clients rt' = AList.delete (rt_next rt) (AList.update (rt_next rt) cc (rt_clients rt))"
    and "rt_database rt' = db_store i inst (db_record i inst (rt_database rt)) (rt_database rt)"
  shows "runtime_ok rt'"
proof -
  have "map_of (rt_clients rt') = map_of (rt_clients rt)"
    using fresh_refs(2) [OF assms(1)] assms(4) by (auto simp: map_of_delete map_of_update)
  moreover have "db_records rt' = db_records rt"
    using assms(5) db_record_equal by (auto simp: db_records_def db_record_store fun_eq_iff)
  ultimately show ?thesis using assms connections_ok_next [of _ _ _ "rt_next rt" "rt_next rt'"]
    by (simp add: runtime_ok_def distinct_update distinct_delete)
qed

text \<open>Registering a client: what the runtime does in the four cases.\<close>

lemma make_client_finish:
  assumes "is_valid_client cbs"
    and "rt_register_client cfg inst (rt_next rt)
          (rt\<lparr>rt_next := rt_next rt + 1, rt_clients := AList.update (rt_next rt) (new_client cfg inst cred None False None) (rt_clients rt)\<rparr>)
        = Ok (Ok m, rt2)"
    and "map_of (rt_clients rt2) (rt_next rt) = Some (new_client cfg inst cred srv False None)"
  shows "make_client_connector cbs cfg inst cred rt =
    Ok (Ok (rt_next rt), rt2\<lparr>rt_clients := AList.update (rt_next rt) (new_client cfg inst cred srv True m) (rt_clients rt2)\<rparr>)"
  using assms by (simp add: make_client_connector_def Let_def new_client_def)

lemma no_server_registers:
  assumes "rec_client (db_record (def_interface cfg) inst (rt_database rt0)) = None"
    and "rec_server (db_record (def_interface cfg) inst (rt_database rt0)) = None"
  shows "\<exists>m rt2. rt_register_client cfg inst c rt0 = Ok (Ok (Some m), rt2)
    \<and> same_connections (rt0\<lparr>rt_database := db_store (def_interface cfg) inst
        (db_record (def_interface cfg) inst (rt_database rt0)\<lparr>rec_client := Some (def_interface cfg, c)\<rparr>) (rt_database rt0)\<rparr>) rt2"
proof -
  let ?rt1 = "rt0\<lparr>rt_database := db_store (def_interface cfg) inst
        (db_record (def_interface cfg) inst (rt_database rt0)\<lparr>rec_client := Some (def_interface cfg, c)\<rparr>) (rt_database rt0)\<rparr>"
  obtain m rt2 where "get_or_create_service_requests cfg inst ?rt1 = (m, rt2)" by fastforce
  then show ?thesis using assms get_bridge_requests_frame [of ?rt1 cfg inst None]
    by (simp add: rt_register_client_def Let_def get_or_create_service_requests_def)
qed

abbreviation rt_with_client :: "Service_interface_definition \<Rightarrow> string \<Rightarrow> Posix_credentials \<Rightarrow> 'p Runtime \<Rightarrow> 'p Runtime" where
  "rt_with_client cfg inst cred rt \<equiv>
    rt\<lparr>rt_next := rt_next rt + 1, rt_clients := AList.update (rt_next rt) (new_client cfg inst cred None False None) (rt_clients rt)\<rparr>"

abbreviation db_with_client :: "Service_interface_definition \<Rightarrow> string \<Rightarrow> client_ref \<Rightarrow> Service_database \<Rightarrow> Service_database" where
  "db_with_client cfg inst c db \<equiv>
    db_store (def_interface cfg) inst (db_record (def_interface cfg) inst db\<lparr>rec_client := Some (def_interface cfg, c)\<rparr>) db"

lemma new_client_ok:
  assumes "runtime_ok rt" and "rec_client (db_record (def_interface cfg) inst (rt_database rt)) = None"
    and "linked ((map_of (rt_clients rt))(rt_next rt \<mapsto> new_client cfg inst cred srv True m)) S"
    and "servers_ok S (rt_next rt)" and "servers_recorded S (db_records rt)"
    and "rt_database rt2 = db_with_client cfg inst (rt_next rt) (rt_database rt)"
    and "map_of (rt_clients rt2) = (map_of (rt_clients rt))(rt_next rt \<mapsto> cc)" and "distinct (keys (rt_clients rt2))"
    and "rt_next rt < rt_next rt2" and "map_of (rt_servers rt2) = S" and "distinct (keys (rt_servers rt2))"
  shows "runtime_ok (rt2\<lparr>rt_clients := AList.update (rt_next rt) (new_client cfg inst cred srv True m) (rt_clients rt2)\<rparr>)"
  by (rule client_added_ok [OF assms(1), of "new_client cfg inst cred srv True m"]) (use assms(2-) in \<open>simp_all add: map_of_update distinct_update\<close>)

lemma make_client_unconnected:
  assumes "runtime_ok rt" and "is_valid_client cbs" and "rec_client (db_record (def_interface cfg) inst (rt_database rt)) = None"
    and "rt_register_client cfg inst (rt_next rt) (rt_with_client cfg inst cred rt) = Ok (Ok m, rt2)"
    and "same_connections ((rt_with_client cfg inst cred rt)\<lparr>rt_database := db_with_client cfg inst (rt_next rt) (rt_database rt)\<rparr>) rt2"
    and "\<And>s sc. map_of (rt_servers rt) s = Some sc \<Longrightarrow> \<not> serves sc (new_client cfg inst cred None False None)"
  shows "\<exists>r rt'. make_client_connector cbs cfg inst cred rt = Ok (r, rt') \<and> runtime_ok rt'"
proof -
  note ok = runtime_okD [OF assms(1)] and parts = runtime_ok_parts [OF assms(1)]
  have "linked ((map_of (rt_clients rt))(rt_next rt \<mapsto> new_client cfg inst cred None True m)) (map_of (rt_servers rt))"
    by (rule linked_idle_client [OF ok(1) fresh_refs(2) [OF assms(1)]]) (use assms(6) in \<open>simp_all add: serves_new_client [of _ _ _ _ _ True]\<close>)
  then have "runtime_ok (rt2\<lparr>rt_clients := AList.update (rt_next rt) (new_client cfg inst cred None True m) (rt_clients rt2)\<rparr>)"
    by (rule new_client_ok [OF assms(1,3) _ parts(1) ok(2)])
      (use assms(5) parts in \<open>auto simp: same_connections_def map_of_update distinct_update\<close>)
  then show ?thesis using make_client_finish [OF assms(2,4), of None] assms(5) by (auto simp: same_connections_def map_of_update)
qed

lemma make_client_connected:
  assumes "runtime_ok rt" and "is_valid_client cbs" and "rec_client (db_record (def_interface cfg) inst (rt_database rt)) = None"
    and "map_of (rt_servers rt) s = Some sc" and "serves sc (new_client cfg inst cred None False None)"
    and "rec_server (db_record (def_interface cfg) inst (rt_database rt)) = Some (s_interface sc, s)"
    and "\<And>s' sc'. map_of (rt_servers rt) s' = Some sc' \<Longrightarrow> serves sc' (new_client cfg inst cred None False None) \<Longrightarrow> s' = s"
  shows "\<exists>r rt'. make_client_connector cbs cfg inst cred rt = Ok (r, rt') \<and> runtime_ok rt'"
proof -
  let ?c = "rt_next rt" and ?i = "def_interface cfg" and ?C = "map_of (rt_clients rt)" and ?S = "map_of (rt_servers rt)"
  let ?cc = "new_client cfg inst cred"
  let ?rt1 = "(rt_with_client cfg inst cred rt)\<lparr>rt_database := db_with_client cfg inst ?c (rt_database rt)\<rparr>"
  let ?rt2 = "rt_emit [Client_state_change ?c True (sc_configuration sc)]
      (?rt1\<lparr>rt_servers := AList.update s (sc\<lparr>sc_client := Some ?c\<rparr>) (rt_servers rt),
           rt_clients := AList.update ?c (?cc (Some s) False None) (rt_clients ?rt1)\<rparr>)"
  note ok = runtime_okD [OF assms(1)] and parts = runtime_ok_parts [OF assms(1)]
  have sc: "sc_wf sc" "sc_stop_block_token sc" "sc_registered sc" "s < ?c"
    using ok(4) [OF assms(4)] assms(5) by (simp_all add: serves_def)
  have "\<not> serves sc cc'" if "?C c' = Some cc'" for c' cc'
    using recorded_client [OF ok(3) that, of ?i] assms(3,5)
    by (auto simp: serves_def compatible_key_equal minor_version_ignoring_key_equal_def db_records_def)
  then have free: "sc_client sc = None" using links(2) [OF ok(1) assms(4)] by (metis not_None_eq)
  have "on_server_update ?c s ?rt1 = Ok ?rt2"
    using on_server_update_effect [of ?rt1 ?c "?cc None False None" s sc] assms(4) sc free by (simp add: map_of_update)
  then have "rt_register_client cfg inst ?c (rt_with_client cfg inst cred rt) = Ok (Ok None, ?rt2)"
    using assms(3,5,6) by (simp add: rt_register_client_def Let_def serves_def compatible_key_equal)
  note fin = make_client_finish [OF assms(2) this, of "Some s"]
  have "linked (?C(?c \<mapsto> ?cc (Some s) True None)) (?S(s \<mapsto> sc\<lparr>sc_client := Some ?c\<rparr>))"
    by (rule linked_add_client [OF ok(1) fresh_refs(2) [OF assms(1)] assms(4)])
      (use assms(5,7) free in \<open>simp_all add: serves_new_client [of _ _ _ _ _ True]\<close>)
  then have "runtime_ok (?rt2\<lparr>rt_clients := AList.update ?c (?cc (Some s) True None) (rt_clients ?rt2)\<rparr>)"
  proof (rule new_client_ok [OF assms(1,3)])
    show "servers_ok (?S(s \<mapsto> sc\<lparr>sc_client := Some ?c\<rparr>)) ?c"
      by (rule servers_ok_upd [OF parts(1)]) (use sc free in \<open>auto simp: sc_wf_def\<close>)
    show "servers_recorded (?S(s \<mapsto> sc\<lparr>sc_client := Some ?c\<rparr>)) (db_records rt)"
      by (rule servers_recorded_same [OF ok(2) assms(4)]) simp_all
  qed (use parts in \<open>simp_all add: map_of_update distinct_update\<close>)
  then show ?thesis using fin by (simp add: map_of_update)
qed

lemma make_client_ok:
  assumes "runtime_ok rt"
  shows "\<exists>r rt'. make_client_connector cbs cfg inst cred rt = Ok (r, rt') \<and> runtime_ok rt'"
proof (cases "is_valid_client cbs \<and> rec_client (db_record (def_interface cfg) inst (rt_database rt)) = None")
  case False
  then show ?thesis using assms
    by (auto simp: make_client_connector_def rt_register_client_def Let_def new_client_def
        intro!: make_client_duplicate_ok [OF assms, of _ "new_client cfg inst cred None False None" "def_interface cfg" inst])
next
  case True
  then have v: "is_valid_client cbs" and r: "rec_client (db_record (def_interface cfg) inst (rt_database rt)) = None" by simp_all
  show ?thesis using assms
  proof (cases rule: offering_server_cases [of _ "new_client cfg inst cred None False None"])
    case none
    then obtain m rt2 where "rt_register_client cfg inst (rt_next rt) (rt_with_client cfg inst cred rt) = Ok (Ok (Some m), rt2)"
      "same_connections ((rt_with_client cfg inst cred rt)\<lparr>rt_database := db_with_client cfg inst (rt_next rt) (rt_database rt)\<rparr>) rt2"
      using no_server_registers [of cfg inst "rt_with_client cfg inst cred rt" "rt_next rt"] r by auto
    then show ?thesis by (rule make_client_unconnected [OF assms v r]) (rule none(2))
  next
    case (incompatible si s)
    then have "rt_register_client cfg inst (rt_next rt) (rt_with_client cfg inst cred rt) = Ok (Ok None, rt_emit [Logged_incompatible]
        ((rt_with_client cfg inst cred rt)\<lparr>rt_database := db_with_client cfg inst (rt_next rt) (rt_database rt)\<rparr>))"
      using r by (simp add: rt_register_client_def Let_def)
    then show ?thesis by (rule make_client_unconnected [OF assms v r]) (simp add: same_connections_def, rule incompatible(3))
  next
    case (server s sc)
    show ?thesis by (rule make_client_connected [OF assms v r server(1,2)]) (use server(3) in simp, erule (1) server(4))
  qed
qed

text \<open>Destruction of a client: the server it was connected to lets go of it, so the wait for its
  token ends.\<close>

lemma client_removed_ok:
  assumes "runtime_ok rt" and "map_of (rt_clients rt) c = Some cc"
    and "rt_database rt' = db_store (c_interface cc) (cc_instance cc)
           (db_record (c_interface cc) (cc_instance cc) (rt_database rt)\<lparr>rec_client := None\<rparr>) (rt_database rt)"
    and "map_of (rt_clients rt') = (map_of (rt_clients rt))(c := None)" and "distinct (keys (rt_clients rt'))"
    and "map_of (rt_servers rt') = S" and "servers_ok S (rt_next rt)" and "servers_recorded S (db_records rt)"
    and "distinct (keys (rt_servers rt'))" and "linked ((map_of (rt_clients rt))(c := None)) S" and "rt_next rt \<le> rt_next rt'"
  shows "runtime_ok rt'"
proof (rule runtime_okI [OF assms(4,6) db_records_store [OF assms(3)]])
  let ?r = "db_record (c_interface cc) (cc_instance cc) (rt_database rt)\<lparr>rec_client := None\<rparr>"
  show "servers_ok S (rt_next rt')" using refs_ok_mono(1) [OF assms(7,11)] .
  show "clients_ok ((map_of (rt_clients rt))(c := None)) (rt_next rt')"
    using refs_ok_mono(2) [OF refs_ok_mono(4) [OF runtime_ok_parts(2) [OF assms(1)]] assms(11)] .
  show "servers_recorded S (rec_upd (c_interface cc) (cc_instance cc) ?r (db_records rt))"
    by (rule servers_recorded_frame [OF assms(8)]) (simp add: db_records_def)
  show "clients_recorded ((map_of (rt_clients rt))(c := None)) (rec_upd (c_interface cc) (cc_instance cc) ?r (db_records rt))"
    by (rule clients_recorded_remove [OF runtime_okD(3) [OF assms(1)] assms(2)]) simp
qed (use assms in simp_all)

lemma token_released:
  assumes "runtime_ok rt" and "map_of (rt_clients rt) c = None" and "rt_servers rt' = rt_servers rt"
  shows "\<not> client_token_held c rt'"
proof
  assume "client_token_held c rt'"
  then obtain s sc where s: "(s, sc) \<in> set (rt_servers rt)" and c: "sc_client sc = Some c"
    unfolding client_token_held_def assms(3) by (metis surj_pair snd_conv)
  have "map_of (rt_servers rt) s = Some sc" using mem_assoc_iff [OF runtime_ok_parts(4) [OF assms(1)], of s sc] s by blast
  from links(2) [OF runtime_okD(1) [OF assms(1)] this, of c] show False using c assms(2) by simp
qed

lemma client_let_go:
  assumes "runtime_ok rt" and "map_of (rt_clients rt) c = Some cc"
  shows "\<exists>rt2 S. client_reset_server c (rt\<lparr>rt_clients := AList.update c (cc\<lparr>cc_stop_block_token := False\<rparr>) (rt_clients rt)\<rparr>) = Ok rt2
    \<and> map_of (AList.delete c (rt_clients rt2)) = (map_of (rt_clients rt))(c := None) \<and> distinct (keys (rt_clients rt2))
    \<and> map_of (rt_servers rt2) = S \<and> servers_ok S (rt_next rt) \<and> servers_recorded S (db_records rt) \<and> distinct (keys (rt_servers rt2))
    \<and> linked ((map_of (rt_clients rt))(c := None)) S \<and> rt_next rt2 = rt_next rt \<and> rt_database rt2 = rt_database rt"
proof (cases "cc_server cc")
  case None
  then show ?thesis
    using linked_remove_idle_client [OF runtime_okD(1) [OF assms(1)] assms(2) None] runtime_okD(2) [OF assms(1)] runtime_ok_parts [OF assms(1)]
    by (simp add: client_reset_server_def map_of_update map_of_delete distinct_update)
next
  case (Some s)
  let ?rt1 = "rt\<lparr>rt_clients := AList.update c (cc\<lparr>cc_stop_block_token := False\<rparr>) (rt_clients rt)\<rparr>"
  note ok = runtime_okD [OF assms(1)] and parts = runtime_ok_parts [OF assms(1)]
  obtain sc where sc: "map_of (rt_servers rt) s = Some sc" "serves sc cc" using links(1) [OF ok(1) assms(2), of s] Some by blast
  then have cl: "sc_client sc = Some c" using links(2) [OF ok(1), of s sc c] assms(2) by blast
  obtain es where "client_reset_server c ?rt1 = Ok (rt_emit es (?rt1\<lparr>rt_clients := AList.update c (cc\<lparr>cc_stop_block_token := False, cc_server := None\<rparr>) (rt_clients ?rt1),
      rt_servers := AList.update s (sc_vacated sc) (rt_servers rt)\<rparr>))"
    using client_reset_server_effect [of ?rt1 c "cc\<lparr>cc_stop_block_token := False\<rparr>" s sc c] Some sc(1) cl ok(4) [OF sc(1)]
    by (auto simp: map_of_update)
  moreover have "servers_ok ((map_of (rt_servers rt))(s \<mapsto> sc_vacated sc)) (rt_next rt)"
    by (rule servers_ok_upd [OF parts(1)]) (use ok(4) [OF sc(1)] in \<open>simp_all add: sc_vacated_wf\<close>)
  moreover have "servers_recorded ((map_of (rt_servers rt))(s \<mapsto> sc_vacated sc)) (db_records rt)"
    by (rule servers_recorded_same [OF ok(2) sc(1)]) simp_all
  ultimately show ?thesis using linked_remove_client [OF ok(1) assms(2) Some sc(1)] parts
    by (simp add: map_of_update map_of_delete distinct_update)
qed

lemma destroy_client_ok:
  assumes "runtime_ok rt" and "map_of (rt_clients rt) c = Some cc"
  shows "\<exists>rt'. destroy_client c rt = Ok (True, rt') \<and> runtime_ok rt'"
proof -
  let ?db = "\<lambda>rt2. db_store (c_interface cc) (cc_instance cc)
      (db_record (c_interface cc) (cc_instance cc) (rt_database rt2)\<lparr>rec_client := None\<rparr>) (rt_database rt2)"
  obtain rt2 S where r: "client_reset_server c (rt\<lparr>rt_clients := AList.update c (cc\<lparr>cc_stop_block_token := False\<rparr>) (rt_clients rt)\<rparr>) = Ok rt2"
    and C: "map_of (AList.delete c (rt_clients rt2)) = (map_of (rt_clients rt))(c := None)" "distinct (keys (rt_clients rt2))"
    and S: "map_of (rt_servers rt2) = S" "servers_ok S (rt_next rt)" "servers_recorded S (db_records rt)" "distinct (keys (rt_servers rt2))"
    and l: "linked ((map_of (rt_clients rt))(c := None)) S" and n: "rt_next rt2 = rt_next rt" "rt_database rt2 = rt_database rt"
    using client_let_go [OF assms] by blast
  let ?rt3 = "release_bridge_requests (cc_requests cc) (c_interface cc, cc_instance cc) (rt2\<lparr>rt_database := ?db rt2\<rparr>)"
  let ?rt4 = "?rt3\<lparr>rt_clients := AList.delete c (rt_clients ?rt3)\<rparr>"
  have f: "rt_clients ?rt3 = rt_clients rt2" "rt_servers ?rt3 = rt_servers rt2" "rt_database ?rt3 = ?db rt2" "rt_next rt2 \<le> rt_next ?rt3"
    using release_bridge_requests_frame [of "rt2\<lparr>rt_database := ?db rt2\<rparr>" "cc_requests cc" "(c_interface cc, cc_instance cc)"]
    by (simp_all add: same_connections_def)
  have ok: "runtime_ok ?rt4"
    by (rule client_removed_ok [OF assms _ _ _ _ S(2,3) _ l]) (use f C S(1,4) n in \<open>simp_all add: distinct_delete\<close>)
  have "map_of (rt_clients ?rt4) c = None" using f(1) C(1) by simp
  then have "\<not> client_token_held c ?rt3" by (rule token_released [OF ok]) simp
  then show ?thesis using ok r assms(2) runtime_okD(5) [OF assms] by (simp add: destroy_client_def Let_def)
qed

subsubsection \<open>Requests and events\<close>

definition same_role :: "Server_connector \<Rightarrow> Server_connector \<Rightarrow> bool" where
  "same_role sc sc' \<longleftrightarrow> sc_configuration sc' = sc_configuration sc \<and> sc_instance sc' = sc_instance sc
     \<and> sc_registered sc' = sc_registered sc \<and> sc_stop_block_token sc' = sc_stop_block_token sc \<and> sc_client sc' = sc_client sc"

lemma same_role_steps:
  "same_role sc (snd (sc_receive_subscribe_event c e mode sc))"
  "same_role sc (snd (sc_receive_unsubscribe_event e sc))"
  "same_role sc (snd (sc_receive_request_event_update c e sc))"
  "same_role sc (snd (sc_update_requested_event e sc))"
  by (simp_all add: same_role_def sc_receive_subscribe_event_def sc_receive_unsubscribe_event_def sc_unsubscribe_event_def
      sc_receive_request_event_update_def sc_update_requested_event_def Let_def)

lemma server_operation_ok:
  assumes "runtime_ok rt" and "map_of (rt_servers rt) s = Some sc" and "same_role sc sc'" and "sc_wf sc'"
  shows "runtime_ok (rt\<lparr>rt_servers := AList.update s sc' (rt_servers rt)\<rparr>)"
proof (rule runtime_okI)
  let ?S = "(map_of (rt_servers rt))(s \<mapsto> sc')"
  note ok = runtime_okD [OF assms(1)] and parts = runtime_ok_parts [OF assms(1)]
  show "map_of (rt_servers (rt\<lparr>rt_servers := AList.update s sc' (rt_servers rt)\<rparr>)) = ?S" by (simp add: map_of_update)
  show "servers_ok ?S (rt_next (rt\<lparr>rt_servers := AList.update s sc' (rt_servers rt)\<rparr>))"
    using servers_ok_upd [OF parts(1)] ok(4) [OF assms(2)] assms(3,4) by (simp add: same_role_def)
  show "servers_recorded ?S (db_records rt)"
    by (rule servers_recorded_same [OF ok(2) assms(2)]) (use assms(3) in \<open>simp_all add: same_role_def\<close>)
  show "linked (map_of (rt_clients rt)) ?S"
    by (rule linked_server_same [OF ok(1) assms(2)]) (use assms(3) in \<open>simp_all add: same_role_def serves_def\<close>)
qed (use runtime_okD(3) [OF assms(1)] runtime_ok_parts [OF assms(1)] in \<open>simp_all add: db_records_def distinct_update\<close>)

text \<open>A request of a live client never fails with a fault, and keeps the invariant.\<close>

lemma request_ok:
  assumes "runtime_ok rt" and "map_of (rt_clients rt) c = Some cc"
    and "\<And>sc. same_role sc (snd (f sc))" and "\<And>sc. sc_wf sc \<Longrightarrow> sc_client sc = Some c \<Longrightarrow> sc_wf (snd (f sc))"
  shows "\<exists>r rt'. lock_server c (run_on_server f) rt = Ok (r, rt') \<and> runtime_ok rt'"
proof (cases "cc_server cc")
  case None
  then show ?thesis using assms(1,2) by (simp add: lock_server_def)
next
  case (Some s)
  note ok = runtime_okD [OF assms(1)]
  obtain sc where sc: "map_of (rt_servers rt) s = Some sc" "serves sc cc" using links(1) [OF ok(1) assms(2), of s] Some by blast
  then have "sc_client sc = Some c" using links(2) [OF ok(1), of s sc c] assms(2) by blast
  then have "runtime_ok (rt\<lparr>rt_servers := AList.update s (snd (f sc)) (rt_servers rt)\<rparr>)"
    using server_operation_ok [OF assms(1) sc(1) assms(3)] assms(4) ok(4) [OF sc(1)] by blast
  then show ?thesis using Some sc(1) assms(2) by (simp add: lock_server_def run_on_server_def case_prod_unfold Let_def)
qed

lemma requests_ok:
  assumes "runtime_ok rt" and "map_of (rt_clients rt) c = Some cc"
  shows "\<exists>r rt'. subscribe_event c e mode rt = Ok (r, rt') \<and> runtime_ok rt'"
    and "\<exists>r rt'. unsubscribe_event c e rt = Ok (r, rt') \<and> runtime_ok rt'"
    and "\<exists>r rt'. request_event_update c e rt = Ok (r, rt') \<and> runtime_ok rt'"
  unfolding subscribe_event_def unsubscribe_event_def request_event_update_def
  by (rule request_ok [OF assms same_role_steps(1)], erule (1) sc_subscribe_wf)
    (rule request_ok [OF assms same_role_steps(2)], erule sc_unsubscribe_wf,
     rule request_ok [OF assms same_role_steps(3)], erule (1) sc_request_update_wf)

lemma call_method_ok:
  assumes "runtime_ok rt" and "map_of (rt_clients rt) c = Some cc"
  shows "\<exists>r rt'. call_method c mid p with_reply rt = Ok (r, rt') \<and> runtime_ok rt'"
proof (cases "cc_server cc")
  case None
  then show ?thesis using assms by (simp add: call_method_def lock_server_def)
next
  case (Some s)
  obtain sc where sc: "map_of (rt_servers rt) s = Some sc" using links(1) [OF runtime_okD(1) [OF assms(1)] assms(2), of s] Some by blast
  then show ?thesis using Some assms by (simp add: call_method_def lock_server_def sc_receive_call_method_def)
qed

lemma updates_ok:
  assumes "runtime_ok rt" and "map_of (rt_servers rt) s = Some sc"
  shows "\<exists>r rt'. rt_update_event s e p rt = Ok (r, rt') \<and> runtime_ok rt'"
    and "\<exists>r rt'. rt_update_requested_event s e p rt = Ok (r, rt') \<and> runtime_ok rt'"
proof -
  show "\<exists>r rt'. rt_update_event s e p rt = Ok (r, rt') \<and> runtime_ok rt'"
    using assms by (simp add: rt_update_event_def split: sum.split option.split)
  have "runtime_ok (rt\<lparr>rt_servers := AList.update s (snd (sc_update_requested_event e sc)) (rt_servers rt)\<rparr>)"
    using server_operation_ok [OF assms same_role_steps(4)] sc_update_requested_wf runtime_okD(4) [OF assms] by blast
  then show "\<exists>r rt'. rt_update_requested_event s e p rt = Ok (r, rt') \<and> runtime_ok rt'"
    using assms by (simp add: rt_update_requested_event_def case_prod_unfold Let_def split: sum.split option.split)
qed

end
