(* ===== verification/Runtime_Properties.thy ===== *)
theory Runtime_Properties
  imports Runtime_Invariant
begin

text \<open>
  What the SOCom runtime promises. Its public operations are the steps of a transition
  system; every theorem about a reachable state follows from the invariant.
\<close>

inductive runtime_step :: "'p Runtime \<Rightarrow> 'p Runtime \<Rightarrow> bool" where
  make_client: "make_client_connector cbs cfg inst cred rt = Ok (r, rt') \<Longrightarrow> runtime_step rt rt'"
| destroy_client: "map_of (rt_clients rt) c = Some cc \<Longrightarrow> destroy_client c rt = Ok (ended, rt') \<Longrightarrow> runtime_step rt rt'"
| make_server: "make_server_connector scbs cfg inst cred rt = (rs, rt') \<Longrightarrow> runtime_step rt rt'"
| enable: "enable_server s rt = Ok rt' \<Longrightarrow> runtime_step rt rt'"
| disable: "disable_server s rt = Ok (ended, rt') \<Longrightarrow> runtime_step rt rt'"
| destroy_server: "destroy_server s rt = Ok (ended, rt') \<Longrightarrow> runtime_step rt rt'"
| register_bridge: "register_service_bridge i cb rt = (rb, rt') \<Longrightarrow> runtime_step rt rt'"
| stop_bridge: "stop_registration b rt = rt' \<Longrightarrow> runtime_step rt rt'"
| subscribe: "subscribe_event c e mode rt = Ok (re, rt') \<Longrightarrow> runtime_step rt rt'"
| unsubscribe: "unsubscribe_event c e rt = Ok (re, rt') \<Longrightarrow> runtime_step rt rt'"
| request_update: "request_event_update c e rt = Ok (re, rt') \<Longrightarrow> runtime_step rt rt'"
| call: "call_method c mid p with_reply rt = Ok (re, rt') \<Longrightarrow> runtime_step rt rt'"
| update_event: "rt_update_event s e p rt = Ok (ru, rt') \<Longrightarrow> runtime_step rt rt'"
| update_requested: "rt_update_requested_event s e p rt = Ok (ru, rt') \<Longrightarrow> runtime_step rt rt'"

inductive runtime_reachable :: "'p Runtime \<Rightarrow> bool" where
  start: "runtime_reachable create_runtime"
| step: "runtime_reachable rt \<Longrightarrow> runtime_step rt rt' \<Longrightarrow> runtime_reachable rt'"

inductive_cases runtime_reachableE: "runtime_reachable rt"

text \<open>An operation on a connector that does not exist has no successful run.\<close>

lemma unknown_server:
  "map_of (rt_servers rt) s = None \<Longrightarrow> enable_server s rt \<noteq> Ok x"
  "map_of (rt_servers rt) s = None \<Longrightarrow> disable_server s rt \<noteq> Ok y"
  "map_of (rt_servers rt) s = None \<Longrightarrow> destroy_server s rt \<noteq> Ok y"
  "map_of (rt_servers rt) s = None \<Longrightarrow> rt_update_event s e p rt \<noteq> Ok z"
  "map_of (rt_servers rt) s = None \<Longrightarrow> rt_update_requested_event s e p rt \<noteq> Ok z"
  by (simp_all add: enable_server_def disable_server_def destroy_server_def rt_update_event_def rt_update_requested_event_def)

lemma unknown_client: "map_of (rt_clients rt) c = None \<Longrightarrow> lock_server c f rt \<noteq> Ok x"
  by (simp add: lock_server_def)

lemma enable_precondition:
  assumes "enable_server s rt = Ok rt'"
  shows "\<exists>sc. map_of (rt_servers rt) s = Some sc \<and> \<not> sc_registered sc
    \<and> rec_server (db_record (s_interface sc) (sc_instance sc) (rt_database rt)) = None"
  using assms by (auto simp: enable_server_def rt_register_server_def Let_def elim!: and_then_OkE split: option.splits)

lemma runtime_step_ok:
  assumes "runtime_step rt rt'" and "runtime_ok rt"
  shows "runtime_ok rt'"
  using assms
proof (induction rule: runtime_step.induct)
  case (make_client cbs cfg inst cred rt r rt')
  then show ?case using make_client_ok [OF make_client(2), of cbs cfg inst cred] by auto
next
  case (destroy_client rt c cc ended rt')
  then show ?case using destroy_client_ok [OF destroy_client(3,1)] by auto
next
  case (make_server scbs cfg inst cred rt rs rt')
  then show ?case using make_server_ok [OF make_server(2), of scbs cfg inst cred] by auto
next
  case (enable s rt rt')
  then show ?case using enable_precondition [OF enable(1)] enable_server_ok [OF enable(2), of s] by auto
next
  case (disable s rt ended rt')
  then show ?case using unknown_server(2) disable_server_ok [OF disable(2), of s] by (cases "map_of (rt_servers rt) s") auto
next
  case (destroy_server s rt ended rt')
  then show ?case using unknown_server(3) destroy_server_ok [OF destroy_server(2), of s] by (cases "map_of (rt_servers rt) s") auto
next
  case (register_bridge i cb rt rb rt')
  then show ?case using runtime_ok_frame [OF register_bridge(2) register_bridge_frame [of rt i cb]] by simp
next
  case (stop_bridge b rt rt')
  then show ?case using runtime_ok_frame [OF stop_bridge(2) stop_registration_frame [of rt b]] by simp
next
  case (subscribe c e mode rt re rt')
  then show ?case using unknown_client [of rt c] requests_ok(1) [OF subscribe(2), of c _ e mode]
    by (cases "map_of (rt_clients rt) c") (auto simp: subscribe_event_def)
next
  case (unsubscribe c e rt re rt')
  then show ?case using unknown_client [of rt c] requests_ok(2) [OF unsubscribe(2), of c _ e]
    by (cases "map_of (rt_clients rt) c") (auto simp: unsubscribe_event_def)
next
  case (request_update c e rt re rt')
  then show ?case using unknown_client [of rt c] requests_ok(3) [OF request_update(2), of c _ e]
    by (cases "map_of (rt_clients rt) c") (auto simp: request_event_update_def)
next
  case (call c mid p with_reply rt re rt')
  then show ?case using unknown_client [of rt c] call_method_ok [OF call(2), of c _ mid p with_reply]
    by (cases "map_of (rt_clients rt) c") (auto simp: call_method_def)
next
  case (update_event s e p rt ru rt')
  then show ?case using unknown_server(4) [of rt s e p] updates_ok(1) [OF update_event(2), of s _ e p] by (cases "map_of (rt_servers rt) s") auto
next
  case (update_requested s e p rt ru rt')
  then show ?case using unknown_server(5) [of rt s e p] updates_ok(2) [OF update_requested(2), of s _ e p] by (cases "map_of (rt_servers rt) s") auto
qed

lemma runtime_reachable_ok: "runtime_reachable rt \<Longrightarrow> runtime_ok rt"
  by (induction rule: runtime_reachable.induct) (simp_all add: create_runtime_ok runtime_step_ok)

subsection \<open>Connections\<close>

definition demo_interface :: "u16 \<Rightarrow> Service_interface_identifier" where
  "demo_interface m = \<lparr>sii_id = ''radar'', sii_version = \<lparr>major = 1, minor = m\<rparr>\<rparr>"

definition demo_definition :: "u16 \<Rightarrow> Service_interface_definition" where
  "demo_definition m = make_definition (demo_interface m) 1 2"

definition demo_credentials :: Posix_credentials where
  "demo_credentials = \<lparr>uid = 0, gid = 0\<rparr>"

definition demo_client_callbacks :: client_callbacks where
  "demo_client_callbacks = \<lparr>has_service_state_change = True, has_event_update = True, has_event_requested_update = True,
     has_event_payload_allocate = True\<rparr>"

definition demo_server_callbacks :: server_callbacks where
  "demo_server_callbacks = \<lparr>has_method_call = True, has_event_update_request = True, has_event_subscription_change = True,
     has_method_call_payload_allocate = True\<rparr>"

text \<open>A client of version 1.0 and a server of version 1.2; the server is then enabled.\<close>

definition demo_waiting :: "nat Runtime" where
  "demo_waiting = snd (make_server_connector demo_server_callbacks (demo_definition 2) ''front'' demo_credentials
     (snd (case_sum (\<lambda>_. (Err callback_missing, create_runtime)) id
       (make_client_connector demo_client_callbacks (demo_definition 0) ''front'' demo_credentials create_runtime))))"

definition demo_connected :: "nat Runtime" where
  "demo_connected = case_sum (\<lambda>_. create_runtime) id (enable_server 2 demo_waiting)"

lemma demo_waiting_reachable: "runtime_reachable demo_waiting"
proof -
  let ?m = "make_client_connector demo_client_callbacks (demo_definition 0) ''front'' demo_credentials (create_runtime :: nat Runtime)"
  have "is_Ok ?m" by code_simp
  then obtain r rt1 where m: "?m = Ok (r, rt1)" by (cases ?m) auto
  then have "runtime_reachable rt1" by (meson runtime_reachable.intros runtime_step.make_client)
  moreover have "runtime_step rt1 demo_waiting" unfolding demo_waiting_def m by (simp add: runtime_step.make_server prod_eq_iff)
  ultimately show ?thesis by (rule runtime_reachable.step)
qed

lemma demo_connected_reachable: "runtime_reachable demo_connected"
proof -
  have "is_Ok (enable_server 2 demo_waiting)" by code_simp
  then obtain rt1 where "enable_server 2 demo_waiting = Ok rt1" by (cases "enable_server 2 demo_waiting") auto
  then show ?thesis using runtime_reachable.step [OF demo_waiting_reachable runtime_step.enable] by (simp add: demo_connected_def)
qed

text \<open>C23. In every reachable state of the runtime a client is connected to a server exactly when that
  server is enabled, has the client's instance, and has the same interface name and major
  version and at least the client's minor version; the server then knows the client as its
  only one, both ends agree, and \<^verbatim>\<open>is_service_available\<close> tells the client whether there is such a
  server.\<close>

theorem connections_exact:
  assumes "runtime_reachable rt" and "map_of (rt_clients rt) c = Some cc" and "map_of (rt_servers rt) s = Some sc"
  shows "(cc_server cc = Some s \<longleftrightarrow> sc_registered sc \<and> sc_instance sc = cc_instance cc
            \<and> is_interface_compatible (def_interface (sc_configuration sc)) (def_interface (cc_configuration cc)))
       \<and> (sc_client sc = Some c \<longleftrightarrow> cc_server cc = Some s)
       \<and> is_service_available c rt = Ok (\<exists>s' sc'. map_of (rt_servers rt) s' = Some sc' \<and> sc_registered sc' \<and> sc_instance sc' = cc_instance cc
            \<and> is_interface_compatible (def_interface (sc_configuration sc')) (def_interface (cc_configuration cc)))"
proof -
  note ok = runtime_okD [OF runtime_reachable_ok [OF assms(1)]]
  have s: "cc_server cc = Some s' \<longleftrightarrow> (\<exists>sc'. map_of (rt_servers rt) s' = Some sc' \<and> serves sc' cc)" for s'
    using links(1) [OF ok(1) assms(2)] .
  have "sc_client sc = Some c \<longleftrightarrow> serves sc cc" using links(2) [OF ok(1) assms(3), of c] assms(2) by auto
  moreover have "cc_server cc \<noteq> None \<longleftrightarrow> (\<exists>s' sc'. map_of (rt_servers rt) s' = Some sc' \<and> serves sc' cc)"
    using s by (cases "cc_server cc") (simp, blast)
  ultimately show ?thesis using s [of s] assms by (simp add: is_service_available_def serves_def)
qed

theorem connections_exact_witness:
  "is_service_available 0 demo_connected = Ok True"
proof -
  have c: "map_of (rt_clients demo_connected) 0 \<noteq> None" and s: "map_of (rt_servers demo_connected) 2 \<noteq> None"
    by code_simp+
  obtain cc sc where cs: "map_of (rt_clients demo_connected) 0 = Some cc" "map_of (rt_servers demo_connected) 2 = Some sc"
    using c s by blast
  have "map_option sc_client (map_of (rt_servers demo_connected) 2) = Some (Some 0)" by code_simp
  then have "cc_server cc = Some 2" using connections_exact [OF demo_connected_reachable cs] cs(2) by simp
  then show ?thesis using cs(1) by (simp add: is_service_available_def)
qed



text \<open>C29. Enabling a disabled server in a reachable state succeeds unless another server of the same
  interface name, major version and instance is enabled already; in that case an assertion
  fails. Servers that differ in the minor version only are told apart when they are created,
  so both exist and the second one to be enabled aborts the program.\<close>

theorem enable_needs_free_key:
  assumes "runtime_reachable rt" and "map_of (rt_servers rt) s = Some sc" and "\<not> sc_registered sc"
  shows "if \<exists>s' sc'. map_of (rt_servers rt) s' = Some sc' \<and> sc_registered sc' \<and> sc_instance sc' = sc_instance sc
              \<and> minor_version_ignoring_key_equal (def_interface (sc_configuration sc')) (def_interface (sc_configuration sc))
         then enable_server s rt = Err Assert_failed
         else \<exists>rt'. enable_server s rt = Ok rt'"
proof -
  note ok = runtime_reachable_ok [OF assms(1)]
  let ?r = "db_record (s_interface sc) (sc_instance sc) (rt_database rt)"
  have key: "rec_server ?r \<noteq> None \<longleftrightarrow> (\<exists>s' sc'. map_of (rt_servers rt) s' = Some sc' \<and> sc_registered sc' \<and> sc_instance sc' = sc_instance sc
              \<and> minor_version_ignoring_key_equal (s_interface sc') (s_interface sc))"
    using runtime_okD(2) [OF ok] unfolding servers_recorded_def db_records_def by (metis not_None_eq surj_pair)
  show ?thesis
  proof (cases "rec_server ?r = None")
    case True
    then show ?thesis using key enable_server_ok [OF ok assms(2,3)] by auto
  next
    case False
    then have "enable_server s rt = Err Assert_failed"
      using assms(2,3) by (auto simp: enable_server_def rt_register_server_def Let_def assert_run_def)
    then show ?thesis using key False by auto
  qed
qed

definition demo_two_minors :: "nat Runtime" where
  "demo_two_minors = snd (make_server_connector demo_server_callbacks (demo_definition 3) ''front'' demo_credentials demo_connected)"

theorem enable_needs_free_key_witness:
  "enable_server 3 demo_two_minors = Err Assert_failed"
proof -
  have r: "runtime_reachable demo_two_minors"
    unfolding demo_two_minors_def
    by (rule runtime_reachable.step [OF demo_connected_reachable runtime_step.make_server [OF surjective_pairing]])
  have "map_option sc_registered (map_of (rt_servers demo_two_minors) 3) = Some False" by code_simp
  then obtain sc where sc: "map_of (rt_servers demo_two_minors) 3 = Some sc" "\<not> sc_registered sc" by auto
  have "\<not> is_Ok (enable_server 3 demo_two_minors)" by code_simp
  then show ?thesis using enable_needs_free_key [OF r sc] by (auto split: if_splits)
qed

subsection \<open>Well-typed event tables\<close>

text \<open>C28. In every reachable state the three event tables of a server have one entry per event of its
  interface, so that an event number the range checks let through is an index of each of them;
  and a client entered as a subscriber or as waiting for an update is the one connected client
  of that server, which is alive and connected to this server: no entry points to a connection
  that is gone.\<close>

theorem server_tables_typed:
  assumes "runtime_reachable rt" and "map_of (rt_servers rt) s = Some sc"
  shows "length (sc_subscriber sc) = unat (def_num_events (sc_configuration sc))
    \<and> length (sc_update_requester sc) = unat (def_num_events (sc_configuration sc))
    \<and> length (sc_event_infos sc) = unat (def_num_events (sc_configuration sc))
    \<and> (\<forall>c. Some c \<in> set (sc_subscriber sc) \<union> set (sc_update_requester sc) \<longrightarrow>
          sc_client sc = Some c \<and> (\<exists>cc. map_of (rt_clients rt) c = Some cc \<and> cc_server cc = Some s))"
proof -
  note ok = runtime_okD [OF runtime_reachable_ok [OF assms(1)]]
  have wf: "sc_wf sc" using ok(4) [OF assms(2)] by blast
  have "sc_client sc = Some c \<and> (\<exists>cc. map_of (rt_clients rt) c = Some cc \<and> cc_server cc = Some s)"
    if "Some c \<in> set (sc_subscriber sc) \<union> set (sc_update_requester sc)" for c
  proof -
    have c: "sc_client sc = Some c" using wf that unfolding sc_wf_def by auto
    then obtain cc where cc: "map_of (rt_clients rt) c = Some cc" "serves sc cc" using links(2) [OF ok(1) assms(2), of c] by blast
    then show ?thesis using c links(1) [OF ok(1) cc(1), of s] assms(2) by blast
  qed
  then show ?thesis using wf by (simp add: sc_wf_def num_events_of_def)
qed

definition demo_subscribed :: "nat Runtime" where
  "demo_subscribed = case_sum (\<lambda>_. create_runtime) snd (subscribe_event 0 1 update demo_connected)"

theorem server_tables_typed_witness:
  "\<exists>sc cc. map_of (rt_servers demo_subscribed) 2 = Some sc \<and> Some 0 \<in> set (sc_subscriber sc)
     \<and> map_of (rt_clients demo_subscribed) 0 = Some cc \<and> cc_server cc = Some 2"
proof -
  have "is_Ok (subscribe_event 0 1 update demo_connected)" by code_simp
  then obtain re rt where "subscribe_event 0 1 update demo_connected = Ok (re, rt)"
    by (cases "subscribe_event 0 1 update demo_connected") auto
  then have r: "runtime_reachable demo_subscribed"
    using runtime_reachable.step [OF demo_connected_reachable runtime_step.subscribe] by (simp add: demo_subscribed_def)
  have "map_option (\<lambda>sc. Some 0 \<in> set (sc_subscriber sc)) (map_of (rt_servers demo_subscribed) 2) = Some True" by code_simp
  then obtain sc where sc: "map_of (rt_servers demo_subscribed) 2 = Some sc" "Some 0 \<in> set (sc_subscriber sc)" by auto
  then show ?thesis using server_tables_typed [OF r sc(1)] by blast
qed

end
