(* ===== verification/Runtime_Bridges.thy ===== *)
theory Runtime_Bridges
  imports Runtime_Properties
begin

text \<open>
  Service bridges. A client that finds no server asks the registered bridges for the service;
  the handles the bridges return are kept in a map that belongs to the client's registration
  and that the runtime knows by a weak pointer. The theory shows that at every moment each
  bridge has exactly one open request per waiting client, however bridges and clients come
  and go, and that no handle is lost.
\<close>

subsection \<open>Counting calls\<close>

fun is_call :: "bridge_ref \<Rightarrow> 'p socom_effect \<Rightarrow> bool" where
  "is_call b (Bridge_request b' _ _) = (b' = b)"
| "is_call b _ = False"

fun is_release :: "bridge_ref \<Rightarrow> 'p socom_effect \<Rightarrow> bool" where
  "is_release b (Bridge_release b') = (b' = b)"
| "is_release b _ = False"

definition bridge_calls :: "bridge_ref \<Rightarrow> 'p socom_effect list \<Rightarrow> nat" where
  "bridge_calls b l = length (filter (is_call b) l)"

definition bridge_releases :: "bridge_ref \<Rightarrow> 'p socom_effect list \<Rightarrow> nat" where
  "bridge_releases b l = length (filter (is_release b) l)"

lemma bridge_counts_append [simp]:
  "bridge_calls b (xs @ ys) = bridge_calls b xs + bridge_calls b ys"
  "bridge_releases b (xs @ ys) = bridge_releases b xs + bridge_releases b ys"
  by (simp_all add: bridge_calls_def bridge_releases_def)

lemma bridge_counts_other [simp]:
  "bridge_calls b (map (Server_callback s) cbs) = 0" "bridge_releases b (map (Server_callback s) cbs) = 0"
  "bridge_calls b [Client_state_change c a cfg] = 0" "bridge_releases b [Client_state_change c a cfg] = 0"
  "bridge_calls b [Client_event_update c e p] = 0" "bridge_releases b [Client_event_update c e p] = 0"
  "bridge_calls b [Client_requested_update c e p] = 0" "bridge_releases b [Client_requested_update c e p] = 0"
  "bridge_calls b [Server_callback s cb] = 0" "bridge_releases b [Server_callback s cb] = 0"
  "bridge_calls b [Logged_incompatible] = 0" "bridge_releases b [Logged_incompatible] = 0"
  "bridge_calls b [] = 0" "bridge_releases b [] = 0"
  "bridge_calls b (map Bridge_release bs) = 0" "bridge_releases b (map (\<lambda>b. Bridge_request b cfg inst) bs) = 0"
  by (simp_all add: bridge_calls_def bridge_releases_def filter_empty_conv)

lemma length_filter_eq: "distinct bs \<Longrightarrow> length (filter (\<lambda>x. x = b) bs) = (if b \<in> set bs then 1 else 0)"
  by (induction bs) auto

lemma bridge_counts_each:
  assumes "distinct bs"
  shows "bridge_calls b (map (\<lambda>b. Bridge_request b cfg inst) bs) = (if b \<in> set bs then 1 else 0)"
    and "bridge_releases b (map Bridge_release bs) = (if b \<in> set bs then 1 else 0)"
  using length_filter_eq [OF assms, of b] by (simp_all add: bridge_calls_def bridge_releases_def filter_map comp_def)

lemma bridge_counts_keys:
  assumes "distinct (keys m)"
  shows "bridge_calls b (map ((\<lambda>b. Bridge_request b cfg inst) \<circ> fst) m) = (if b \<in> fst ` set m then 1 else 0)"
    and "bridge_releases b (map ((\<lambda>b. Bridge_request b cfg inst) \<circ> fst) m) = 0"
  using bridge_counts_each(1) [OF assms, of b cfg inst] bridge_counts_other(16) [of b cfg inst "keys m"] by simp_all

lemma bridge_counts_one:
  "bridge_calls b (map2 (\<lambda>k rq. Bridge_request b' (f rq) (snd k)) ks rqs) = (if b' = b then min (length ks) (length rqs) else 0)"
  "bridge_releases b (map2 (\<lambda>k rq. Bridge_request b' (f rq) (snd k)) ks rqs) = 0"
  "bridge_calls b (map (\<lambda>x. Bridge_release b') xs) = 0"
  "bridge_releases b (map (\<lambda>x. Bridge_release b') xs) = (if b' = b then length xs else 0)"
  by (auto simp: bridge_calls_def bridge_releases_def filter_map comp_def filter_empty_conv case_prod_unfold)

subsection \<open>Operations that do not concern bridges\<close>

abbreviation client_key :: "Client_connector \<Rightarrow> request_key" where
  "client_key cc \<equiv> (c_interface cc, cc_instance cc)"

definition request_view :: "'p Runtime \<Rightarrow> client_ref \<Rightarrow> (request_key \<times> nat option) option" where
  "request_view rt c = map_option (\<lambda>cc. (client_key cc, cc_requests cc)) (map_of (rt_clients rt) c)"

definition bridge_frame :: "'p Runtime \<Rightarrow> 'p Runtime \<Rightarrow> bool" where
  "bridge_frame rt rt' \<longleftrightarrow> rt_bridges rt' = rt_bridges rt \<and> rt_requests rt' = rt_requests rt \<and> rt_request_maps rt' = rt_request_maps rt
     \<and> rt_next rt \<le> rt_next rt' \<and> request_view rt' = request_view rt
     \<and> (\<forall>b. bridge_calls b (rt_log rt') = bridge_calls b (rt_log rt) \<and> bridge_releases b (rt_log rt') = bridge_releases b (rt_log rt))"

lemma bridge_frame_refl [simp]: "bridge_frame rt rt"
  by (simp add: bridge_frame_def)

lemma bridge_frame_trans: "bridge_frame a b \<Longrightarrow> bridge_frame b c \<Longrightarrow> bridge_frame a c"
  by (auto simp: bridge_frame_def)

lemma request_view_update:
  assumes "map_of (rt_clients rt) c = Some cc" and "client_key cc' = client_key cc" and "cc_requests cc' = cc_requests cc"
  shows "request_view (rt\<lparr>rt_clients := AList.update c cc' (rt_clients rt)\<rparr>) = request_view rt"
  using assms by (auto simp: request_view_def map_of_update fun_eq_iff)

lemma request_view_simps [simp]:
  "request_view (rt_emit es rt) = request_view rt" "request_view (rt\<lparr>rt_servers := x1\<rparr>) = request_view rt"
  "request_view (rt\<lparr>rt_database := x2\<rparr>) = request_view rt" "request_view (rt\<lparr>rt_service_identifiers := x3\<rparr>) = request_view rt"
  "request_view (rt\<lparr>rt_next := x4\<rparr>) = request_view rt" "request_view (rt\<lparr>rt_bridges := x5\<rparr>) = request_view rt"
  "request_view (rt\<lparr>rt_requests := x6\<rparr>) = request_view rt" "request_view (rt\<lparr>rt_request_maps := x7\<rparr>) = request_view rt"
  by (simp_all add: request_view_def fun_eq_iff)

lemma server_remove_client_bridge: "server_remove_client s rt = Ok rt' \<Longrightarrow> bridge_frame rt rt'"
  by (auto simp: server_remove_client_def bridge_frame_def elim!: and_then_OkE split: option.splits prod.splits)

lemma client_reset_server_bridge:
  assumes "client_reset_server c rt = Ok rt'"
  shows "bridge_frame rt rt'"
proof -
  obtain cc where c: "map_of (rt_clients rt) c = Some cc" using assms by (auto simp: client_reset_server_def split: option.splits)
  show ?thesis
  proof (cases "cc_server cc")
    case None
    then show ?thesis using assms c by (simp add: client_reset_server_def)
  next
    case (Some s)
    then have "server_remove_client s (rt\<lparr>rt_clients := AList.update c (cc\<lparr>cc_server := None\<rparr>) (rt_clients rt)\<rparr>) = Ok rt'"
      using assms c by (simp add: client_reset_server_def)
    from server_remove_client_bridge [OF this] show ?thesis
      using request_view_update [OF c, of "cc\<lparr>cc_server := None\<rparr>"] by (simp add: bridge_frame_def)
  qed
qed

lemma set_id_mappings_bridge:
  assumes "set_id_mappings_and_server c s rt = Ok (connected, rt')"
  shows "bridge_frame rt rt'"
proof -
  obtain cc where c: "map_of (rt_clients rt) c = Some cc"
    using assms by (auto simp: set_id_mappings_and_server_def split: option.splits)
  show ?thesis
  proof (cases "cc_stop_block_token cc")
    case False
    then show ?thesis using assms c by (simp add: set_id_mappings_and_server_def)
  next
    case True
    then obtain rt1 where r: "client_reset_server c rt = Ok rt1" and rt': "rt' = rt1\<lparr>rt_clients := AList.update c (cc\<lparr>cc_server := Some s\<rparr>) (rt_clients rt1)\<rparr>"
      using assms c by (auto simp: set_id_mappings_and_server_def elim!: and_then_OkE)
    have f: "bridge_frame rt rt1" by (rule client_reset_server_bridge [OF r])
    then have "request_view rt1 c = request_view rt c" by (simp add: bridge_frame_def)
    then obtain cc1 where "map_of (rt_clients rt1) c = Some cc1" "client_key cc1 = client_key cc" "cc_requests cc1 = cc_requests cc"
      using c by (auto simp: request_view_def)
    then show ?thesis using f request_view_update [of rt1 c cc1 "cc\<lparr>cc_server := Some s\<rparr>"] by (simp add: rt' bridge_frame_def)
  qed
qed

lemma client_receive_state_change_bridge:
  assumes "client_receive_state_change c a cfg rt = Ok rt'"
  shows "bridge_frame rt rt'"
proof -
  obtain rt1 where "(if a then Ok rt else client_reset_server c rt) = Ok rt1" and rt': "rt' = rt_emit [Client_state_change c a cfg] rt1"
    using assms by (auto simp: client_receive_state_change_def elim!: and_then_OkE)
  then have "bridge_frame rt rt1" using client_reset_server_bridge by (auto split: if_splits)
  then show ?thesis by (auto simp: rt' bridge_frame_def)
qed

lemma bridge_frame_servers: "bridge_frame rt (rt\<lparr>rt_servers := x\<rparr>)" "bridge_frame rt (rt\<lparr>rt_database := y\<rparr>)"
  by (simp_all add: bridge_frame_def)

lemma on_server_update_bridge:
  assumes "on_server_update c s rt = Ok rt'"
  shows "bridge_frame rt rt'"
proof (cases "map_of (rt_clients rt) c")
  case None
  then show ?thesis using assms by (simp add: on_server_update_def)
next
  case (Some cc)
  show ?thesis
  proof (cases "cc_stop_block_token cc")
    case False
    then show ?thesis using assms Some by (simp add: on_server_update_def)
  next
    case True
    then obtain sc r sc' where sc: "map_of (rt_servers rt) s = Some sc" "sc_receive_connect c sc = Ok (r, sc')"
      and k: "(case r of Err _ \<Rightarrow> Ok rt
        | Ok _ \<Rightarrow> and_then (set_id_mappings_and_server c s (rt\<lparr>rt_servers := AList.update s sc' (rt_servers rt)\<rparr>)) (\<lambda>(connected, rt').
                    if connected then client_receive_state_change c True (sc_configuration sc) rt' else server_remove_client s rt')) = Ok rt'"
      using assms Some by (auto simp: on_server_update_def elim!: and_then_OkE split: option.splits)
    show ?thesis
    proof (cases r)
      case (Inl e)
      then show ?thesis using k by simp
    next
      case (Inr u)
      then obtain connected rt1 where 1: "set_id_mappings_and_server c s (rt\<lparr>rt_servers := AList.update s sc' (rt_servers rt)\<rparr>) = Ok (connected, rt1)"
        and 2: "(if connected then client_receive_state_change c True (sc_configuration sc) rt1 else server_remove_client s rt1) = Ok rt'"
        using k by (auto elim!: and_then_OkE)
      have "bridge_frame rt1 rt'" using 2 client_receive_state_change_bridge server_remove_client_bridge by (auto split: if_splits)
      then show ?thesis using bridge_frame_trans [OF bridge_frame_trans [OF bridge_frame_servers(1) set_id_mappings_bridge [OF 1]]] by blast
    qed
  qed
qed

lemma enable_server_bridge:
  assumes "enable_server s rt = Ok rt'"
  shows "bridge_frame rt rt'"
proof -
  obtain sc rt1 sc1 where r: "rt_register_server (s_interface sc) (sc_instance sc) s
      (rt\<lparr>rt_servers := AList.update s (sc\<lparr>sc_stop_block_token := True\<rparr>) (rt_servers rt)\<rparr>) = Ok rt1"
    and rt': "rt' = rt1\<lparr>rt_servers := AList.update s (sc1\<lparr>sc_registered := True\<rparr>) (rt_servers rt1)\<rparr>"
    using assms by (auto simp: enable_server_def elim!: and_then_OkE split: option.splits)
  let ?rt0 = "rt\<lparr>rt_servers := AList.update s (sc\<lparr>sc_stop_block_token := True\<rparr>) (rt_servers rt)\<rparr>"
  obtain y where "rt1 = ?rt0\<lparr>rt_database := y\<rparr> \<or> rt1 = rt_emit [Logged_incompatible] (?rt0\<lparr>rt_database := y\<rparr>)
      \<or> (\<exists>c. on_server_update c s (?rt0\<lparr>rt_database := y\<rparr>) = Ok rt1)"
    using r by (auto simp: rt_register_server_def Let_def split: option.splits if_splits prod.splits)
  then have "bridge_frame (?rt0\<lparr>rt_database := y\<rparr>) rt1"
  proof (elim disjE exE)
    fix c assume "on_server_update c s (?rt0\<lparr>rt_database := y\<rparr>) = Ok rt1"
    then show ?thesis by (rule on_server_update_bridge)
  qed (simp_all add: bridge_frame_def)
  then have "bridge_frame rt rt1"
    using bridge_frame_trans [OF bridge_frame_trans [OF bridge_frame_servers(1) bridge_frame_servers(2)]] by blast
  then show ?thesis using bridge_frame_trans bridge_frame_servers(1) rt' by blast
qed

lemma disable_server_bridge:
  assumes "disable_server s rt = Ok (ended, rt')"
  shows "bridge_frame rt rt'"
proof -
  obtain sc where sc: "map_of (rt_servers rt) s = Some sc" using assms by (auto simp: disable_server_def split: option.splits)
  show ?thesis
  proof (cases "sc_registered sc")
    case False
    then show ?thesis using assms sc by (simp add: disable_server_def)
  next
    case True
    then obtain x y z where r: "send_all_not_available s z (rt\<lparr>rt_database := y, rt_servers := x\<rparr>) = Ok rt'"
      using assms sc by (auto simp: disable_server_def Let_def elim!: and_then_OkE)
    have "bridge_frame (rt\<lparr>rt_database := y, rt_servers := x\<rparr>) rt'"
      using r client_receive_state_change_bridge by (auto simp: send_all_not_available_def split: option.splits)
    then show ?thesis using bridge_frame_trans [OF bridge_frame_trans [OF bridge_frame_servers(2) bridge_frame_servers(1)]] by blast
  qed
qed

lemma destroy_server_bridge:
  assumes "destroy_server s rt = Ok (ended, rt')"
  shows "bridge_frame rt rt'"
proof -
  obtain rt1 e where d: "disable_server s rt = Ok (e, rt1)" and rt': "\<exists>x y. rt' = rt1\<lparr>rt_service_identifiers := x, rt_servers := y\<rparr>"
    using assms by (auto simp: destroy_server_def elim!: and_then_OkE split: option.splits)
  show ?thesis using disable_server_bridge [OF d] rt' by (auto simp: bridge_frame_def)
qed

lemma request_bridge: "lock_server c (run_on_server f) rt = Ok (r, rt') \<Longrightarrow> bridge_frame rt rt'"
  by (auto simp: lock_server_def run_on_server_def Let_def bridge_frame_def split: option.splits prod.splits)

lemma call_method_bridge: "call_method c mid p w rt = Ok (r, rt') \<Longrightarrow> bridge_frame rt rt'"
  by (auto simp: call_method_def lock_server_def bridge_frame_def split: option.splits sum.splits)

lemma update_event_bridge: "rt_update_event s e p rt = Ok (r, rt') \<Longrightarrow> bridge_frame rt rt'"
  by (auto simp: rt_update_event_def bridge_frame_def split: option.splits sum.splits)

lemma update_requested_bridge: "rt_update_requested_event s e p rt = Ok (r, rt') \<Longrightarrow> bridge_frame rt rt'"
  by (auto simp: rt_update_requested_event_def bridge_frame_def Let_def split: option.splits sum.splits prod.splits)

lemma make_server_bridge: "bridge_frame rt (snd (make_server_connector cbs cfg inst cred rt))"
  by (auto simp: make_server_connector_def bridge_frame_def Let_def)

subsection \<open>The invariant\<close>

abbreviation request_ids :: "'p Runtime \<Rightarrow> nat list" where
  "request_ids rt \<equiv> map (\<lambda>e. rq_map (snd e)) (rt_requests rt)"

definition maps_hold :: "'p Runtime \<Rightarrow> bool" where
  "maps_hold rt \<longleftrightarrow> (\<forall>r n bs. (r, n, bs) \<in> set (rt_request_maps rt) \<longrightarrow> n = 1 \<and> distinct bs \<and> set bs = set (keys (rt_bridges rt)))"

definition requests_owned :: "'p Runtime \<Rightarrow> bool" where
  "requests_owned rt \<longleftrightarrow> (\<forall>c k x. request_view rt c = Some (k, x) \<longrightarrow> x = map_option rq_map (map_of (rt_requests rt) k))
     \<and> (\<forall>k. k \<in> set (keys (rt_requests rt)) \<longrightarrow> (\<exists>c x. request_view rt c = Some (k, x)))"

definition calls_balanced :: "'p Runtime \<Rightarrow> bool" where
  "calls_balanced rt \<longleftrightarrow> (\<forall>b. bridge_calls b (rt_log rt) =
     bridge_releases b (rt_log rt) + (if b \<in> set (keys (rt_bridges rt)) then length (rt_requests rt) else 0))"

definition bridges_ok :: "'p Runtime \<Rightarrow> bool" where
  "bridges_ok rt \<longleftrightarrow>
     distinct (keys (rt_bridges rt)) \<and> distinct (keys (rt_requests rt)) \<and> distinct (keys (rt_request_maps rt)) \<and> distinct (request_ids rt)
   \<and> set (keys (rt_request_maps rt)) = set (request_ids rt)
   \<and> set (keys (rt_bridges rt)) \<union> set (keys (rt_request_maps rt)) \<subseteq> {0..<rt_next rt}
   \<and> maps_hold rt \<and> requests_owned rt \<and> calls_balanced rt"

lemma create_runtime_bridges_ok: "bridges_ok create_runtime"
  by (simp add: bridges_ok_def create_runtime_def request_view_def maps_hold_def requests_owned_def calls_balanced_def)

lemma bridges_okD:
  assumes "bridges_ok rt"
  shows "distinct (keys (rt_bridges rt))" "distinct (keys (rt_requests rt))" "distinct (keys (rt_request_maps rt))" "distinct (request_ids rt)"
    "set (keys (rt_request_maps rt)) = set (request_ids rt)"
    "set (keys (rt_bridges rt)) \<union> set (keys (rt_request_maps rt)) \<subseteq> {0..<rt_next rt}"
    "maps_hold rt" "requests_owned rt" "calls_balanced rt"
  using assms unfolding bridges_ok_def by blast+

lemma bridges_okI:
  assumes "distinct (keys (rt_bridges rt))" and "distinct (keys (rt_requests rt))" and "distinct (keys (rt_request_maps rt))"
    and "distinct (request_ids rt)" and "set (keys (rt_request_maps rt)) = set (request_ids rt)"
    and "set (keys (rt_bridges rt)) \<union> set (keys (rt_request_maps rt)) \<subseteq> {0..<rt_next rt}"
    and "maps_hold rt" and "requests_owned rt" and "calls_balanced rt"
  shows "bridges_ok rt"
  using assms unfolding bridges_ok_def by blast

lemma bridges_ok_frame:
  assumes "bridges_ok rt" and "bridge_frame rt rt'"
  shows "bridges_ok rt'"
proof -
  have "requests_owned rt'" "calls_balanced rt'" "maps_hold rt'"
    using bridges_okD(7-9) [OF assms(1)] assms(2) by (simp_all add: bridge_frame_def requests_owned_def calls_balanced_def maps_hold_def)
  moreover have "{0..<rt_next rt} \<subseteq> {0..<rt_next rt'}" using assms(2) by (simp add: bridge_frame_def)
  ultimately show ?thesis using bridges_okD(1-6) [OF assms(1)] assms(2) unfolding bridges_ok_def bridge_frame_def by auto
qed

lemma maps_holdD: "maps_hold rt \<Longrightarrow> (r, n, bs) \<in> set (rt_request_maps rt) \<Longrightarrow> n = 1 \<and> distinct bs \<and> set bs = set (keys (rt_bridges rt))"
  by (simp add: maps_hold_def)

lemma update_missing: "k \<notin> set (keys m) \<Longrightarrow> AList.update k v m = m @ [(k, v)]"
  by (induction m) auto

lemma live_maps:
  assumes "bridges_ok rt" and "(k, rq) \<in> set (rt_requests rt)"
  shows "lock_map (rq_map rq) rt \<noteq> None"
proof -
  have "rq_map rq \<in> set (keys (rt_request_maps rt))" using assms bridges_okD(5) [OF assms(1)] by force
  then show ?thesis by (simp add: lock_map_def map_of_eq_None_iff)
qed

text \<open>A bridge comes: it gets all open requests.\<close>

lemma register_bridge_loop_once: "register_bridge_loop ks [] [ks] = ks"
  by simp

lemma register_bridge_eq:
  assumes "distinct (keys (rt_requests rt))" and "filter (\<lambda>r. lock_map r rt = None) (request_ids rt) = []"
  shows "register_bridge b rt =
    rt_emit (map2 (\<lambda>k rq. Bridge_request b (rq_definition rq) (snd k)) (keys (rt_requests rt)) (map snd (rt_requests rt)))
      (rt\<lparr>rt_request_maps := map (\<lambda>(r, n, bs). if r \<in> set (request_ids rt) \<and> b \<notin> set bs then (r, n, bs @ [b]) else (r, n, bs)) (rt_request_maps rt)\<rparr>)"
proof -
  have stored: "map (\<lambda>k. the (map_of (rt_requests rt) k)) (keys (rt_requests rt)) = map snd (rt_requests rt)"
    using assms(1) by (auto simp: map_of_is_SomeI)
  have ids: "map rq_map (map snd (rt_requests rt)) = request_ids rt" by simp
  show ?thesis
    by (simp only: register_bridge_def Let_def register_bridge_loop_once stored ids assms(2) list.map(1) append_Nil2)
qed

lemma register_bridge_ok:
  assumes "bridges_ok rt"
  shows "bridges_ok (snd (register_service_bridge i cb rt))"
proof (cases cb)
  case True
  let ?b = "rt_next rt" and ?ks = "keys (rt_requests rt)"
  let ?rt1 = "rt\<lparr>rt_next := ?b + 1, rt_bridges := rt_bridges rt @ [(?b, i)]\<rparr>"
  note ok = bridges_okD [OF assms]
  have none_lost: "filter (\<lambda>r. lock_map r ?rt1 = None) (request_ids rt) = []"
    using live_maps [OF assms] by (auto simp: filter_empty_conv lock_map_def)
  define M where "M = map (\<lambda>(r, n, bs). if r \<in> set (request_ids rt) \<and> ?b \<notin> set bs then (r, n, bs @ [?b]) else (r, n, bs)) (rt_request_maps rt)"
  define es :: "'a socom_effect list" where "es = map2 (\<lambda>k rq. Bridge_request ?b (rq_definition rq) (snd k)) ?ks (map snd (rt_requests rt))"
  let ?rt2 = "rt_emit es (?rt1\<lparr>rt_request_maps := M\<rparr>)"
  have fresh: "?b \<notin> set (keys (rt_bridges rt))" using ok(6) by auto
  have in_M: "n = 1 \<and> distinct bs \<and> set bs = insert ?b (set (keys (rt_bridges rt)))" if m: "(r, n, bs) \<in> set M" for r n bs
  proof -
    obtain bs0 where bs0: "(r, n, bs0) \<in> set (rt_request_maps rt)" and bs: "bs = (if r \<in> set (request_ids rt) \<and> ?b \<notin> set bs0 then bs0 @ [?b] else bs0)"
      using m unfolding M_def by (fastforce split: if_splits)
    have "r \<in> set (request_ids rt)" using bs0 ok(5) by force
    then show ?thesis using maps_holdD [OF ok(7) bs0] fresh bs by simp
  qed
  have keys: "keys M = keys (rt_request_maps rt)" by (auto simp: M_def)
  have "bridges_ok ?rt2"
  proof (rule bridges_okI)
    show "calls_balanced ?rt2" using ok(9) fresh by (auto simp: calls_balanced_def es_def bridge_counts_one)
    show "maps_hold ?rt2" using in_M by (simp add: maps_hold_def)
    show "requests_owned ?rt2" using ok(8) by (simp add: requests_owned_def)
  qed (use ok(1-6) fresh keys in auto)
  then show ?thesis
    using True register_bridge_eq [of ?rt1] ok(2) none_lost by (simp add: register_service_bridge_def Let_def es_def M_def)
qed (use assms in \<open>simp add: register_service_bridge_def\<close>)

text \<open>A bridge goes: all its handles are released.\<close>

lemma stop_registration_ok:
  assumes "bridges_ok rt"
  shows "bridges_ok (stop_registration b rt)"
proof -
  note ok = bridges_okD [OF assms]
  let ?ids = "rq_map ` set (map snd (rt_requests rt))"
  define M where "M = map (\<lambda>(r, n, bs). if r \<in> ?ids then (r, n, removeAll b bs) else (r, n, bs)) (rt_request_maps rt)"
  define held where "held = filter (\<lambda>(r, n, bs). b \<in> set bs \<and> r \<in> ?ids) (rt_request_maps rt)"
  let ?rt2 = "rt_emit (map (\<lambda>_. Bridge_release b) held) (rt\<lparr>rt_bridges := AList.delete b (rt_bridges rt), rt_request_maps := M\<rparr>)"
  have ids: "?ids = set (request_ids rt)" by (simp add: image_image)
  have in_ids: "r \<in> ?ids" if "(r, n, bs) \<in> set (rt_request_maps rt)" for r n bs using that ok(5) unfolding ids by force
  have keys: "keys M = keys (rt_request_maps rt)" by (auto simp: M_def)
  have "held = filter (\<lambda>_. b \<in> set (keys (rt_bridges rt))) (rt_request_maps rt)"
    unfolding held_def
  proof (rule filter_cong [OF refl])
    fix m assume m: "m \<in> set (rt_request_maps rt)"
    obtain r n bs where e: "m = (r, n, bs)" by (cases m)
    show "(case m of (r, n, bs) \<Rightarrow> b \<in> set bs \<and> r \<in> ?ids) = (b \<in> set (keys (rt_bridges rt)))"
      using maps_holdD [OF ok(7) m [unfolded e]] in_ids [OF m [unfolded e]] unfolding e by simp
  qed
  moreover have "length (rt_request_maps rt) = length (rt_requests rt)"
    using distinct_card [OF ok(3)] distinct_card [OF ok(4)] ok(5) by simp
  ultimately have held: "length held = (if b \<in> set (keys (rt_bridges rt)) then length (rt_requests rt) else 0)" by simp
  have "bridges_ok ?rt2"
  proof (rule bridges_okI)
    show "calls_balanced ?rt2" using ok(9) held by (auto simp: calls_balanced_def bridge_counts_one delete_keys)
    show "requests_owned ?rt2" using ok(8) by (simp add: requests_owned_def)
    show "maps_hold ?rt2"
      unfolding maps_hold_def
    proof (intro allI impI)
      fix r n bs assume "(r, n, bs) \<in> set (rt_request_maps ?rt2)"
      then obtain bs0 where bs0: "(r, n, bs0) \<in> set (rt_request_maps rt)" and "bs = removeAll b bs0"
        using in_ids unfolding M_def by (fastforce split: if_splits)
      then show "n = 1 \<and> distinct bs \<and> set bs = set (keys (rt_bridges ?rt2))"
        using maps_holdD [OF ok(7) bs0] by (simp add: distinct_removeAll delete_keys)
    qed
  qed (use ok(1-6) keys in \<open>auto simp: distinct_removeAll delete_keys\<close>)
  then show ?thesis by (simp add: stop_registration_def Let_def M_def held_def)
qed

text \<open>A client waits: every bridge is asked once.\<close>

definition same_requests :: "'p Runtime \<Rightarrow> 'p Runtime \<Rightarrow> bool" where
  "same_requests rt rt' \<longleftrightarrow> rt_bridges rt' = rt_bridges rt \<and> rt_requests rt' = rt_requests rt \<and> rt_request_maps rt' = rt_request_maps rt
     \<and> rt_next rt \<le> rt_next rt'
     \<and> (\<forall>b. bridge_calls b (rt_log rt') = bridge_calls b (rt_log rt) \<and> bridge_releases b (rt_log rt') = bridge_releases b (rt_log rt))"

lemma bridge_frame_same: "bridge_frame rt rt' \<longleftrightarrow> same_requests rt rt' \<and> request_view rt' = request_view rt"
  by (auto simp: bridge_frame_def same_requests_def)

lemma same_requests_trans: "same_requests a b \<Longrightarrow> same_requests b c \<Longrightarrow> same_requests a c"
  by (auto simp: same_requests_def)

lemma new_request_eq:
  assumes "(def_interface cfg, inst) \<notin> set (keys (rt_requests rt))"
    and "set (keys (rt_request_maps rt)) \<subseteq> {0..<rt_next rt}"
  shows "get_bridge_requests cfg inst None rt = (rt_next rt, rt_emit (map (\<lambda>b. Bridge_request b cfg inst) (keys (rt_bridges rt)))
    (rt\<lparr>rt_next := rt_next rt + 1,
        rt_requests := rt_requests rt @ [((def_interface cfg, inst), \<lparr>rq_definition = cfg, rq_map = rt_next rt, rq_identities = [None]\<rparr>)],
        rt_request_maps := (rt_next rt, 1, keys (rt_bridges rt)) # rt_request_maps rt\<rparr>))"
proof -
  have old: "map_of (rt_requests rt) (def_interface cfg, inst) = None" using assms(1) by (simp add: map_of_eq_None_iff)
  have maps: "map (\<lambda>(r, n, bs). if r = rt_next rt then (r, n, bs @ new) else (r, n, bs)) (rt_request_maps rt) = rt_request_maps rt" for new
    using assms(2) by (intro map_idI) force
  show ?thesis using assms(1) old
    by (simp add: get_bridge_requests_def Let_def is_forward_subscription_def lock_map_def update_missing maps)
qed

lemma requests_owned_add:
  assumes "requests_owned rt" and "\<And>c' x. request_view rt c' \<noteq> Some (k, x)" and "request_view rt c = None"
    and "request_view rt3 = (request_view rt)(c \<mapsto> (k, y))" and "y = map_option rq_map (map_of (rt_requests rt3) k)"
    and "\<And>k'. k' \<noteq> k \<Longrightarrow> map_of (rt_requests rt3) k' = map_of (rt_requests rt) k'"
  shows "requests_owned rt3"
  unfolding requests_owned_def
proof (intro conjI allI impI)
  fix c' k' x assume v: "request_view rt3 c' = Some (k', x)"
  show "x = map_option rq_map (map_of (rt_requests rt3) k')"
  proof (cases "c' = c")
    case False
    then have o: "request_view rt c' = Some (k', x)" using v assms(4) by simp
    then have "k' \<noteq> k" using assms(2) by blast
    then show ?thesis using assms(1,6) o unfolding requests_owned_def by metis
  qed (use v assms(4,5) in auto)
next
  fix k' assume k': "k' \<in> set (keys (rt_requests rt3))"
  show "\<exists>c x. request_view rt3 c = Some (k', x)"
  proof (cases "k' = k")
    case False
    then have "k' \<in> set (keys (rt_requests rt))" using k' assms(6) [of k'] by (metis map_of_eq_None_iff set_map)
    then obtain c' x where "request_view rt c' = Some (k', x)" using assms(1) unfolding requests_owned_def by blast
    then show ?thesis using assms(3,4) by (intro exI [of _ c']) auto
  qed (use assms(4) in auto)
qed

lemma no_request_of:
  assumes "requests_owned rt" and "\<And>c' x. request_view rt c' \<noteq> Some (k, x)"
  shows "k \<notin> set (keys (rt_requests rt))"
  using assms unfolding requests_owned_def by blast

lemma waiting_client_ok:
  assumes "bridges_ok rt" and "same_requests rt rt1" and "\<And>c' x. request_view rt c' \<noteq> Some ((def_interface cfg, inst), x)"
    and "request_view rt c = None" and "get_bridge_requests cfg inst None rt1 = (m, rt2)" and "same_requests rt2 rt3"
    and "request_view rt3 = (request_view rt)(c \<mapsto> ((def_interface cfg, inst), Some m))"
  shows "bridges_ok rt3"
proof -
  note ok = bridges_okD [OF assms(1)]
  let ?k = "(def_interface cfg, inst)" and ?n = "rt_next rt1"
  have s: "rt_bridges rt1 = rt_bridges rt" "rt_requests rt1 = rt_requests rt" "rt_request_maps rt1 = rt_request_maps rt" "rt_next rt \<le> ?n"
    using assms(2) by (simp_all add: same_requests_def)
  have nk: "?k \<notin> set (keys (rt_requests rt))" by (rule no_request_of [OF ok(8) assms(3)])
  have below: "set (keys (rt_bridges rt)) \<union> set (keys (rt_request_maps rt)) \<subseteq> {0..<?n}" using ok(6) s(4) by force
  have eq: "m = ?n" "rt2 = rt_emit (map (\<lambda>b. Bridge_request b cfg inst) (keys (rt_bridges rt)))
    (rt1\<lparr>rt_next := ?n + 1, rt_requests := rt_requests rt @ [(?k, \<lparr>rq_definition = cfg, rq_map = ?n, rq_identities = [None]\<rparr>)],
        rt_request_maps := (?n, 1, keys (rt_bridges rt)) # rt_request_maps rt\<rparr>)"
    using new_request_eq [of cfg inst rt1] nk assms(5) below s(1-3) by auto
  have fresh: "?n \<notin> set (keys (rt_request_maps rt))" using below by auto
  have none: "map_of (rt_requests rt) ?k = None" using nk by (simp add: map_of_eq_None_iff)
  show ?thesis
  proof (rule bridges_okI)
    show "calls_balanced rt3"
      using ok(9) assms(2,6) by (simp add: calls_balanced_def same_requests_def eq(2) bridge_counts_keys [OF ok(1)])
    show "maps_hold rt3" using ok(1,7) assms(6) by (simp add: maps_hold_def same_requests_def eq(2) s(1))
    show "requests_owned rt3"
      by (rule requests_owned_add [OF ok(8) assms(3,4,7)])
        (use none assms(6) in \<open>auto simp: same_requests_def eq map_add_def split: option.splits\<close>)
  qed (use ok(1-5) below fresh nk assms(6) in \<open>auto simp: same_requests_def eq(2) s(1)\<close>)
qed

lemma unbridged_client_ok:
  assumes "bridges_ok rt" and "same_requests rt rt3" and "\<And>c' x. request_view rt c' \<noteq> Some (k, x)"
    and "request_view rt c = None" and "request_view rt3 = (request_view rt)(c \<mapsto> (k, None))"
  shows "bridges_ok rt3"
proof -
  note ok = bridges_okD [OF assms(1)]
  have "requests_owned rt3"
    by (rule requests_owned_add [OF ok(8) assms(3,4,5)])
      (use no_request_of [OF ok(8) assms(3)] assms(2) in \<open>simp_all add: same_requests_def map_of_eq_None_iff\<close>)
  moreover have "calls_balanced rt3" "maps_hold rt3"
    using ok(7,9) assms(2) by (simp_all add: calls_balanced_def maps_hold_def same_requests_def)
  moreover have "{0..<rt_next rt} \<subseteq> {0..<rt_next rt3}" using assms(2) by (simp add: same_requests_def)
  ultimately show ?thesis using ok(1-6) assms(2) unfolding bridges_ok_def same_requests_def by auto
qed

lemma register_client_cases:
  assumes "rt_register_client cfg inst c rt0 = Ok (r, rt2)"
  obtains (duplicate) y where "r = Err duplicate_client" and "rt2 = rt0\<lparr>rt_database := y\<rparr>"
      and "rec_client (db_record (def_interface cfg) inst (rt_database rt0)) \<noteq> None"
  | (waiting) y m where "r = Ok (Some m)" and "get_bridge_requests cfg inst None (rt0\<lparr>rt_database := y\<rparr>) = (m, rt2)"
      and "rec_client (db_record (def_interface cfg) inst (rt_database rt0)) = None"
  | (served) y where "r = Ok None" and "bridge_frame (rt0\<lparr>rt_database := y\<rparr>) rt2"
      and "rec_client (db_record (def_interface cfg) inst (rt_database rt0)) = None"
proof (cases "rec_client (db_record (def_interface cfg) inst (rt_database rt0))")
  case (Some e)
  then show ?thesis using assms duplicate by (auto simp: rt_register_client_def Let_def)
next
  case None
  let ?i = "def_interface cfg"
  let ?db = "db_store ?i inst (db_record ?i inst (rt_database rt0)\<lparr>rec_client := Some (?i, c)\<rparr>) (rt_database rt0)"
  show ?thesis
  proof (cases "rec_server (db_record ?i inst (rt_database rt0))")
    case sn: None
    obtain m rt3 where g: "get_bridge_requests cfg inst None (rt0\<lparr>rt_database := ?db\<rparr>) = (m, rt3)" by fastforce
    then have "r = Ok (Some m)" "rt3 = rt2"
      using assms None sn by (simp_all add: rt_register_client_def Let_def get_or_create_service_requests_def)
    then show ?thesis using waiting g None by blast
  next
    case (Some e)
    obtain si s where e: "e = (si, s)" by (cases e)
    have "r = Ok None \<and> bridge_frame (rt0\<lparr>rt_database := ?db\<rparr>) rt2"
    proof (cases "is_minor_version_compatible si ?i")
      case True
      then have "r = Ok None" "on_server_update c s (rt0\<lparr>rt_database := ?db\<rparr>) = Ok rt2"
        using assms None Some e by (auto simp: rt_register_client_def Let_def elim!: and_then_OkE)
      then show ?thesis using on_server_update_bridge by blast
    next
      case False
      then show ?thesis using assms None Some e by (auto simp: rt_register_client_def Let_def bridge_frame_def)
    qed
    then show ?thesis using served None by blast
  qed
qed

lemma make_client_bridges_ok:
  assumes "runtime_ok rt" and "bridges_ok rt" and "make_client_connector cbs cfg inst cred rt = Ok (r, rt')"
  shows "bridges_ok rt'"
proof (cases "is_valid_client cbs")
  case False
  then show ?thesis using assms by (simp add: make_client_connector_def)
next
  case True
  let ?c = "rt_next rt" and ?k = "(def_interface cfg, inst)"
  obtain rr rt2 where reg: "rt_register_client cfg inst ?c (rt_with_client cfg inst cred rt) = Ok (rr, rt2)"
    and fin: "(case rr of Err e \<Rightarrow> Ok (Err e, rt2\<lparr>rt_clients := AList.delete ?c (rt_clients rt2)\<rparr>)
      | Ok m \<Rightarrow> (case map_of (rt_clients rt2) ?c of None \<Rightarrow> Err Null_deref
          | Some cc1 \<Rightarrow> Ok (Ok ?c, rt2\<lparr>rt_clients := AList.update ?c (cc1\<lparr>cc_registered := True, cc_requests := m\<rparr>) (rt_clients rt2)\<rparr>))) = Ok (r, rt')"
    using assms(3) True by (auto simp: make_client_connector_def new_client_def Let_def elim!: and_then_OkE)
  have fresh: "request_view rt ?c = None" using fresh_refs(2) [OF assms(1)] by (simp add: request_view_def)
  have view0: "request_view (rt_with_client cfg inst cred rt) = (request_view rt)(?c \<mapsto> (?k, None))"
    by (auto simp: request_view_def map_of_update new_client_def fun_eq_iff)
  have nobody: "request_view rt c' \<noteq> Some (?k, x)" if "rec_client (db_record (def_interface cfg) inst (rt_database rt)) = None" for c' x
    using recorded_client [OF runtime_okD(3) [OF assms(1)], of c' _ "def_interface cfg"] that
    by (auto simp: request_view_def db_records_def key_equal_equivalence(1))
  have same0: "same_requests rt ((rt_with_client cfg inst cred rt)\<lparr>rt_database := y\<rparr>)" for y by (simp add: same_requests_def)
  from reg show ?thesis
  proof (cases rule: register_client_cases)
    case (duplicate y)
    have "request_view rt' = request_view rt" using fin duplicate(1,2) fresh by (auto simp: request_view_def map_of_delete map_of_update fun_eq_iff)
    then show ?thesis using bridges_ok_frame [OF assms(2)] fin duplicate(1,2) by (auto simp: bridge_frame_def)
  next
    case (waiting y m)
    have "rt_clients rt2 = rt_clients (rt_with_client cfg inst cred rt)"
      using get_bridge_requests_frame [of "(rt_with_client cfg inst cred rt)\<lparr>rt_database := y\<rparr>" cfg inst None] waiting(2)
      by (simp add: same_connections_def)
    then have rt': "rt' = rt2\<lparr>rt_clients := AList.update ?c (new_client cfg inst cred None True (Some m)) (rt_clients rt2)\<rparr>"
      and "request_view rt' = (request_view rt)(?c \<mapsto> (?k, Some m))"
      using fin waiting(1) by (auto simp: map_of_update new_client_def request_view_def fun_eq_iff)
    then show ?thesis
      using waiting_client_ok [OF assms(2) same0 nobody fresh waiting(2), of rt'] waiting(3) by (simp add: same_requests_def)
  next
    case (served y)
    have v: "request_view rt2 = (request_view rt)(?c \<mapsto> (?k, None))" using served(2) view0 by (simp add: bridge_frame_def)
    then have "request_view rt2 ?c = Some (?k, None)" by simp
    then obtain cc1 where cc1: "map_of (rt_clients rt2) ?c = Some cc1" "client_key cc1 = ?k" "cc_requests cc1 = None"
      by (auto simp: request_view_def)
    have "request_view rt' = (request_view rt)(?c \<mapsto> (?k, None))"
      using fin served(1) cc1 v request_view_update [OF cc1(1), of "cc1\<lparr>cc_registered := True, cc_requests := None\<rparr>"] by auto
    moreover have "same_requests rt rt'"
      using same_requests_trans [OF same0 [of y], of rt'] served(2) fin served(1) cc1(1) by (auto simp: bridge_frame_same same_requests_def)
    ultimately show ?thesis using unbridged_client_ok [OF assms(2) _ nobody fresh] served(3) by simp
  qed
qed

text \<open>A client goes: the handles of its request are released.\<close>

lemma release_requests_eq:
  assumes "bridges_ok rt" and "(k, rq) \<in> set (rt_requests rt)"
  shows "\<exists>bs. (rq_map rq, 1, bs) \<in> set (rt_request_maps rt) \<and> release_bridge_requests (Some (rq_map rq)) k rt =
    rt_emit (map Bridge_release bs)
      (rt\<lparr>rt_request_maps := AList.delete (rq_map rq) (rt_request_maps rt), rt_requests := AList.delete k (rt_requests rt)\<rparr>)"
proof -
  note ok = bridges_okD [OF assms(1)]
  obtain n bs where m: "map_of (rt_request_maps rt) (rq_map rq) = Some (n, bs)"
    using live_maps [OF assms] by (auto simp: lock_map_def)
  then have in_maps: "(rq_map rq, n, bs) \<in> set (rt_request_maps rt)" by (rule map_of_SomeD)
  then have n: "n = 1" using maps_holdD [OF ok(7)] by blast
  have k: "map_of (rt_requests rt) k = Some rq" using assms(2) ok(2) by (simp add: map_of_is_SomeI)
  have "release_bridge_requests (Some (rq_map rq)) k rt =
    rt_emit (map Bridge_release bs)
      (rt\<lparr>rt_request_maps := AList.delete (rq_map rq) (rt_request_maps rt), rt_requests := AList.delete k (rt_requests rt)\<rparr>)"
    using m k n by (simp add: release_bridge_requests_def drop_map_def remove_from_service_requests_def lock_map_def map_of_delete rt_emit_def)
  then show ?thesis using in_maps n by blast
qed

lemma delete_assoc_length:
  assumes "distinct (keys m)" and "k \<in> set (keys m)"
  shows "length m = Suc (length (AList.delete k m))"
  using assms by (induction m) (auto simp: delete_id)

lemma requests_owned_remove:
  assumes "requests_owned rt" and "request_view rt c = Some (k, x)" and "\<And>c' x'. request_view rt c' = Some (k, x') \<Longrightarrow> c' = c"
    and "request_view rt3 = (request_view rt)(c := None)" and "map_of (rt_requests rt3) = (map_of (rt_requests rt))(k := None)"
  shows "requests_owned rt3"
  unfolding requests_owned_def
proof (intro conjI allI impI)
  fix c' k' x' assume v: "request_view rt3 c' = Some (k', x')"
  then have o: "request_view rt c' = Some (k', x')" "c' \<noteq> c" using assms(4) by (auto split: if_splits)
  then have "k' \<noteq> k" using assms(3) by blast
  then show "x' = map_option rq_map (map_of (rt_requests rt3) k')"
    using assms(1,5) o(1) unfolding requests_owned_def by (metis fun_upd_other)
next
  fix k' assume "k' \<in> set (keys (rt_requests rt3))"
  then have "map_of (rt_requests rt3) k' \<noteq> None" by (simp add: map_of_eq_None_iff)
  then have k': "k' \<noteq> k" "map_of (rt_requests rt) k' \<noteq> None" using assms(5) by (auto split: if_splits)
  then obtain c' x' where "request_view rt c' = Some (k', x')"
    using assms(1) unfolding requests_owned_def by (metis map_of_eq_None_iff set_map)
  then show "\<exists>c x. request_view rt3 c = Some (k', x)" using assms(2,4) k'(1) by (intro exI [of _ c']) auto
qed

lemma client_gone_ok:
  assumes "bridges_ok rt" and "request_view rt c = Some (k, x)" and "\<And>c' x'. request_view rt c' = Some (k, x') \<Longrightarrow> c' = c"
    and "rt3 = release_bridge_requests x k rt" and "rt' = rt3\<lparr>rt_clients := AList.delete c (rt_clients rt3)\<rparr>"
  shows "bridges_ok rt'"
proof -
  note ok = bridges_okD [OF assms(1)]
  have x: "x = map_option rq_map (map_of (rt_requests rt) k)" using ok(8) assms(2) unfolding requests_owned_def by blast
  have "rt_clients rt3 = rt_clients rt" using release_bridge_requests_frame [of rt x k] assms(4) by (simp add: same_connections_def)
  then have view: "request_view rt' = (request_view rt)(c := None)" using assms(5) by (auto simp: request_view_def map_of_delete fun_eq_iff)
  show ?thesis
  proof (cases "map_of (rt_requests rt) k")
    case None
    then have rt3: "rt3 = rt" using x assms(4) by (simp add: release_bridge_requests_def)
    have "requests_owned rt'"
      by (rule requests_owned_remove [OF ok(8) assms(2,3) view]) (use None in \<open>simp_all add: assms(5) rt3 fun_upd_idem\<close>)
    moreover have "calls_balanced rt'" "maps_hold rt'" using ok(7,9) by (simp_all add: calls_balanced_def maps_hold_def assms(5) rt3)
    ultimately show ?thesis using ok(1-6) by (simp add: bridges_ok_def assms(5) rt3)
  next
    case (Some rq)
    then have rq: "(k, rq) \<in> set (rt_requests rt)" by (rule map_of_SomeD)
    obtain bs where bs: "(rq_map rq, 1, bs) \<in> set (rt_request_maps rt)" and rt3: "rt3 = rt_emit (map Bridge_release bs)
        (rt\<lparr>rt_request_maps := AList.delete (rq_map rq) (rt_request_maps rt), rt_requests := AList.delete k (rt_requests rt)\<rparr>)"
      using release_requests_eq [OF assms(1) rq] Some x assms(4) by auto
    have other: "rq_map rq' \<noteq> rq_map rq" if "(k', rq') \<in> set (rt_requests rt)" "k' \<noteq> k" for k' rq'
      using ok(4) that rq unfolding distinct_map inj_on_def by (metis Pair_inject snd_conv)
    have same: "rq' = rq" if "(k, rq') \<in> set (rt_requests rt)" for rq' using Some that ok(2) by (simp add: map_of_is_SomeI)
    show ?thesis
    proof (rule bridges_okI)
      show "requests_owned rt'"
        by (rule requests_owned_remove [OF ok(8) assms(2,3) view]) (simp_all add: assms(5) rt3 map_of_delete)
      have "length (rt_requests rt) = Suc (length (AList.delete k (rt_requests rt)))"
        using delete_assoc_length [OF ok(2), of k] rq by force
      then show "calls_balanced rt'"
        using ok(9) maps_holdD [OF ok(7) bs] by (simp add: calls_balanced_def assms(5) rt3 bridge_counts_each(2))
      show "maps_hold rt'" using ok(7) by (simp add: maps_hold_def assms(5) rt3 AList.delete_eq) blast
      have "set (request_ids rt') = set (request_ids rt) - {rq_map rq}"
        using other same by (auto simp: assms(5) rt3 AList.delete_eq image_iff)
      then show "set (keys (rt_request_maps rt')) = set (request_ids rt')"
        using ok(5) by (simp add: assms(5) rt3 delete_keys)
      show "distinct (request_ids rt')" using ok(4) by (simp add: assms(5) rt3 AList.delete_eq distinct_map_filter)
    qed (use ok(1-3,6) in \<open>auto simp: assms(5) rt3 distinct_removeAll delete_keys\<close>)
  qed
qed

lemma destroy_client_bridges_ok:
  assumes "runtime_ok rt" and "bridges_ok rt" and "map_of (rt_clients rt) c = Some cc" and "destroy_client c rt = Ok (ended, rt')"
  shows "bridges_ok rt'"
proof -
  let ?rt1 = "rt\<lparr>rt_clients := AList.update c (cc\<lparr>cc_stop_block_token := False\<rparr>) (rt_clients rt)\<rparr>"
  note reg = runtime_okD(5) [OF assms(1,3)]
  obtain rt2 y where r: "client_reset_server c ?rt1 = Ok rt2"
    and rt': "rt' = (let rt3 = release_bridge_requests (cc_requests cc) (client_key cc) (rt2\<lparr>rt_database := y\<rparr>)
                     in rt3\<lparr>rt_clients := AList.delete c (rt_clients rt3)\<rparr>)"
    using assms(3,4) reg by (auto simp: destroy_client_def Let_def elim!: and_then_OkE)
  have "bridge_frame rt ?rt1" using request_view_update [OF assms(3), of "cc\<lparr>cc_stop_block_token := False\<rparr>"] by (simp add: bridge_frame_def)
  then have f: "bridge_frame rt (rt2\<lparr>rt_database := y\<rparr>)"
    using bridge_frame_trans client_reset_server_bridge [OF r] bridge_frame_servers(2) by blast
  then have v: "request_view (rt2\<lparr>rt_database := y\<rparr>) = request_view rt" by (simp add: bridge_frame_def)
  have unique: "c' = c" if view: "request_view rt c' = Some (client_key cc, x')" for c' x'
  proof -
    obtain cc' where cc': "map_of (rt_clients rt) c' = Some cc'" "client_key cc' = client_key cc" using view by (auto simp: request_view_def)
    have "rec_client (db_records rt (c_interface cc) (cc_instance cc)) = Some (c_interface cc, c)"
      using recorded_client [OF runtime_okD(3) [OF assms(1)] assms(3) key_equal_equivalence(1)] .
    moreover have "rec_client (db_records rt (c_interface cc) (cc_instance cc)) = Some (c_interface cc, c')"
      using recorded_client [OF runtime_okD(3) [OF assms(1)] cc'(1) key_equal_equivalence(1)] cc'(2) by simp
    ultimately show ?thesis by simp
  qed
  have "request_view rt c = Some (client_key cc, cc_requests cc)" using assms(3) by (simp add: request_view_def)
  then show ?thesis
  proof (rule client_gone_ok [OF bridges_ok_frame [OF assms(2) f], unfolded v, OF _ _ refl rt' [unfolded Let_def]])
    fix c' x' assume "request_view rt c' = Some (client_key cc, x')"
    then show "c' = c" by (rule unique)
  qed
qed

subsection \<open>The balance of requests\<close>

lemma runtime_step_bridges_ok:
  assumes "runtime_step rt rt'" and "runtime_ok rt" and "bridges_ok rt"
  shows "bridges_ok rt'"
  using assms
proof (induction rule: runtime_step.induct)
  case (make_client cbs cfg inst cred rt r rt')
  then show ?case using make_client_bridges_ok by blast
next
  case (destroy_client rt c cc ended rt')
  then show ?case using destroy_client_bridges_ok by blast
next
  case (make_server scbs cfg inst cred rt rs rt')
  then show ?case using bridges_ok_frame make_server_bridge by (metis snd_conv)
next
  case (register_bridge i cb rt rb rt')
  then show ?case using register_bridge_ok by (metis snd_conv)
next
  case (stop_bridge b rt rt')
  then show ?case using stop_registration_ok by blast
qed (auto simp: subscribe_event_def unsubscribe_event_def request_event_update_def
      dest!: enable_server_bridge disable_server_bridge destroy_server_bridge request_bridge call_method_bridge
        update_event_bridge update_requested_bridge intro: bridges_ok_frame)

lemma runtime_reachable_bridges_ok: "runtime_reachable rt \<Longrightarrow> bridges_ok rt"
proof (induction rule: runtime_reachable.induct)
  case (step rt rt')
  then show ?case using runtime_step_bridges_ok runtime_reachable_ok by blast
qed (rule create_runtime_bridges_ok)

lemma waiting_clients_requests:
  assumes "runtime_ok rt" and "bridges_ok rt"
  shows "card {c. \<exists>cc. map_of (rt_clients rt) c = Some cc \<and> cc_requests cc \<noteq> None} = length (rt_requests rt)"
proof -
  let ?W = "{c. \<exists>cc. map_of (rt_clients rt) c = Some cc \<and> cc_requests cc \<noteq> None}"
  let ?key = "\<lambda>c. client_key (the (map_of (rt_clients rt) c))"
  note own = bridges_okD(8) [OF assms(2), unfolded requests_owned_def]
  have req: "cc_requests cc = map_option rq_map (map_of (rt_requests rt) (client_key cc))" if "map_of (rt_clients rt) c = Some cc" for c cc
  proof -
    have "request_view rt c = Some (client_key cc, cc_requests cc)" using that by (simp add: request_view_def)
    then show ?thesis using own by blast
  qed
  have "inj_on ?key ?W"
  proof (rule inj_onI)
    fix c c' assume "c \<in> ?W" "c' \<in> ?W" and k: "?key c = ?key c'"
    then obtain cc cc' where "map_of (rt_clients rt) c = Some cc" "map_of (rt_clients rt) c' = Some cc'" by blast
    then show "c = c'"
      using recorded_client [OF runtime_okD(3) [OF assms(1)] _ key_equal_equivalence(1), of c cc]
        recorded_client [OF runtime_okD(3) [OF assms(1)] _ key_equal_equivalence(1), of c' cc'] k by simp
  qed
  moreover have "?key ` ?W = set (keys (rt_requests rt))"
  proof (rule set_eqI)
    fix k
    show "k \<in> ?key ` ?W \<longleftrightarrow> k \<in> set (keys (rt_requests rt))"
    proof
      assume "k \<in> ?key ` ?W"
      then obtain c cc where "map_of (rt_clients rt) c = Some cc" "cc_requests cc \<noteq> None" "k = client_key cc" by auto
      then have "map_of (rt_requests rt) k \<noteq> None" using req by auto
      then show "k \<in> set (keys (rt_requests rt))" by (simp add: map_of_eq_None_iff)
    next
      assume k: "k \<in> set (keys (rt_requests rt))"
      then obtain c x where "request_view rt c = Some (k, x)" using own by blast
      then obtain cc where cc: "map_of (rt_clients rt) c = Some cc" "client_key cc = k" by (auto simp: request_view_def)
      moreover have "map_of (rt_requests rt) k \<noteq> None" using k by (simp add: map_of_eq_None_iff)
      ultimately show "k \<in> ?key ` ?W" using req [OF cc(1)] by (intro rev_image_eqI [of c]) auto
    qed
  qed
  ultimately have "card ?W = card (set (keys (rt_requests rt)))" using card_image by fastforce
  also have "\<dots> = length (rt_requests rt)" using distinct_card [OF bridges_okD(2) [OF assms(2)]] by simp
  finally show ?thesis .
qed


definition demo_bridged :: "nat Runtime" where
  "demo_bridged = snd (register_service_bridge 7 True demo_waiting)"


subsection \<open>The registration loop\<close>

lemma register_bridge_loop_ends:
  assumes "finite U" and "set (done @ to_do) \<subseteq> U" and "\<forall>table \<in> set relocks. set table \<subseteq> U \<and> distinct table" and "distinct (done @ to_do)"
    and "card (U - set (done @ to_do)) < length relocks"
  shows "register_bridge_loop to_do done (relocks @ later) = register_bridge_loop to_do done relocks
    \<and> distinct (done @ register_bridge_loop to_do done relocks)
    \<and> (\<exists>table \<in> set relocks. set table \<subseteq> set (done @ register_bridge_loop to_do done relocks))"
  using assms
proof (induction relocks arbitrary: to_do "done")
  case (Cons table relocks)
  let ?done = "done @ to_do" and ?new = "filter (\<lambda>k. k \<notin> set (done @ to_do)) table"
  show ?case
  proof (cases "?new = []")
    case True
    then have "set table \<subseteq> set ?done" by (auto simp: filter_empty_conv)
    then show ?thesis using True Cons.prems(4) by (auto simp: Let_def)
  next
    case False
    have new: "set (?done @ ?new) \<subseteq> U" "distinct (?done @ ?new)" using Cons.prems(2-4) by auto
    obtain k where k: "k \<in> set ?new" using False by (metis last_in_set)
    have "U - set (?done @ ?new) \<subset> U - set ?done" using k Cons.prems(3) by auto
    then have "card (U - set (?done @ ?new)) < card (U - set ?done)" using Cons.prems(1) by (intro psubset_card_mono) auto
    then have less: "card (U - set (?done @ ?new)) < length relocks" using Cons.prems(5) by simp
    have "\<forall>table \<in> set relocks. set table \<subseteq> U \<and> distinct table" using Cons.prems(3) by simp
    from Cons.IH [OF Cons.prems(1) new(1) this new(2) less] False show ?thesis by (simp add: Let_def)
  qed
qed simp



end
