(* ===== verification/Server_Callbacks.thy ===== *)
theory Server_Callbacks
  imports Server_Connector
begin

text \<open>
  What a service provider learns from the callbacks of its server connector. The connector
  refines an abstract specification, the set of subscribed events: every operation acts on
  the set as its name says, and the callbacks tell the provider exactly how the set changes.
\<close>

subsection \<open>Specification\<close>

datatype event_op =
    Connect client_ref
  | Subscribe Event_id Event_mode
  | Unsubscribe Event_id
  | Request_update Event_id
  | Answer_request Event_id
  | Disconnect

text \<open>The set of subscribed events of an interface with \<open>n\<close> events, and whether a client is
  connected.\<close>

fun event_spec :: "nat \<Rightarrow> event_op \<Rightarrow> bool \<times> Event_id set \<Rightarrow> bool \<times> Event_id set" where
  "event_spec n (Connect c) (con, S) = (True, S)"
| "event_spec n (Subscribe e mode) (con, S) = (con, if con \<and> unat e < n then insert e S else S)"
| "event_spec n (Unsubscribe e) (con, S) = (con, if con \<and> unat e < n then S - {e} else S)"
| "event_spec n (Request_update e) (con, S) = (con, S)"
| "event_spec n (Answer_request e) (con, S) = (con, S)"
| "event_spec n Disconnect (con, S) = (False, {})"

subsection \<open>Implementation\<close>

text \<open>The operations of the connector; without a connected client a request does not reach it.\<close>

definition on_client :: "(client_ref \<Rightarrow> Server_connector \<Rightarrow> ((Error, unit) result \<times> 'p server_callback list) \<times> Server_connector)
    \<Rightarrow> Server_connector \<Rightarrow> 'p server_callback list \<times> Server_connector" where
  "on_client f sc = (case sc_client sc of None \<Rightarrow> ([], sc) | Some c \<Rightarrow> let ((r, cbs), sc') = f c sc in (cbs, sc'))"

fun event_impl :: "event_op \<Rightarrow> Server_connector \<Rightarrow> ('p server_callback list \<times> Server_connector) run" where
  "event_impl (Connect c) sc = and_then (sc_receive_connect c sc) (\<lambda>(r, sc'). Ok ([], sc'))"
| "event_impl (Subscribe e mode) sc = Ok (on_client (\<lambda>c. sc_receive_subscribe_event c e mode) sc)"
| "event_impl (Unsubscribe e) sc = Ok (on_client (\<lambda>c. sc_receive_unsubscribe_event e) sc)"
| "event_impl (Request_update e) sc = Ok (on_client (\<lambda>c. sc_receive_request_event_update c e) sc)"
| "event_impl (Answer_request e) sc = Ok ([], snd (sc_update_requested_event e sc))"
| "event_impl Disconnect sc = (case sc_client sc of None \<Rightarrow> Ok ([], sc) | Some _ \<Rightarrow> sc_remove_client sc)"

fun event_run :: "event_op list \<Rightarrow> Server_connector \<Rightarrow> ('p server_callback list \<times> Server_connector) run" where
  "event_run [] sc = Ok ([], sc)"
| "event_run (op # ops) sc = and_then (event_impl op sc) (\<lambda>(cbs, sc1). and_then (event_run ops sc1) (\<lambda>(cbs', sc2). Ok (cbs @ cbs', sc2)))"

definition event_abs :: "Server_connector \<Rightarrow> bool \<times> Event_id set" where
  "event_abs sc = (sc_client sc \<noteq> None, sc_subscribed sc)"

text \<open>An enabled, well-formed connector.\<close>

definition sc_serving :: "Server_connector \<Rightarrow> bool" where
  "sc_serving sc \<longleftrightarrow> sc_wf sc \<and> sc_stop_block_token sc"

text \<open>One step is correct: it simulates the specification and its callbacks describe the change.\<close>

definition step_correct :: "event_op \<Rightarrow> Server_connector \<Rightarrow> 'p server_callback list \<Rightarrow> Server_connector \<Rightarrow> bool" where
  "step_correct op sc cbs sc' \<longleftrightarrow> sc_serving sc' \<and> sc_configuration sc' = sc_configuration sc
     \<and> event_abs sc' = event_spec (num_events_of (sc_configuration sc)) op (event_abs sc)
     \<and> fold apply_callback cbs (sc_subscribed sc) = sc_subscribed sc' \<and> callbacks_ok cbs (sc_subscribed sc)"

lemma connect_correct:
  assumes "sc_serving sc" and "sc_client sc = None"
  shows "\<exists>cbs sc'. event_impl (Connect c) sc = Ok (cbs, sc') \<and> step_correct (Connect c) sc cbs sc'"
  using assms by (auto simp: step_correct_def sc_serving_def sc_receive_connect_def event_abs_def sc_wf_def sc_subscribed_def)

lemma subscribed_update:
  assumes "unat e < length xs" and "sc_subscriber sc' = xs[unat e := Some c]" and "sc_subscriber sc = xs"
  shows "sc_subscribed sc' = insert e (sc_subscribed sc)"
  using assms by (auto simp: sc_subscribed_def nth_list_update unat_inj split: if_splits)

lemma subscribe_correct:
  fixes cbs :: "'p server_callback list"
  assumes "sc_serving sc" and "event_impl (Subscribe e mode) sc = Ok (cbs, sc')"
  shows "step_correct (Subscribe e mode) sc cbs sc'"
proof (cases "\<exists>c. sc_client sc = Some c \<and> unat e < num_events_of (sc_configuration sc)")
  case False
  then show ?thesis using assms
    by (auto simp: step_correct_def event_abs_def on_client_def sc_receive_subscribe_event_def sc_serving_def sc_wf_def split: option.splits)
next
  case True
  then obtain c where c: "sc_client sc = Some c" and e: "unat e < num_events_of (sc_configuration sc)" by blast
  have len: "length (sc_subscriber sc) = num_events_of (sc_configuration sc)" "length (sc_event_infos sc) = num_events_of (sc_configuration sc)"
    using assms(1) by (simp_all add: sc_serving_def sc_wf_def)
  define r :: "((Error, unit) result \<times> 'p server_callback list) \<times> Server_connector" where "r = sc_receive_subscribe_event c e mode sc"
  have cbs: "cbs = snd (fst r)" and sc': "sc' = snd r" using assms(2) c by (auto simp: on_client_def r_def split: prod.splits)
  have sub: "sc_subscribed sc' = insert e (sc_subscribed sc)"
    by (rule subscribed_update [of e "sc_subscriber sc" _ c]) (use e len in \<open>simp_all add: sc' r_def sc_receive_subscribe_event_def Let_def\<close>)
  have frame: "sc_client sc' = sc_client sc" "sc_configuration sc' = sc_configuration sc" "sc_stop_block_token sc' = sc_stop_block_token sc"
    by (simp_all add: sc' r_def sc_receive_subscribe_event_def Let_def)
  have "sc_wf sc'" using sc_subscribe_wf [OF _ c, of e mode] assms(1) by (simp add: sc' r_def sc_serving_def)
  moreover have "e \<in> sc_subscribed sc \<longleftrightarrow> sc_subscriber sc ! unat e \<noteq> None" using e len by (simp add: sc_subscribed_def)
  then have "fold apply_callback cbs (sc_subscribed sc) = insert e (sc_subscribed sc) \<and> callbacks_ok cbs (sc_subscribed sc)"
    using e len by (auto simp: cbs r_def sc_receive_subscribe_event_def Let_def)
  ultimately show ?thesis using sub frame c e assms(1) by (simp add: step_correct_def event_abs_def sc_serving_def)
qed

lemma unsubscribe_correct:
  fixes cbs :: "'p server_callback list"
  assumes "sc_serving sc" and "event_impl (Unsubscribe e) sc = Ok (cbs, sc')"
  shows "step_correct (Unsubscribe e) sc cbs sc'"
proof (cases "\<exists>c. sc_client sc = Some c \<and> unat e < num_events_of (sc_configuration sc)")
  case False
  then show ?thesis using assms
    by (auto simp: step_correct_def event_abs_def on_client_def sc_receive_unsubscribe_event_def sc_serving_def sc_wf_def split: option.splits)
next
  case True
  then obtain c where c: "sc_client sc = Some c" and e: "unat e < num_events_of (sc_configuration sc)" by blast
  have len: "length (sc_subscriber sc) = num_events_of (sc_configuration sc)" "length (sc_event_infos sc) = num_events_of (sc_configuration sc)"
    using assms(1) by (simp_all add: sc_serving_def sc_wf_def)
  have "sc_unsubscribe_event e sc = (cbs, sc')"
    using assms(2) c e len by (auto simp: on_client_def sc_receive_unsubscribe_event_def split: prod.splits)
  from sc_unsubscribe_event_effect [OF this] show ?thesis
    using e len c assms(1) by (simp add: step_correct_def event_abs_def sc_serving_def)
qed

lemma request_correct:
  fixes cbs :: "'p server_callback list"
  assumes "sc_serving sc" and "event_impl (Request_update e) sc = Ok (cbs, sc')"
  shows "step_correct (Request_update e) sc cbs sc'"
proof (cases "sc_client sc")
  case None
  then show ?thesis using assms by (simp add: step_correct_def event_abs_def on_client_def)
next
  case (Some c)
  define r :: "((Error, unit) result \<times> 'p server_callback list) \<times> Server_connector" where "r = sc_receive_request_event_update c e sc"
  have cbs: "cbs = snd (fst r)" and sc': "sc' = snd r" using assms(2) Some by (auto simp: on_client_def r_def split: prod.splits)
  have "sc_wf sc'" using sc_request_update_wf [OF _ Some, of e] assms(1) by (simp add: sc' r_def sc_serving_def)
  moreover have "sc_subscriber sc' = sc_subscriber sc" "sc_client sc' = sc_client sc" "sc_configuration sc' = sc_configuration sc"
    "sc_stop_block_token sc' = sc_stop_block_token sc" "cbs = [] \<or> cbs = [On_event_update_request e]"
    by (auto simp: cbs sc' r_def sc_receive_request_event_update_def)
  ultimately show ?thesis using assms(1) by (auto simp: step_correct_def event_abs_def sc_serving_def sc_subscribed_def)
qed

lemma answer_correct:
  assumes "sc_serving sc"
  shows "step_correct (Answer_request e) sc [] (snd (sc_update_requested_event e sc))"
  using assms sc_update_requested_wf [of sc e]
  by (auto simp: step_correct_def event_abs_def sc_serving_def sc_subscribed_def sc_update_requested_event_def)

lemma disconnect_correct:
  assumes "sc_serving sc"
  shows "\<exists>(cbs :: 'p server_callback list) sc'. event_impl Disconnect sc = Ok (cbs, sc') \<and> step_correct Disconnect sc cbs sc'"
proof (cases "sc_client sc")
  case None
  then have "x = None" if "x \<in> set (sc_subscriber sc)" for x using assms that by (auto simp: sc_serving_def sc_wf_def)
  then have "sc_subscribed sc = {}" using nth_mem by (fastforce simp: sc_subscribed_def)
  then show ?thesis using None assms by (simp add: step_correct_def event_abs_def)
next
  case (Some c)
  obtain cbs :: "'p server_callback list" and sc' where r: "sc_remove_client sc = Ok (cbs, sc')"
    using Some by (fastforce simp: sc_remove_client_def split: prod.splits)
  have "sc_wf sc" using assms by (simp add: sc_serving_def)
  from sc_remove_client_effect [OF this r] show ?thesis
    using r Some assms by (auto simp: step_correct_def event_abs_def sc_serving_def sc_wf_def sc_subscribed_def)
qed

text \<open>A client connects to a server that has none.\<close>

fun op_enabled :: "event_op \<Rightarrow> bool \<Rightarrow> bool" where
  "op_enabled (Connect c) con = (\<not> con)"
| "op_enabled _ con = True"

lemma step_is_correct:
  assumes "sc_serving sc" and "op_enabled op (sc_client sc \<noteq> None)"
  shows "\<exists>(cbs :: 'p server_callback list) sc'. event_impl op sc = Ok (cbs, sc') \<and> step_correct op sc cbs sc'"
proof (cases op)
  case (Connect c)
  then show ?thesis using connect_correct [OF assms(1), of c] assms(2) by simp
next
  case (Subscribe e mode)
  obtain cbs :: "'p server_callback list" and sc' where "event_impl (Subscribe e mode) sc = Ok (cbs, sc')" by force
  then show ?thesis using subscribe_correct [OF assms(1)] Subscribe by blast
next
  case (Unsubscribe e)
  obtain cbs :: "'p server_callback list" and sc' where "event_impl (Unsubscribe e) sc = Ok (cbs, sc')" by force
  then show ?thesis using unsubscribe_correct [OF assms(1)] Unsubscribe by blast
next
  case (Request_update e)
  obtain cbs :: "'p server_callback list" and sc' where "event_impl (Request_update e) sc = Ok (cbs, sc')" by force
  then show ?thesis using request_correct [OF assms(1)] Request_update by blast
next
  case (Answer_request e)
  then show ?thesis using answer_correct [OF assms(1), of e] by auto
next
  case Disconnect
  then show ?thesis using disconnect_correct [OF assms(1)] by blast
qed

fun ops_enabled :: "event_op list \<Rightarrow> bool \<Rightarrow> bool" where
  "ops_enabled [] con = True"
| "ops_enabled (op # ops) con = (op_enabled op con \<and> ops_enabled ops (fst (event_spec 0 op (con, {}))))"

lemma event_spec_connected: "fst (event_spec n op (con, S)) = fst (event_spec 0 op (con, {}))"
  by (cases op) simp_all

text \<open>C25. The server connector refines the set of subscribed events. From an enabled connector, every
  sequence of connections, requests and disconnections of clients runs without a failing
  assertion, its effect on the set of subscribed events is the one of the specification, and
  the callbacks the provider receives describe it: replaying them gives the set, and each
  reports a change that really happens, so an event is never reported as subscribed twice in
  a row, and a disconnection reports every event that was still subscribed.\<close>

theorem callbacks_refine_subscriptions:
  assumes "sc_serving sc" and "ops_enabled ops (sc_client sc \<noteq> None)"
  shows "\<exists>(cbs :: 'p server_callback list) sc'. event_run ops sc = Ok (cbs, sc')
    \<and> event_abs sc' = fold (event_spec (num_events_of (sc_configuration sc))) ops (event_abs sc)
    \<and> fold apply_callback cbs (sc_subscribed sc) = sc_subscribed sc' \<and> callbacks_ok cbs (sc_subscribed sc)"
  using assms
proof (induction ops arbitrary: sc)
  case (Cons op ops)
  obtain c1 :: "'p server_callback list" and sc1 where 1: "event_impl op sc = Ok (c1, sc1)" and s: "step_correct op sc c1 sc1"
    using step_is_correct [OF Cons.prems(1), of op] Cons.prems(2) by auto
  have sv: "sc_serving sc1" using s by (simp add: step_correct_def)
  have "sc_client sc1 \<noteq> None \<longleftrightarrow> fst (event_spec 0 op (sc_client sc \<noteq> None, {}))"
    using s event_spec_connected [of "num_events_of (sc_configuration sc)" op "sc_client sc \<noteq> None" "sc_subscribed sc"]
    by (simp add: step_correct_def event_abs_def prod_eq_iff)
  then have "ops_enabled ops (sc_client sc1 \<noteq> None)" using Cons.prems(2) by simp
  from Cons.IH [OF sv this] obtain c2 :: "'p server_callback list" and sc2 where
    "event_run ops sc1 = Ok (c2, sc2)" "event_abs sc2 = fold (event_spec (num_events_of (sc_configuration sc1))) ops (event_abs sc1)"
    "fold apply_callback c2 (sc_subscribed sc1) = sc_subscribed sc2" "callbacks_ok c2 (sc_subscribed sc1)" by blast
  then show ?case using 1 s by (simp add: step_correct_def)
qed simp

definition demo_server :: Server_connector where
  "demo_server = (Server_connector_init (make_definition \<lparr>sii_id = ''radar'', sii_version = \<lparr>major = 1, minor = 2\<rparr>\<rparr> 0 3) ''front'' \<lparr>uid = 0, gid = 0\<rparr>)
     \<lparr>sc_registered := True, sc_stop_block_token := True\<rparr>"

theorem callbacks_refine_subscriptions_witness:
  "event_run [Connect 5, Subscribe 1 update, Subscribe 2 update, Disconnect] demo_server =
     Ok ([On_event_subscription_change 1 True, On_event_subscription_change 2 True,
          On_event_subscription_change 1 False, On_event_subscription_change 2 False :: nat server_callback], demo_server)
   \<and> callbacks_ok [On_event_subscription_change 1 True, On_event_subscription_change 2 True,
          On_event_subscription_change 1 False, On_event_subscription_change 2 False :: nat server_callback] (sc_subscribed demo_server)"
proof -
  have sv: "sc_serving demo_server" by code_simp
  have run: "event_run [Connect 5, Subscribe 1 update, Subscribe 2 update, Disconnect] demo_server =
     Ok ([On_event_subscription_change 1 True, On_event_subscription_change 2 True,
          On_event_subscription_change 1 False, On_event_subscription_change 2 False :: nat server_callback], demo_server)"
    by code_simp
  show ?thesis using callbacks_refine_subscriptions [OF sv, of "[Connect 5, Subscribe 1 update, Subscribe 2 update, Disconnect]", where ?'p = nat] run
    by (simp add: demo_server_def Server_connector_init_def)
qed

end
