(* ===== verification/Gateway_Config.thy ===== *)
theory Gateway_Config
  imports Ipc_Types
begin

text \<open>
  The configuration both daemons read (\<^verbatim>\<open>config/mw_someip_config.fbs\<close>) and the constants of
  \<^verbatim>\<open>someip/constants.h\<close>. A flatbuffers table is a record; a string, vector or table field that
  may be absent is an option, since its accessor then returns a null pointer. Fields the
  schema marks \<^verbatim>\<open>required\<close> are present, except where the code itself tests for null.
\<close>

type_synonym ServiceId = u16
type_synonym InstanceId = u16

definition kSomeipFullHeaderSize :: size_t where
  "kSomeipFullHeaderSize = 16"

definition kMaxMessageSize :: size_t where
  "kMaxMessageSize = 1500"

definition kAnyInstance :: InstanceId where
  "kAnyInstance = 0xFFFF"

definition kMaxSampleCount :: size_t where
  "kMaxSampleCount = 10"

definition kMaxIpcMessageSize :: size_t where
  "kMaxIpcMessageSize = 32768"

record NullSerializerConfig =
  max_message_size :: u32

datatype SerializationConfig = SerializationConfig_NONE | SerializationConfig_Null NullSerializerConfig

record Event_config =
  ev_event_id :: u16
  ev_event_name :: "string option"
  ev_serialization_config :: SerializationConfig
  ev_eventgroup_ids :: "u16 list option"

record Method_config =
  me_method_id :: u16
  me_method_name :: "string option"
  me_request_serialization_config :: SerializationConfig
  me_response_serialization_config :: SerializationConfig

record ServiceInstance =
  si_instance_specifier :: string
  si_instance_id :: u16

record ServiceType =
  st_service_type_name :: "string option"
  st_service_id :: u16
  st_service_version_major :: u8
  st_service_version_minor :: u32
  st_events :: "Event_config list option"
  st_methods :: "Method_config list option"
  st_local_service_instances :: "ServiceInstance list option"
  st_remote_service_instances :: "ServiceInstance list option"

record Root =
  service_types :: "ServiceType list option"

text \<open>\<^verbatim>\<open>x_as_NullSerializerConfig()\<close>: null unless the union holds that table.\<close>

fun as_NullSerializerConfig :: "SerializationConfig \<Rightarrow> NullSerializerConfig option" where
  "as_NullSerializerConfig SerializationConfig_NONE = None"
| "as_NullSerializerConfig (SerializationConfig_Null c) = Some c"

text \<open>Using the target of a pointer that may be null.\<close>

definition deref :: "'a option \<Rightarrow> 'a run" where
  "deref p = (case p of None \<Rightarrow> Err Null_deref | Some x \<Rightarrow> Ok x)"

lemma deref_simps [simp]: "deref (Some x) = Ok x" "deref None = Err Null_deref"
  by (simp_all add: deref_def)

lemma deref_Ok_iff [simp]: "deref p = Ok x \<longleftrightarrow> p = Some x"
  by (cases p) auto

text \<open>The SOCom identifiers of a service type. The minor version is cut to 16 bits, and the
  service name stands for the instance.\<close>

definition service_identifier :: "ServiceType \<Rightarrow> Service_interface_identifier run" where
  "service_identifier st =
    and_then (deref (st_service_type_name st)) (\<lambda>name.
      Ok \<lparr>sii_id = name, sii_version = \<lparr>major = ucast (st_service_version_major st), minor = ucast (st_service_version_minor st)\<rparr>\<rparr>)"

definition service_instance_name :: "ServiceType \<Rightarrow> string run" where
  "service_instance_name st = deref (st_service_type_name st)"

lemma service_identifier_Ok:
  "service_identifier st = Ok i \<Longrightarrow> st_service_type_name st = Some (sii_id i)"
  by (auto simp: service_identifier_def elim!: and_then_OkE)

end
