(* ===== verification/Byte_Memory.thy ===== *)
theory Byte_Memory
  imports Socom_Payload
begin

text \<open>
  The bytes behind the spans of the payloads: a memory maps addresses to bytes, \<^verbatim>\<open>memcpy\<close>
  writes a list of bytes at an address, and \<^verbatim>\<open>payload.wdata()[pos++] = b\<close>, which the
  gateway and the daemon build their message headers with, writes one byte inside a span. Leaving the
  span is a fault.
\<close>

type_synonym byte_memory = "size_t \<Rightarrow> u8"

definition memcpy :: "size_t \<Rightarrow> u8 list \<Rightarrow> byte_memory \<Rightarrow> byte_memory" where
  "memcpy dst bs mem = (\<lambda>x. if unat (x - dst) < length bs then bs ! unat (x - dst) else mem x)"

definition put_byte :: "span \<Rightarrow> u8 \<Rightarrow> size_t \<times> byte_memory \<Rightarrow> (size_t \<times> byte_memory) run" where
  "put_byte d b = (\<lambda>(pos, mem).
    if pos < span_size d then Ok (pos + 1, memcpy (span_data d + pos) [b] mem) else Err Out_of_bounds)"

definition put_bytes :: "span \<Rightarrow> u8 list \<Rightarrow> size_t \<times> byte_memory \<Rightarrow> (size_t \<times> byte_memory) run" where
  "put_bytes d bs = fold_run (put_byte d) bs"

text \<open>Two bytes, the high one first: \<^verbatim>\<open>static_cast<std::byte>(v >> 8)\<close> and \<^verbatim>\<open>static_cast<std::byte>(v & 0xFF)\<close>.\<close>

definition be16 :: "u16 \<Rightarrow> u8 list" where
  "be16 v = [ucast (drop_bit 8 v), ucast (and v 0xFF)]"

definition be32 :: "u32 \<Rightarrow> u8 list" where
  "be32 v = [ucast (and (drop_bit 24 v) 0xFF), ucast (and (drop_bit 16 v) 0xFF), ucast (and (drop_bit 8 v) 0xFF), ucast (and v 0xFF)]"

lemma length_be [simp]: "length (be16 v) = 2" "length (be32 w) = 4"
  by (simp_all add: be16_def be32_def)

lemma be16_value: "256 * unat (be16 v ! 0) + unat (be16 v ! 1) = unat v"
proof -
  have "unat (ucast (drop_bit 8 v) :: u8) = unat v div 256"
    using unsigned_less [of v, where ?'a = nat]
    by (simp add: unsigned_ucast_eq drop_bit_eq_div take_bit_eq_mod unat_div_distrib)
  moreover have "unat (ucast (and v 0xFF) :: u8) = unat v mod 256"
  proof -
    have "and v 0xFF = take_bit 8 v" by (simp add: take_bit_eq_mask mask_eq_exp_minus_1)
    then show ?thesis by (simp add: unsigned_ucast_eq take_bit_eq_mod unat_mod_distrib)
  qed
  ultimately show ?thesis by (simp add: be16_def)
qed

subsection \<open>Reading what was written\<close>

lemma length_span_bytes [simp]: "length (span_bytes mem s) = unat (span_size s)"
  by (simp add: span_bytes_def)

lemma unat_offset: "k < 2 ^ 64 \<Longrightarrow> unat (a + of_nat k - a :: size_t) = k"
  by (simp add: unat_of_nat_small)

lemma span_bytes_memcpy:
  assumes "length bs < 2 ^ 64" "k + unat n \<le> length bs"
  shows "span_bytes (memcpy a bs mem) \<lparr>span_data = a + of_nat k, span_size = n\<rparr> = take (unat n) (drop k bs)"
proof (rule nth_equalityI)
  show "length (span_bytes (memcpy a bs mem) \<lparr>span_data = a + of_nat k, span_size = n\<rparr>) = length (take (unat n) (drop k bs))"
    using assms by simp
  fix i
  assume "i < length (span_bytes (memcpy a bs mem) \<lparr>span_data = a + of_nat k, span_size = n\<rparr>)"
  then have i: "i < unat n" by simp
  then have "unat (a + of_nat (k + i) - a :: size_t) = k + i" using assms by (intro unat_offset) simp
  then have "memcpy a bs mem (a + of_nat (k + i)) = bs ! (k + i)"
    using i assms by (simp only: memcpy_def) simp
  then show "span_bytes (memcpy a bs mem) \<lparr>span_data = a + of_nat k, span_size = n\<rparr> ! i = take (unat n) (drop k bs) ! i"
    using i assms by (simp add: span_bytes_def add.assoc)
qed

lemma memcpy_append:
  assumes "length xs + length ys < 2 ^ 64"
  shows "memcpy (a + of_nat (length xs)) ys (memcpy a xs mem) = memcpy a (xs @ ys) mem"
proof
  fix x
  let ?l = "of_nat (length xs) :: size_t"
  have l: "unat ?l = length xs" using assms by (intro unat_of_nat_small) simp
  show "memcpy (a + ?l) ys (memcpy a xs mem) x = memcpy a (xs @ ys) mem x"
  proof (cases "unat (x - a) < length xs")
    case True
    then have "x - a < ?l" using l by (simp add: word_less_nat_alt)
    then have "unat (x - a - ?l) = 2 ^ 64 + unat (x - a) - length xs"
      using l by (simp add: unat_sub_if_size word_size word_le_nat_alt word_less_nat_alt)
    then have "\<not> unat (x - (a + ?l)) < length ys" using assms True by (simp add: diff_diff_eq)
    then show ?thesis using True by (simp add: memcpy_def nth_append)
  next
    case False
    then have "?l \<le> x - a" using l by (simp add: word_le_nat_alt)
    then have "unat (x - (a + ?l)) = unat (x - a) - length xs" using l by (simp add: unat_sub flip: diff_diff_eq)
    then show ?thesis using False by (simp add: memcpy_def nth_append) (use False in linarith)
  qed
qed

lemma memcpy_Nil [simp]: "memcpy a [] mem = mem"
  by (simp add: memcpy_def)

text \<open>Bytes that are skipped keep their value.\<close>

lemma memcpy_same:
  assumes "\<And>i. i < length bs \<Longrightarrow> bs ! i = mem (a + of_nat i)"
  shows "memcpy a bs mem = mem"
  using assms by (auto simp: memcpy_def)

lemma memcpy_skip:
  fixes a :: size_t and mem :: byte_memory
  assumes "length xs + length ys + k < 2 ^ 64"
  defines "old \<equiv> map (\<lambda>i. mem (a + of_nat (length xs + i))) [0..<k]"
  shows "memcpy (a + of_nat (length xs + k)) ys (memcpy a xs mem) = memcpy a (xs @ old @ ys) mem"
proof -
  let ?m = "memcpy a xs mem"
  have len: "length old = k" by (simp add: old_def)
  have "memcpy (a + of_nat (length xs)) old ?m = ?m"
  proof (rule memcpy_same)
    fix i
    assume i: "i < length old"
    then have "unat (a + of_nat (length xs + i) - a :: size_t) = length xs + i"
      using assms len by (intro unat_offset) simp
    then have "?m (a + of_nat (length xs + i)) = mem (a + of_nat (length xs + i))" by (simp only: memcpy_def) simp
    then show "old ! i = ?m (a + of_nat (length xs) + of_nat i)" using i by (simp add: old_def add.assoc)
  qed
  then have "?m = memcpy a (xs @ old) mem" using memcpy_append [of xs old a mem] assms(1) len by simp
  then show ?thesis using memcpy_append [of "xs @ old" ys a mem] assms(1) len by simp
qed

text \<open>Inside the span the bytes land one after the other.\<close>

lemma put_bytes_Ok:
  assumes "unat pos + length bs \<le> unat (span_size d)"
  shows "put_bytes d bs (pos, mem) = Ok (pos + of_nat (length bs), memcpy (span_data d + pos) bs mem)"
  using assms
proof (induction bs arbitrary: pos mem)
  case Nil
  then show ?case by (simp add: put_bytes_def)
next
  case (Cons b bs)
  have bound: "unat (span_size d) < 2 ^ 64" using unsigned_less [of "span_size d", where ?'a = nat] by simp
  have p: "unat (pos + 1) = unat pos + 1" using Cons.prems bound by (simp add: unat_word_ariths)
  have "pos < span_size d" using Cons.prems by (simp add: word_less_nat_alt)
  then have "put_bytes d (b # bs) (pos, mem) = put_bytes d bs (pos + 1, memcpy (span_data d + pos) [b] mem)"
    by (simp add: put_bytes_def put_byte_def)
  also have "\<dots> = Ok (pos + 1 + of_nat (length bs), memcpy (span_data d + (pos + 1)) bs (memcpy (span_data d + pos) [b] mem))"
    using Cons.prems p by (intro Cons.IH) simp
  also have "memcpy (span_data d + (pos + 1)) bs (memcpy (span_data d + pos) [b] mem) = memcpy (span_data d + pos) (b # bs) mem"
    using memcpy_append [of "[b]" bs "span_data d + pos" mem] Cons.prems bound by (simp add: add.assoc)
  finally show ?case by (simp add: add.assoc)
qed

text \<open>Beyond it they do not.\<close>

lemma put_bytes_Err:
  assumes "unat pos \<le> unat (span_size d)" "unat (span_size d) < unat pos + length bs"
  shows "put_bytes d bs (pos, mem) = Err Out_of_bounds"
  using assms
proof (induction bs arbitrary: pos mem)
  case Nil
  then show ?case by simp
next
  case (Cons b bs)
  show ?case
  proof (cases "pos < span_size d")
    case True
    then have "unat (pos + 1) = unat pos + 1"
      using unsigned_less [of "span_size d", where ?'a = nat] by (simp add: word_less_nat_alt unat_word_ariths)
    then show ?thesis using True Cons.IH [of "pos + 1"] Cons.prems
      by (simp add: put_bytes_def put_byte_def word_less_nat_alt)
  qed (simp add: put_bytes_def put_byte_def)
qed

end
