(* ===== verification/Null_Serializer.thy ===== *)
theory Null_Serializer
  imports Gateway_Config Byte_Memory C_Layout
begin

text \<open>
  The serializer plugin (\<^verbatim>\<open>serializer/serializer.h\<close>, \<^verbatim>\<open>serializer/null_serializer.cpp\<close>,
  \<^verbatim>\<open>serializer/pre_serialized_data.h\<close>), which copies messages that are serialized already.

  A serializer handle points into the configuration, so it is the configuration it points to;
  a null pointer is \<open>None\<close>. A pointer with a size that denotes text is the string it denotes. The bytes of a
  \<^verbatim>\<open>PreSerializedData\<close> object are the list \<open>psd_data\<close>, whose length is the room the object has;
  copying more than that is a fault. The static \<^verbatim>\<open>config\<close> is a \<open>Root option\<close>. The file of
  \<open>score_com_serializer_init\<close> and the generated accessor \<^verbatim>\<open>GetRoot\<close> are arguments.
\<close>

datatype score_com_serializer_result =
    serializer_result_ok
  | serializer_result_general_failure
  | serializer_result_serializer_nonexistent
  | serializer_result_serialization_failure
  | serializer_result_deserialization_failure

datatype score_com_serializer_element_type =
    element_type_event
  | element_type_field
  | element_type_method_call
  | element_type_method_response

type_synonym score_com_serializer = NullSerializerConfig

record PreSerializedData =
  psd_size :: size_t
  psd_data :: "u8 list"

text \<open>\<^verbatim>\<open>alignof(PreSerializedData<0>)\<close> is the one of \<^verbatim>\<open>std::max_align_t\<close>; \<^verbatim>\<open>size\<close> and its padding fill
  one such unit.\<close>

definition alignof_PreSerializedDataView :: size_t where
  "alignof_PreSerializedDataView = 16"

definition sizeof_PreSerializedDataView :: size_t where
  "sizeof_PreSerializedDataView = 16"

definition get_size_of_pre_serialized_data :: "size_t \<Rightarrow> size_t" where
  "get_size_of_pre_serialized_data maxMessageSize =
    (let sizeof_data = ((maxMessageSize + alignof_PreSerializedDataView - 1) div alignof_PreSerializedDataView)
                        * alignof_PreSerializedDataView in
     sizeof_PreSerializedDataView + sizeof_data)"

definition score_com_serializer_serialize ::
    "score_com_serializer option \<Rightarrow> size_t option \<Rightarrow> size_t \<Rightarrow> PreSerializedData option \<Rightarrow> bool \<Rightarrow> byte_memory
      \<Rightarrow> (score_com_serializer_result \<times> size_t option \<times> byte_memory) run" where
  "score_com_serializer_serialize serializer buffer buffer_size object has_written_bytes mem =
    (case (buffer, object) of
       (Some b, Some pre_serialized_data) \<Rightarrow>
         let message_size = psd_size pre_serialized_data in
         if message_size > buffer_size then Ok (serializer_result_serialization_failure, None, mem)
         else if unat message_size > length (psd_data pre_serialized_data) then Err Out_of_bounds
         else Ok (serializer_result_ok, if has_written_bytes then Some message_size else None,
                  memcpy b (take (unat message_size) (psd_data pre_serialized_data)) mem)
     | _ \<Rightarrow> Ok (serializer_result_general_failure, None, mem))"

definition score_com_serializer_deserialize ::
    "score_com_serializer option \<Rightarrow> size_t option \<Rightarrow> size_t \<Rightarrow> PreSerializedData option \<Rightarrow> byte_memory
      \<Rightarrow> (score_com_serializer_result \<times> PreSerializedData option) run" where
  "score_com_serializer_deserialize serializer buffer buffer_size object mem =
    (case (serializer, buffer, object) of
       (Some cfg, Some b, Some pre_serialized_data) \<Rightarrow>
         if buffer_size > ucast (max_message_size cfg) then Ok (serializer_result_deserialization_failure, object)
         else if unat buffer_size > length (psd_data pre_serialized_data) then Err Out_of_bounds
         else Ok (serializer_result_ok,
                  Some \<lparr>psd_size = buffer_size,
                        psd_data = span_bytes mem \<lparr>span_data = b, span_size = buffer_size\<rparr>
                                    @ drop (unat buffer_size) (psd_data pre_serialized_data)\<rparr>)
     | _ \<Rightarrow> Ok (serializer_result_general_failure, object))"

definition score_com_serializer_get_max_serialized_size :: "score_com_serializer option \<Rightarrow> size_t" where
  "score_com_serializer_get_max_serialized_size serializer =
    (case serializer of None \<Rightarrow> 0 | Some cfg \<Rightarrow> ucast (max_message_size cfg))"

definition score_com_serializer_get_sizeof_type :: "score_com_serializer option \<Rightarrow> size_t" where
  "score_com_serializer_get_sizeof_type serializer =
    (case serializer of None \<Rightarrow> 0 | Some cfg \<Rightarrow> get_size_of_pre_serialized_data (ucast (max_message_size cfg)))"

definition score_com_serializer_get_alignof_type :: "score_com_serializer option \<Rightarrow> size_t" where
  "score_com_serializer_get_alignof_type serializer = alignof_PreSerializedDataView"

text \<open>\<open>open_file\<close> answers with what \<^verbatim>\<open>tellg\<close> reports at the end of the file and the buffer that is
  read; it is \<open>None\<close> for a file that cannot be opened.\<close>

definition score_com_serializer_init ::
    "(string \<Rightarrow> (int \<times> 'b) option) \<Rightarrow> ('b \<Rightarrow> Root) \<Rightarrow> string \<Rightarrow> Root option \<Rightarrow> score_com_serializer_result \<times> Root option" where
  "score_com_serializer_init open_file GetRoot serializer_id config =
    (case open_file serializer_id of
       None \<Rightarrow> (serializer_result_serializer_nonexistent, config)
     | Some (len, buf) \<Rightarrow>
         if len \<le> 0 then (serializer_result_serializer_nonexistent, config)
         else (serializer_result_ok, Some (GetRoot buf)))"

definition score_com_serializer_deinit :: "Root option \<Rightarrow> score_com_serializer_result \<times> Root option" where
  "score_com_serializer_deinit config = (serializer_result_ok, None)"

fun find_event_serializer :: "string \<Rightarrow> Event_config list \<Rightarrow> NullSerializerConfig option" where
  "find_event_serializer element_name [] = None"
| "find_event_serializer element_name (e # es) =
    (if ev_event_name e = Some element_name then as_NullSerializerConfig (ev_serialization_config e)
     else find_event_serializer element_name es)"

fun find_method_serializer :: "(Method_config \<Rightarrow> SerializationConfig) \<Rightarrow> string \<Rightarrow> Method_config list \<Rightarrow> NullSerializerConfig option" where
  "find_method_serializer part element_name [] = None"
| "find_method_serializer part element_name (m # ms) =
    (if me_method_name m = Some element_name then as_NullSerializerConfig (part m)
     else find_method_serializer part element_name ms)"

fun lookup_service_types ::
    "string \<Rightarrow> score_com_serializer_element_type \<Rightarrow> string \<Rightarrow> ServiceType list \<Rightarrow> NullSerializerConfig option" where
  "lookup_service_types service_type_name element_type element_name [] = None"
| "lookup_service_types service_type_name element_type element_name (st # sts) =
    (if st_service_type_name st \<noteq> Some service_type_name
     then lookup_service_types service_type_name element_type element_name sts
     else (case element_type of
             element_type_event \<Rightarrow> Option.bind (st_events st) (find_event_serializer element_name)
           | element_type_method_call \<Rightarrow>
               Option.bind (st_methods st) (find_method_serializer me_request_serialization_config element_name)
           | element_type_method_response \<Rightarrow>
               Option.bind (st_methods st) (find_method_serializer me_response_serialization_config element_name)
           | element_type_field \<Rightarrow> None))"

definition lookup_serialization_config ::
    "Root option \<Rightarrow> string \<Rightarrow> score_com_serializer_element_type \<Rightarrow> string \<Rightarrow> NullSerializerConfig option" where
  "lookup_serialization_config config service_type_name element_type element_name =
    (case config of
       None \<Rightarrow> None
     | Some root \<Rightarrow> Option.bind (service_types root) (lookup_service_types service_type_name element_type element_name))"

text \<open>\<open>has_out\<close> says whether the caller passed a place for the handle.\<close>

definition score_com_serializer_get ::
    "Root option \<Rightarrow> string \<Rightarrow> score_com_serializer_element_type \<Rightarrow> string \<Rightarrow> bool
      \<Rightarrow> score_com_serializer_result \<times> score_com_serializer option" where
  "score_com_serializer_get config service_type element_type element_name has_out =
    (if \<not> has_out then (serializer_result_general_failure, None)
     else (case lookup_serialization_config config service_type element_type element_name of
             None \<Rightarrow> (serializer_result_serializer_nonexistent, None)
           | Some c \<Rightarrow> (serializer_result_ok, Some c)))"

subsection \<open>Object sizes\<close>

lemma unat_ucast_32: "unat (ucast (m :: u32) :: size_t) = unat m"
  using unsigned_less [of m, where ?'a = nat] by (simp add: unsigned_ucast_eq take_bit_eq_mod)

text \<open>The size the plugin reports for the application type is the one the compiler gives
  \<^verbatim>\<open>PreSerializedData<N>\<close> for the configured \<open>N\<close>: the size word, padding up to the aligned data, the
  data, padding at the end; computed without overflow, and with room for the whole message.\<close>

lemma sizeof_type_is_layout:
  "unat (score_com_serializer_get_sizeof_type (Some cfg))
      = align_up (align_up (csize (CInt 8)) 16 + unat (max_message_size cfg)) 16
    \<and> unat (max_message_size cfg) + 16 \<le> unat (score_com_serializer_get_sizeof_type (Some cfg))"
proof -
  let ?n = "unat (max_message_size cfg)"
  have n: "?n < 2 ^ 32" using unsigned_less [of "max_message_size cfg", where ?'a = nat] by simp
  have "unat (ucast (max_message_size cfg) + 15 :: size_t) = ?n + 15"
    using n by (simp add: unat_word_ariths unat_ucast_32)
  then have "unat ((ucast (max_message_size cfg) + 15 :: size_t) div 16) = (?n + 15) div 16"
    by (simp add: unat_div_distrib)
  then have "unat (((ucast (max_message_size cfg) + 15 :: size_t) div 16) * 16) = (?n + 15) div 16 * 16"
    using n by (simp add: unat_word_ariths)
  then have "unat (16 + ((ucast (max_message_size cfg) + 15 :: size_t) div 16) * 16) = 16 + (?n + 15) div 16 * 16"
    using n by (simp add: unat_word_ariths)
  then have size: "unat (score_com_serializer_get_sizeof_type (Some cfg)) = 16 + (?n + 15) div 16 * 16"
    by (simp add: score_com_serializer_get_sizeof_type_def get_size_of_pre_serialized_data_def
        alignof_PreSerializedDataView_def sizeof_PreSerializedDataView_def add.commute)
  moreover have "?n \<le> (?n + 15) div 16 * 16" by presburger
  moreover have "(31 + ?n) div 16 = 1 + (?n + 15) div 16" by presburger
  ultimately show ?thesis by (simp add: align_up_def)
qed

subsection \<open>Copying\<close>

lemma serialize_ok:
  assumes "psd_size obj \<le> n" "unat (psd_size obj) \<le> length (psd_data obj)"
  shows "score_com_serializer_serialize ser (Some b) n (Some obj) True mem
    = Ok (serializer_result_ok, Some (psd_size obj), memcpy b (take (unat (psd_size obj)) (psd_data obj)) mem)"
  using assms by (simp add: score_com_serializer_serialize_def not_less Let_def)

lemma deserialize_ok:
  assumes "n \<le> ucast (max_message_size cfg)" "unat (max_message_size cfg) \<le> length (psd_data obj)"
  shows "score_com_serializer_deserialize (Some cfg) (Some b) n (Some obj) mem
    = Ok (serializer_result_ok, Some \<lparr>psd_size = n,
        psd_data = span_bytes mem \<lparr>span_data = b, span_size = n\<rparr> @ drop (unat n) (psd_data obj)\<rparr>)"
proof -
  have "unat n \<le> unat (max_message_size cfg)" using assms(1) by (simp add: word_le_nat_alt unat_ucast_32)
  then show ?thesis using assms by (simp add: score_com_serializer_deserialize_def not_less)
qed

text \<open>
  What the daemons rely on, for any plugin: an object with room takes every message up to a limit, and gives
  its message back byte by byte. \<open>message\<close> is the message an object holds.
\<close>

locale message_serializer =
  fixes serialize :: "size_t \<Rightarrow> size_t \<Rightarrow> 'o \<Rightarrow> byte_memory \<Rightarrow> (score_com_serializer_result \<times> size_t option \<times> byte_memory) run"
    and deserialize :: "size_t \<Rightarrow> size_t \<Rightarrow> 'o \<Rightarrow> byte_memory \<Rightarrow> (score_com_serializer_result \<times> 'o option) run"
    and message :: "'o \<Rightarrow> u8 list" and has_room :: "'o \<Rightarrow> bool" and limit :: nat
  assumes message_small: "has_room obj \<Longrightarrow> length (message obj) < 2 ^ 64"
    and serialize_law: "has_room obj \<Longrightarrow> length (message obj) \<le> unat n \<Longrightarrow>
      serialize b n obj mem = Ok (serializer_result_ok, Some (of_nat (length (message obj))), memcpy b (message obj) mem)"
    and deserialize_law: "has_room obj \<Longrightarrow> unat n \<le> limit \<Longrightarrow>
      \<exists>obj'. deserialize b n obj mem = Ok (serializer_result_ok, Some obj') \<and> has_room obj'
        \<and> message obj' = span_bytes mem \<lparr>span_data = b, span_size = n\<rparr>"
begin

text \<open>An object written to memory and read into another object arrives there.\<close>

lemma transfer:
  assumes "has_room obj" "has_room obj2" "length (message obj) \<le> unat n" "length (message obj) \<le> limit"
  shows "\<exists>w mem' obj'. serialize b n obj mem = Ok (serializer_result_ok, Some w, mem')
    \<and> deserialize b w obj2 mem' = Ok (serializer_result_ok, Some obj') \<and> message obj' = message obj"
proof -
  let ?w = "of_nat (length (message obj)) :: size_t" and ?mem = "memcpy b (message obj) mem"
  have w: "unat ?w = length (message obj)" using message_small [OF assms(1)] by (simp add: unat_of_nat_small)
  have "span_bytes ?mem \<lparr>span_data = b, span_size = ?w\<rparr> = message obj"
    using span_bytes_memcpy [of "message obj" 0 ?w b mem] message_small [OF assms(1)] w by simp
  then show ?thesis
    using serialize_law [OF assms(1,3), of b mem] deserialize_law [OF assms(2), of ?w b ?mem] assms(4) w by auto
qed

text \<open>A message in memory that is read and written again is unchanged.\<close>

lemma copy:
  assumes "has_room obj" "unat n \<le> limit" "unat n \<le> unat m"
  shows "\<exists>obj' mem2. deserialize b n obj mem = Ok (serializer_result_ok, Some obj')
    \<and> serialize b' m obj' mem' = Ok (serializer_result_ok, Some n, mem2)
    \<and> span_bytes mem2 \<lparr>span_data = b', span_size = n\<rparr> = span_bytes mem \<lparr>span_data = b, span_size = n\<rparr>"
proof -
  obtain obj' where obj': "deserialize b n obj mem = Ok (serializer_result_ok, Some obj')" "has_room obj'"
    "message obj' = span_bytes mem \<lparr>span_data = b, span_size = n\<rparr>"
    using deserialize_law [OF assms(1,2)] by blast
  then have len: "length (message obj') = unat n" by simp
  then have n: "of_nat (length (message obj')) = n" by (simp only: of_nat_unat ucast_id)
  have "span_bytes (memcpy b' (message obj') mem') \<lparr>span_data = b', span_size = n\<rparr> = message obj'"
    using span_bytes_memcpy [of "message obj'" 0 n b' mem'] message_small [OF obj'(2)] len by simp
  then show ?thesis using obj' serialize_law [OF obj'(2), of m b' mem'] assms(3) len n by auto
qed

end

definition psd_message :: "PreSerializedData \<Rightarrow> u8 list" where
  "psd_message obj = take (unat (psd_size obj)) (psd_data obj)"

definition psd_room :: "NullSerializerConfig \<Rightarrow> PreSerializedData \<Rightarrow> bool" where
  "psd_room cfg obj \<longleftrightarrow> unat (psd_size obj) \<le> length (psd_data obj) \<and> unat (max_message_size cfg) \<le> length (psd_data obj)"

interpretation null_plugin: message_serializer
  "\<lambda>b n obj. score_com_serializer_serialize (Some cfg) (Some b) n (Some obj) True"
  "\<lambda>b n obj. score_com_serializer_deserialize (Some cfg) (Some b) n (Some obj)"
  psd_message "psd_room cfg" "unat (max_message_size cfg)"
  for cfg
proof unfold_locales
  fix obj :: PreSerializedData and n b :: size_t and mem :: byte_memory
  assume room: "psd_room cfg obj"
  then have len: "length (psd_message obj) = unat (psd_size obj)" by (simp add: psd_room_def psd_message_def)
  then show "length (psd_message obj) < 2 ^ 64" using unsigned_less [of "psd_size obj", where ?'a = nat] by simp
  have size: "(of_nat (length (psd_message obj)) :: size_t) = psd_size obj" by (simp only: len of_nat_unat ucast_id)
  show "score_com_serializer_serialize (Some cfg) (Some b) n (Some obj) True mem
      = Ok (serializer_result_ok, Some (of_nat (length (psd_message obj))), memcpy b (psd_message obj) mem)"
    if "length (psd_message obj) \<le> unat n"
    using serialize_ok [of obj n "Some cfg" b mem] that room size len
    by (simp add: psd_room_def word_le_nat_alt) (simp add: psd_message_def)
  show "\<exists>obj'. score_com_serializer_deserialize (Some cfg) (Some b) n (Some obj) mem = Ok (serializer_result_ok, Some obj')
      \<and> psd_room cfg obj' \<and> psd_message obj' = span_bytes mem \<lparr>span_data = b, span_size = n\<rparr>"
    if "unat n \<le> unat (max_message_size cfg)"
    using deserialize_ok [of n cfg obj b mem] that room
    by (simp add: psd_room_def psd_message_def word_le_nat_alt unat_ucast_32)
qed

text \<open>What is deserialized into an application object and serialized again is the same message,
  its length is reported, and no byte outside the message changes; a message above the configured
  size is refused and leaves the object alone.\<close>

theorem serializer_roundtrip:
  assumes room: "unat (max_message_size cfg) \<le> length (psd_data obj)"
  shows "if n \<le> ucast (max_message_size cfg)
    then \<exists>obj'. score_com_serializer_deserialize (Some cfg) (Some b) n (Some obj) mem = Ok (serializer_result_ok, Some obj')
      \<and> length (psd_data obj') = length (psd_data obj)
      \<and> (\<forall>m b' mem'. if n \<le> m
           then \<exists>mem2. score_com_serializer_serialize ser (Some b') m (Some obj') True mem' = Ok (serializer_result_ok, Some n, mem2)
             \<and> span_bytes mem2 \<lparr>span_data = b', span_size = n\<rparr> = span_bytes mem \<lparr>span_data = b, span_size = n\<rparr>
             \<and> (\<forall>x. n \<le> x - b' \<longrightarrow> mem2 x = mem' x)
           else score_com_serializer_serialize ser (Some b') m (Some obj') True mem'
             = Ok (serializer_result_serialization_failure, None, mem'))
    else score_com_serializer_deserialize (Some cfg) (Some b) n (Some obj) mem
      = Ok (serializer_result_deserialization_failure, Some obj)"
proof (cases "n \<le> ucast (max_message_size cfg)")
  case False
  then show ?thesis by (simp add: score_com_serializer_deserialize_def)
next
  case True
  let ?bs = "span_bytes mem \<lparr>span_data = b, span_size = n\<rparr>"
  let ?obj = "\<lparr>psd_size = n, psd_data = ?bs @ drop (unat n) (psd_data obj)\<rparr>"
  have le: "unat n \<le> unat (max_message_size cfg)" using True by (simp add: word_le_nat_alt unat_ucast_32)
  have small: "unat n < 2 ^ 64" using unsigned_less [of n, where ?'a = nat] by simp
  have len: "length (psd_data ?obj) = length (psd_data obj)" using le room by simp
  have "if n \<le> m
      then \<exists>mem2. score_com_serializer_serialize ser (Some b') m (Some ?obj) True mem' = Ok (serializer_result_ok, Some n, mem2)
        \<and> span_bytes mem2 \<lparr>span_data = b', span_size = n\<rparr> = ?bs \<and> (\<forall>x. n \<le> x - b' \<longrightarrow> mem2 x = mem' x)
      else score_com_serializer_serialize ser (Some b') m (Some ?obj) True mem'
        = Ok (serializer_result_serialization_failure, None, mem')" for m b' mem'
  proof (cases "n \<le> m")
    case n: True
    have "score_com_serializer_serialize ser (Some b') m (Some ?obj) True mem' = Ok (serializer_result_ok, Some n, memcpy b' ?bs mem')"
      using serialize_ok [of ?obj m ser b' mem'] n by simp
    moreover have "span_bytes (memcpy b' ?bs mem') \<lparr>span_data = b', span_size = n\<rparr> = ?bs"
      using span_bytes_memcpy [of ?bs 0 n b' mem'] small by simp
    moreover have "memcpy b' ?bs mem' x = mem' x" if "n \<le> x - b'" for x
      using that by (simp add: memcpy_def word_le_nat_alt)
    ultimately show ?thesis using n by simp
  qed (simp add: score_com_serializer_serialize_def Let_def)
  then show ?thesis using True deserialize_ok [OF True room] len by simp
qed

theorem serializer_roundtrip_witness:
  "\<exists>obj' mem2. score_com_serializer_deserialize (Some \<lparr>max_message_size = 4\<rparr>) (Some 100) 2
       (Some \<lparr>psd_size = 0, psd_data = [0, 0, 0, 0]\<rparr>) (memcpy 100 [7, 9] (\<lambda>_. 0)) = Ok (serializer_result_ok, Some obj')
     \<and> score_com_serializer_serialize None (Some 200) 2 (Some obj') True (\<lambda>_. 0) = Ok (serializer_result_ok, Some 2, mem2)
     \<and> span_bytes mem2 \<lparr>span_data = 200, span_size = 2\<rparr> = [7, 9]"
proof -
  let ?cfg = "\<lparr>max_message_size = 4\<rparr>" and ?obj = "\<lparr>psd_size = 0, psd_data = [0, 0, 0, 0]\<rparr>"
    and ?mem = "memcpy 100 [7, 9] (\<lambda>_. 0)"
  have "unat (max_message_size ?cfg) \<le> length (psd_data ?obj)" by simp
  note rt = serializer_roundtrip [OF this, of 2 100 ?mem None]
  have "(2 :: size_t) \<le> ucast (max_message_size ?cfg)" by simp
  then obtain obj' where
    "score_com_serializer_deserialize (Some ?cfg) (Some 100) 2 (Some ?obj) ?mem = Ok (serializer_result_ok, Some obj')"
    and again: "\<And>m b' mem'. 2 \<le> m \<Longrightarrow> \<exists>mem2. score_com_serializer_serialize None (Some b') m (Some obj') True mem' = Ok (serializer_result_ok, Some 2, mem2)
             \<and> span_bytes mem2 \<lparr>span_data = b', span_size = 2\<rparr> = span_bytes ?mem \<lparr>span_data = 100, span_size = 2\<rparr>"
    using rt by (simp only: if_True) meson
  moreover have "span_bytes ?mem \<lparr>span_data = 100, span_size = 2\<rparr> = [7, 9]"
    using span_bytes_memcpy [of "[7, 9]" 0 2 100 "\<lambda>_. 0"] by simp
  ultimately show ?thesis using again [of 2 200 "\<lambda>_. 0"] by auto
qed

end
