(* ===== verification/Gatewayd.thy ===== *)
theory Gatewayd
  imports Null_Serializer Socom_Runtime Shm_Factory
begin

text \<open>
  The gateway daemon (\<^verbatim>\<open>gatewayd/main.cpp\<close>, \<^verbatim>\<open>gatewayd/impl/local_service_instance.cpp\<close>,
  \<^verbatim>\<open>gatewayd/impl/remote_service_instance.cpp\<close>): services of local applications are provided to
  SOCom and their samples turned into SOME/IP messages; services of the network are consumed
  from SOCom and their messages turned into samples.

  What \<^verbatim>\<open>mw::com\<close> answers is an argument: the events a proxy or skeleton has (their names), the
  samples it hands out, whether offering or creating succeeds. What is asked of it is part of the
  result. The memory of the payloads is passed explicitly, and the allocation callback of the subscribed
  client, which chooses a payload, is the argument \<open>answer\<close>. A payload that is dropped runs its callback,
  which is returned.
\<close>

subsection \<open>Options and configuration file of the daemons\<close>

datatype getopt_result = Opt_help | Opt_configuration string | Opt_manifest string | Opt_unknown

text \<open>Exit code, or the configuration and the manifest path.\<close>

fun parse_options :: "getopt_result list \<Rightarrow> string \<Rightarrow> string \<Rightarrow> nat + string \<times> string" where
  "parse_options [] configuration_path manifest_path = Ok (configuration_path, manifest_path)"
| "parse_options (Opt_help # opts) configuration_path manifest_path = Err 0"
| "parse_options (Opt_configuration p # opts) configuration_path manifest_path = parse_options opts p manifest_path"
| "parse_options (Opt_manifest p # opts) configuration_path manifest_path = parse_options opts configuration_path p"
| "parse_options (Opt_unknown # opts) configuration_path manifest_path = Err 1"

text \<open>Up to the initialised serializer; the result is an exit code or the configuration.\<close>

definition gatewayd_start ::
    "(string \<Rightarrow> (int \<times> 'b) option) \<Rightarrow> ('b \<Rightarrow> Root) \<Rightarrow> getopt_result list \<Rightarrow> Root option \<Rightarrow> (nat + Root) \<times> Root option" where
  "gatewayd_start open_file GetRoot opts plugin =
    (case parse_options opts [] [] of
       Err code \<Rightarrow> (Err code, plugin)
     | Ok (configuration_path, manifest_path) \<Rightarrow>
         if configuration_path = [] \<or> manifest_path = [] then (Err 1, plugin)
         else (case open_file configuration_path of
             None \<Rightarrow> (Err 1, plugin)
           | Some (len, buf) \<Rightarrow>
               if len \<le> 0 then (Err 1, plugin)
               else let (r, plugin') = score_com_serializer_init open_file GetRoot configuration_path plugin in
                 if r \<noteq> serializer_result_ok then (Err 1, plugin') else (Ok (GetRoot buf), plugin')))"

subsection \<open>Shared memory configuration\<close>

fun event_slot_loop :: "Root option \<Rightarrow> string \<Rightarrow> Event_config list \<Rightarrow> size_t \<Rightarrow> size_t run" where
  "event_slot_loop plugin service_type_name [] largest = Ok (largest + kSomeipFullHeaderSize)"
| "event_slot_loop plugin service_type_name (e # es) largest =
    and_then (deref (ev_event_name e)) (\<lambda>event_name.
      let (r, serializer) = score_com_serializer_get plugin service_type_name element_type_event event_name True in
      if r \<noteq> serializer_result_ok then Ok kMaxMessageSize
      else let max_serialized_size = score_com_serializer_get_max_serialized_size serializer in
        if max_serialized_size = 0 then Ok kMaxMessageSize
        else event_slot_loop plugin service_type_name es (max largest max_serialized_size))"

definition event_slot_size :: "Root option \<Rightarrow> ServiceType \<Rightarrow> size_t run" where
  "event_slot_size plugin st =
    (case st_events st of
       None \<Rightarrow> Ok kMaxMessageSize
     | Some [] \<Rightarrow> Ok kMaxMessageSize
     | Some events \<Rightarrow> and_then (deref (st_service_type_name st)) (\<lambda>name. event_slot_loop plugin name events 0))"

text \<open>One round of the loop that fills \<^verbatim>\<open>shm_config\<close> and \<^verbatim>\<open>server_shm_config\<close>.\<close>

definition shm_config_step ::
    "Root option \<Rightarrow> ServiceType \<Rightarrow> Shared_memory_configuration \<times> Shared_memory_configuration
      \<Rightarrow> (Shared_memory_configuration \<times> Shared_memory_configuration) run" where
  "shm_config_step plugin st = (\<lambda>(shm_config, server_shm_config).
    and_then (service_identifier st) (\<lambda>iface. and_then (service_instance_name st) (\<lambda>inst.
      (case (make_shared_memory_path inst (st_service_id st), make_counterpart_shared_memory_path inst (st_service_id st)) of
         (Ok shm_path, Ok counterpart_shm_path) \<Rightarrow>
           and_then (event_slot_size plugin st) (\<lambda>slot_size.
             let events_block = \<lparr>path = contents shm_path, slot_size = slot_size, slot_count = kMaxSampleCount\<rparr>;
                 methods_block = \<lparr>path = contents counterpart_shm_path, slot_size = 1, slot_count = 1\<rparr> in
             if st_local_service_instances st \<noteq> None
             then Ok (update2 iface inst events_block shm_config, update2 iface inst methods_block server_shm_config)
             else if st_remote_service_instances st \<noteq> None
             then Ok (update2 iface inst methods_block shm_config, update2 iface inst events_block server_shm_config)
             else Ok (shm_config, server_shm_config))
       | _ \<Rightarrow> Ok (shm_config, server_shm_config)))))"

definition build_shm_configs ::
    "Root option \<Rightarrow> Root \<Rightarrow> (Shared_memory_configuration \<times> Shared_memory_configuration) run" where
  "build_shm_configs plugin config =
    and_then (deref (service_types config)) (\<lambda>sts. fold_run (shm_config_step plugin) sts ([], []))"

text \<open>The entries the binding client announces in \<^verbatim>\<open>Connect\<close>.\<close>

definition gatewayd_connect_configs :: "Root option \<Rightarrow> Root \<Rightarrow> Service_shared_memory_config list run" where
  "gatewayd_connect_configs plugin config =
    and_then (build_shm_configs plugin config) (\<lambda>(shm_config, server_shm_config). make_shared_memory_configs server_shm_config)"

subsection \<open>Local service instances\<close>

datatype create_error = Socom_error Error | Com_kInvalidConfiguration | Com_kBindingFailure

record Local_event_context =
  lctx_config :: Event_config
  lctx_serializer :: "score_com_serializer option"
  lctx_socom_event_id :: Event_id

datatype proxy_call =
    SetReceiveHandler string Local_event_context
  | Proxy_Subscribe string size_t

record LocalServiceInstance =
  li_instance_config :: ServiceInstance
  li_type_config :: ServiceType
  li_server :: server_ref
  li_event_contexts :: "(string, Local_event_context) assoc"

text \<open>\<^verbatim>\<open>std::map::emplace\<close> keeps an entry that is there and returns it.\<close>

definition emplace :: "'k \<Rightarrow> 'v \<Rightarrow> ('k, 'v) assoc \<Rightarrow> ('k, 'v) assoc \<times> 'v" where
  "emplace k v m = (case map_of m k of None \<Rightarrow> (m @ [(k, v)], v) | Some old \<Rightarrow> (m, old))"

definition all_server_callbacks :: server_callbacks where
  "all_server_callbacks = \<lparr>has_method_call = True, has_event_update_request = True, has_event_subscription_change = True,
     has_method_call_payload_allocate = True\<rparr>"

definition all_client_callbacks :: client_callbacks where
  "all_client_callbacks = \<lparr>has_service_state_change = True, has_event_update = True, has_event_requested_update = True,
     has_event_payload_allocate = True\<rparr>"

definition local_event_step ::
    "Root option \<Rightarrow> string list \<Rightarrow> ServiceType \<Rightarrow> Event_config
      \<Rightarrow> Event_id \<times> (string, Local_event_context) assoc \<times> proxy_call list
      \<Rightarrow> (Event_id \<times> (string, Local_event_context) assoc \<times> proxy_call list) run" where
  "local_event_step plugin proxy_events st event_config = (\<lambda>(socom_event_id, event_contexts, calls).
    and_then (deref (ev_event_name event_config)) (\<lambda>event_name.
      if event_name \<notin> set proxy_events then Ok (socom_event_id + 1, event_contexts, calls)
      else and_then (deref (st_service_type_name st)) (\<lambda>service_type_name.
        let (r, serializer) = score_com_serializer_get plugin service_type_name element_type_event event_name True in
        if r \<noteq> serializer_result_ok then Ok (socom_event_id + 1, event_contexts, calls)
        else let (event_contexts', event_context) = emplace event_name
                   \<lparr>lctx_config = event_config, lctx_serializer = serializer, lctx_socom_event_id = socom_event_id\<rparr> event_contexts in
          Ok (socom_event_id + 1, event_contexts',
              calls @ [SetReceiveHandler event_name event_context, Proxy_Subscribe event_name kMaxSampleCount]))))"

definition LocalServiceInstance_Create ::
    "Root option \<Rightarrow> ServiceInstance \<Rightarrow> ServiceType \<Rightarrow> string list \<Rightarrow> Posix_credentials \<Rightarrow> 'p Runtime
      \<Rightarrow> ((create_error, LocalServiceInstance \<times> proxy_call list) result \<times> 'p Runtime) run" where
  "LocalServiceInstance_Create plugin si st proxy_events cred rt =
    and_then (service_identifier st) (\<lambda>iface. and_then (service_instance_name st) (\<lambda>inst. and_then (deref (st_events st)) (\<lambda>events.
      let server_config = make_definition iface (to_num_of_methods 0) (to_num_of_events (of_nat (length events)));
          (r, rt1) = make_server_connector all_server_callbacks server_config inst cred rt in
      (case r of
         Err e \<Rightarrow> Ok (Err (Socom_error runtime_error_request_rejected), rt1)
       | Ok s \<Rightarrow> and_then (enable_server s rt1) (\<lambda>rt2.
           and_then (fold_run (local_event_step plugin proxy_events st) events (0, [], [])) (\<lambda>(n, event_contexts, calls).
             Ok (Ok (\<lparr>li_instance_config = si, li_type_config = st, li_server = s, li_event_contexts = event_contexts\<rparr>, calls), rt2)))))))"

text \<open>The receive handler, for one sample. The message is the SOME/IP header, of which the length is left
  to the other daemon, and the serialized sample.\<close>

definition local_header_start :: "ServiceType \<Rightarrow> Event_config \<Rightarrow> u8 list" where
  "local_header_start st event_config = be16 (st_service_id st) @ be16 (ev_event_id event_config)"

definition local_header_rest :: "ServiceType \<Rightarrow> u8 list" where
  "local_header_rest st = be16 0xFFFF @ be16 0 @ [1, st_service_version_major st, 2, 0]"

definition on_local_sample ::
    "(client_ref \<Rightarrow> (Server_connector_error, 'cb Payload) result) \<Rightarrow> LocalServiceInstance \<Rightarrow> Local_event_context
      \<Rightarrow> PreSerializedData option \<Rightarrow> 'cb list \<times> byte_memory \<times> 'cb Payload Runtime
      \<Rightarrow> ('cb list \<times> byte_memory \<times> 'cb Payload Runtime) run" where
  "on_local_sample answer li event_context sample = (\<lambda>(released, mem, rt).
    and_then (deref (map_of (rt_servers rt) (li_server li))) (\<lambda>sc.
      (case sc_allocate_event_payload answer (lctx_socom_event_id event_context) sc of
         Err e \<Rightarrow> Ok (released, mem, rt)
       | Ok payload \<Rightarrow>
           and_then (payload_data payload) (\<lambda>wdata.
           and_then (put_bytes wdata (local_header_start (li_type_config li) (lctx_config event_context)) (0, mem)) (\<lambda>(pos1, mem1).
           and_then (put_bytes wdata (local_header_rest (li_type_config li)) (pos1 + 4, mem1)) (\<lambda>(pos2, mem2).
           and_then (score_com_serializer_serialize (lctx_serializer event_context) (Some (span_data wdata + pos2))
                      (span_size wdata - pos2) sample True mem2) (\<lambda>(serialize_result, written_length, mem3).
             if serialize_result \<noteq> serializer_result_ok then Ok (released @ call_payload_destroyed payload, mem3, rt)
             else let pos3 = pos2 + (case written_length of None \<Rightarrow> 0 | Some n \<Rightarrow> n) in
               and_then (payload_shrink pos3 payload) (\<lambda>(_, payload').
               and_then (rt_update_event (li_server li) (lctx_socom_event_id event_context) payload' rt) (\<lambda>(_, rt').
                 Ok (released, mem3, rt'))))))))))"

text \<open>\<^verbatim>\<open>GetNewSamples\<close> calls back for at most the given number of samples.\<close>

definition on_local_receive ::
    "(client_ref \<Rightarrow> (Server_connector_error, 'cb Payload) result) \<Rightarrow> LocalServiceInstance \<Rightarrow> Local_event_context
      \<Rightarrow> PreSerializedData option list \<Rightarrow> byte_memory \<times> 'cb Payload Runtime \<Rightarrow> ('cb list \<times> byte_memory \<times> 'cb Payload Runtime) run" where
  "on_local_receive answer li event_context samples = (\<lambda>(mem, rt).
    fold_run (on_local_sample answer li event_context) (take (unat kMaxSampleCount) samples) ([], mem, rt))"

text \<open>\<open>specifier_valid\<close> is the answer of \<^verbatim>\<open>InstanceSpecifier::Create\<close>, whose failure is not handled, and
  \<open>start_find\<close> that of \<^verbatim>\<open>StartFindService\<close>.\<close>

definition CreateAsyncLocalServices ::
    "(string \<Rightarrow> bool) \<Rightarrow> (string \<Rightarrow> (create_error, 'h) result) \<Rightarrow> ServiceInstance option \<Rightarrow> (create_error, 'h) result run" where
  "CreateAsyncLocalServices specifier_valid start_find si =
    (case si of
       None \<Rightarrow> Ok (Err Com_kInvalidConfiguration)
     | Some c \<Rightarrow> assert_run (specifier_valid (si_instance_specifier c)) (Ok (start_find (si_instance_specifier c))))"

text \<open>The find-service callback: for each handle, the events of the proxy created from it, or
  \<open>None\<close> when that fails. The flag says whether the search is stopped.\<close>

definition on_local_service_found ::
    "Root option \<Rightarrow> ServiceInstance \<Rightarrow> ServiceType \<Rightarrow> Posix_credentials \<Rightarrow> string list option list
      \<Rightarrow> LocalServiceInstance list \<times> 'p Runtime \<Rightarrow> (bool \<times> proxy_call list \<times> LocalServiceInstance list \<times> 'p Runtime) run" where
  "on_local_service_found plugin si st cred handles = (\<lambda>(instances, rt).
    (case handles of
       [] \<Rightarrow> Err Out_of_bounds
     | None # _ \<Rightarrow> Ok (False, [], instances, rt)
     | Some proxy_events # _ \<Rightarrow>
         and_then (LocalServiceInstance_Create plugin si st proxy_events cred rt) (\<lambda>(r, rt').
           (case r of
              Err e \<Rightarrow> Ok (False, [], instances, rt')
            | Ok (li, calls) \<Rightarrow> Ok (True, calls, instances @ [li], rt')))))"

subsection \<open>Remote service instances\<close>

record Remote_event_context =
  rctx_config :: Event_config
  rctx_serializer :: "score_com_serializer option"
  rctx_ipc_event :: string

record RemoteServiceInstance =
  ri_instance_config :: ServiceInstance
  ri_type_config :: ServiceType
  ri_skeleton_events :: "string list"
  ri_client :: "client_ref option"
  ri_event_contexts :: "(Event_id, Remote_event_context) assoc"

definition remote_event_step ::
    "Root option \<Rightarrow> string list \<Rightarrow> string \<Rightarrow> Event_config \<Rightarrow> Event_id \<times> (Event_id, Remote_event_context) assoc
      \<Rightarrow> (Event_id \<times> (Event_id, Remote_event_context) assoc) run" where
  "remote_event_step plugin skeleton_events service_type_name event_config = (\<lambda>(socom_event_id, event_contexts).
    and_then (deref (ev_event_name event_config)) (\<lambda>event_name.
      if event_name \<notin> set skeleton_events then Ok (socom_event_id + 1, event_contexts)
      else let (r, serializer) = score_com_serializer_get plugin service_type_name element_type_event event_name True in
        if r \<noteq> serializer_result_ok then Ok (socom_event_id + 1, event_contexts)
        else Ok (socom_event_id + 1,
                 fst (emplace socom_event_id
                   \<lparr>rctx_config = event_config, rctx_serializer = serializer, rctx_ipc_event = event_name\<rparr> event_contexts))))"

text \<open>The loop that subscribes a connector, which may still be null, to the events.\<close>

definition subscribe_events :: "client_ref option \<Rightarrow> nat \<Rightarrow> 'p Runtime \<Rightarrow> 'p Runtime run" where
  "subscribe_events client_connector n rt =
    fold_run (\<lambda>i rt. and_then (deref client_connector) (\<lambda>c.
      and_then (subscribe_event c (of_nat i) update rt) (\<lambda>(_, rt'). Ok rt'))) [0..<n] rt"

definition remote_on_service_state_change :: "RemoteServiceInstance \<Rightarrow> bool \<Rightarrow> 'p Runtime \<Rightarrow> 'p Runtime run" where
  "remote_on_service_state_change ri available rt =
    (if \<not> available then Ok rt
     else and_then (deref (st_events (ri_type_config ri))) (\<lambda>events. subscribe_events (ri_client ri) (length events) rt))"

text \<open>The state changes reported to a client by the last of the effects: those of the call that created it.\<close>

fun state_changes_of :: "client_ref \<Rightarrow> 'p socom_effect list \<Rightarrow> bool list" where
  "state_changes_of c [] = []"
| "state_changes_of c (Client_state_change c' available cfg # es) =
    (if c' = c then available # state_changes_of c es else state_changes_of c es)"
| "state_changes_of c (_ # es) = state_changes_of c es"

text \<open>\<open>offered\<close> is the answer of \<^verbatim>\<open>OfferService\<close>. The callbacks that run inside \<^verbatim>\<open>make_client_connector\<close>
  see the instance without connector.\<close>

definition RemoteServiceInstance_Create ::
    "Root option \<Rightarrow> ServiceInstance \<Rightarrow> ServiceType \<Rightarrow> bool \<Rightarrow> string list \<Rightarrow> Posix_credentials \<Rightarrow> 'p Runtime
      \<Rightarrow> ((create_error, RemoteServiceInstance) result \<times> 'p Runtime) run" where
  "RemoteServiceInstance_Create plugin si st offered skeleton_events cred rt =
    (if \<not> offered then Ok (Err Com_kBindingFailure, rt)
     else and_then (service_instance_name st) (\<lambda>service_type_name. and_then (deref (st_events st)) (\<lambda>events.
       and_then (fold_run (remote_event_step plugin skeleton_events service_type_name) events (0, [])) (\<lambda>(n, event_contexts).
       and_then (service_identifier st) (\<lambda>iface.
         let client_config = make_definition iface (to_num_of_methods 0) (to_num_of_events (of_nat (length events)));
             instance = \<lparr>ri_instance_config = si, ri_type_config = st, ri_skeleton_events = skeleton_events, ri_client = None,
                         ri_event_contexts = event_contexts\<rparr> in
         and_then (make_client_connector all_client_callbacks client_config service_type_name cred rt) (\<lambda>(r, rt1).
         and_then (fold_run (remote_on_service_state_change instance)
                     (state_changes_of (rt_next rt) (drop (length (rt_log rt)) (rt_log rt1))) rt1) (\<lambda>rt2.
           (case r of
              Err e \<Rightarrow> Ok (Err (Socom_error runtime_error_request_rejected), rt2)
            | Ok c \<Rightarrow> Ok (Ok (instance\<lparr>ri_client := Some c\<rparr>), rt2)))))))))"

text \<open>\<^verbatim>\<open>event_contexts_[event_id]\<close> creates an empty context, whose null configuration is used next.
  \<open>alloc\<close> is the sample the skeleton allocates for an event. The result is the sample that is
  sent, with the name of its event, and the callbacks of the payload, which ends here.\<close>

definition forward_event ::
    "(string \<Rightarrow> PreSerializedData option) \<Rightarrow> RemoteServiceInstance \<Rightarrow> Event_id \<Rightarrow> 'cb Payload \<Rightarrow> byte_memory
      \<Rightarrow> ((string \<times> PreSerializedData) option \<times> 'cb list) run" where
  "forward_event alloc ri event_id payload mem =
    and_then (deref (map_of (ri_event_contexts ri) event_id)) (\<lambda>event_context.
    and_then (deref (ev_event_name (rctx_config event_context))) (\<lambda>event_name.
      if event_name \<notin> set (ri_skeleton_events ri) then Ok (None, call_payload_destroyed payload)
      else and_then (payload_data payload) (\<lambda>data. and_then (subspan_from kSomeipFullHeaderSize data) (\<lambda>message.
        (case alloc event_name of
           None \<Rightarrow> Ok (None, call_payload_destroyed payload)
         | Some sample \<Rightarrow>
             and_then (score_com_serializer_deserialize (rctx_serializer event_context) (Some (span_data message))
                        (span_size message) (Some sample) mem) (\<lambda>(deserialize_result, sample').
               if deserialize_result \<noteq> serializer_result_ok then Ok (None, call_payload_destroyed payload)
               else Ok (map_option (\<lambda>s. (event_name, s)) sample', call_payload_destroyed payload)))))))"

text \<open>The description of the events for the skeleton: name, size and alignment.\<close>

definition event_info_step ::
    "Root option \<Rightarrow> string \<Rightarrow> Event_config \<Rightarrow> (create_error, (string \<times> size_t \<times> size_t) list) result
      \<Rightarrow> (create_error, (string \<times> size_t \<times> size_t) list) result run" where
  "event_info_step plugin service_type_name event acc =
    (case acc of
       Err e \<Rightarrow> Ok (Err e)
     | Ok infos \<Rightarrow> and_then (deref (ev_event_name event)) (\<lambda>event_name.
         let (r, serializer) = score_com_serializer_get plugin service_type_name element_type_event event_name True in
         if r \<noteq> serializer_result_ok then Ok (Err Com_kInvalidConfiguration)
         else Ok (Ok (infos @ [(event_name, score_com_serializer_get_sizeof_type serializer, score_com_serializer_get_alignof_type serializer)]))))"

text \<open>\<open>make_skeleton\<close> is \<^verbatim>\<open>GenericSkeleton::Create\<close>: the events of the skeleton and whether it can be offered.\<close>

definition CreateAsyncRemoteService ::
    "(string \<Rightarrow> bool) \<Rightarrow> (string \<Rightarrow> (string \<times> size_t \<times> size_t) list \<Rightarrow> (string list \<times> bool) option)
      \<Rightarrow> Root option \<Rightarrow> Posix_credentials \<Rightarrow> ServiceInstance option \<Rightarrow> ServiceType \<Rightarrow> RemoteServiceInstance list \<times> 'p Runtime
      \<Rightarrow> ((create_error, unit) result \<times> RemoteServiceInstance list \<times> 'p Runtime) run" where
  "CreateAsyncRemoteService specifier_valid make_skeleton plugin cred instance_config st = (\<lambda>(instances, rt).
    (case instance_config of
       None \<Rightarrow> Ok (Err Com_kInvalidConfiguration, instances, rt)
     | Some si \<Rightarrow> assert_run (specifier_valid (si_instance_specifier si))
         (and_then (deref (st_events st)) (\<lambda>events. and_then (service_instance_name st) (\<lambda>service_type_name.
          and_then (fold_run (event_info_step plugin service_type_name) events (Ok [])) (\<lambda>r.
          (case r of
             Err e \<Rightarrow> Ok (Err e, instances, rt)
           | Ok infos \<Rightarrow> (case make_skeleton (si_instance_specifier si) infos of
               None \<Rightarrow> Ok (Err Com_kInvalidConfiguration, instances, rt)
             | Some (skeleton_events, offered) \<Rightarrow>
                 and_then (RemoteServiceInstance_Create plugin si st offered skeleton_events cred rt) (\<lambda>(r', rt').
                   (case r' of
                      Err e \<Rightarrow> Ok (Err Com_kBindingFailure, instances, rt')
                    | Ok ri \<Rightarrow> Ok (Ok (), instances @ [ri], rt')))))))))))"

subsection \<open>Instances of the configuration\<close>

text \<open>The two creation loops of \<^verbatim>\<open>main\<close>: the searches that are started, and the remote instances.\<close>

definition start_local_searches ::
    "(string \<Rightarrow> bool) \<Rightarrow> (string \<Rightarrow> (create_error, 'h) result) \<Rightarrow> Root \<Rightarrow> (create_error, 'h) result list run" where
  "start_local_searches specifier_valid start_find config =
    and_then (deref (service_types config)) (\<lambda>sts.
      fold_run (\<lambda>st acc. (case st_local_service_instances st of
          None \<Rightarrow> Ok acc
        | Some sis \<Rightarrow> fold_run (\<lambda>si acc. and_then (CreateAsyncLocalServices specifier_valid start_find (Some si)) (\<lambda>r. Ok (acc @ [r]))) sis acc))
      sts [])"

definition create_remote_instances ::
    "(string \<Rightarrow> bool) \<Rightarrow> (string \<Rightarrow> (string \<times> size_t \<times> size_t) list \<Rightarrow> (string list \<times> bool) option)
      \<Rightarrow> Root option \<Rightarrow> Posix_credentials \<Rightarrow> Root \<Rightarrow> 'p Runtime \<Rightarrow> (RemoteServiceInstance list \<times> 'p Runtime) run" where
  "create_remote_instances specifier_valid make_skeleton plugin cred config rt =
    and_then (deref (service_types config)) (\<lambda>sts.
      fold_run (\<lambda>st acc. (case st_remote_service_instances st of
          None \<Rightarrow> Ok acc
        | Some sis \<Rightarrow> fold_run (\<lambda>si acc. and_then (CreateAsyncRemoteService specifier_valid make_skeleton plugin cred (Some si) st acc)
            (\<lambda>(_, acc'). Ok acc')) sis acc))
      sts ([], rt))"

end
