(* ===== verification/Someipd.thy ===== *)
theory Someipd
  imports Gatewayd
begin

text \<open>
  The SOME/IP daemon (\<^verbatim>\<open>someipd/main.cpp\<close>, \<^verbatim>\<open>someipd/impl/local_network_service.cpp\<close>,
  \<^verbatim>\<open>someipd/impl/remote_network_service.cpp\<close>, \<^verbatim>\<open>someipd/impl/routing.cpp\<close>): services of the local
  applications are offered to the network, and events of network services are passed to the
  gateway.

  The vsomeip library is not part of the repository: the calls made to it are the values of
  \<open>vsomeip_call\<close>, the messages and states it delivers are arguments. Names of the configuration,
  the runtime and the payload memory are modelled as for the gateway daemon.
\<close>

datatype vsomeip_call =
    Notify ServiceId InstanceId u16 "u8 list"
  | Request_service_call ServiceId InstanceId
  | Register_message_handler ServiceId InstanceId u16 Event_id
  | Request_event ServiceId InstanceId u16 "u16 set"
  | Subscribe_call ServiceId InstanceId u16
  | Offer_event ServiceId InstanceId u16 "u16 set"
  | Offer_service_call ServiceId InstanceId u8

subsection \<open>Services of local applications\<close>

record LocalNetworkService =
  ln_instance_config :: ServiceInstance
  ln_type_config :: ServiceType
  ln_client :: "client_ref option"

definition local_on_service_state_change :: "LocalNetworkService \<Rightarrow> bool \<Rightarrow> 'p Runtime \<Rightarrow> 'p Runtime run" where
  "local_on_service_state_change ln available rt =
    (if \<not> available then Ok rt
     else and_then (deref (st_events (ln_type_config ln))) (\<lambda>events. subscribe_events (ln_client ln) (length events) rt))"

definition LocalNetworkService_Create ::
    "ServiceInstance \<Rightarrow> ServiceType \<Rightarrow> Posix_credentials \<Rightarrow> 'p Runtime
      \<Rightarrow> ((create_error, LocalNetworkService) result \<times> 'p Runtime) run" where
  "LocalNetworkService_Create si st cred rt =
    (let instance = \<lparr>ln_instance_config = si, ln_type_config = st, ln_client = None\<rparr> in
     and_then (service_identifier st) (\<lambda>iface. and_then (service_instance_name st) (\<lambda>inst. and_then (deref (st_events st)) (\<lambda>events.
       let client_connector_config = make_definition iface (to_num_of_methods 0) (to_num_of_events (of_nat (length events))) in
       and_then (make_client_connector all_client_callbacks client_connector_config inst cred rt) (\<lambda>(r, rt1).
       and_then (fold_run (local_on_service_state_change instance)
                   (state_changes_of (rt_next rt) (drop (length (rt_log rt)) (rt_log rt1))) rt1) (\<lambda>rt2.
         (case r of
            Err e \<Rightarrow> Ok (Err (Socom_error runtime_error_request_rejected), rt2)
          | Ok c \<Rightarrow> Ok (Ok (instance\<lparr>ln_client := Some c\<rparr>), rt2))))))))"

text \<open>The length given to \<^verbatim>\<open>set_data\<close> is cut to 32 bits. The payload ends with the call.\<close>

definition forward_to_vsomeip ::
    "LocalNetworkService \<Rightarrow> Event_id \<Rightarrow> 'cb Payload \<Rightarrow> byte_memory \<Rightarrow> (vsomeip_call list \<times> 'cb list) run" where
  "forward_to_vsomeip ln event_id payload mem =
    and_then (deref (st_events (ln_type_config ln))) (\<lambda>events.
      if length events \<le> unat event_id then Ok ([], call_payload_destroyed payload)
      else let event_config = events ! unat event_id in
        and_then (payload_data payload) (\<lambda>full_msg.
        and_then (subspan kSomeipFullHeaderSize (span_size full_msg - kSomeipFullHeaderSize) full_msg) (\<lambda>event_data.
          Ok ([Notify (st_service_id (ln_type_config ln)) (si_instance_id (ln_instance_config ln)) (ev_event_id event_config)
                 (span_bytes mem (event_data\<lparr>span_size := ucast (ucast (span_size event_data) :: u32)\<rparr>))],
              call_payload_destroyed payload))))"

subsection \<open>Services of the network\<close>

record vsomeip_message =
  msg_service :: u16
  msg_client :: u16
  msg_session :: u16
  msg_protocol_version :: u8
  msg_interface_version :: u8
  msg_message_type :: u8
  msg_return_code :: u8
  msg_payload :: "u8 list"

record RemoteNetworkService =
  rn_instance_config :: ServiceInstance
  rn_type_config :: ServiceType
  rn_server :: server_ref

definition RemoteNetworkService_Create ::
    "ServiceInstance \<Rightarrow> ServiceType \<Rightarrow> Posix_credentials \<Rightarrow> 'p Runtime
      \<Rightarrow> ((create_error, RemoteNetworkService) result \<times> 'p Runtime) run" where
  "RemoteNetworkService_Create si st cred rt =
    and_then (service_identifier st) (\<lambda>iface. and_then (service_instance_name st) (\<lambda>inst. and_then (deref (st_events st)) (\<lambda>events.
      let server_config = make_definition iface (to_num_of_methods 0) (to_num_of_events (of_nat (length events)));
          (r, rt1) = make_server_connector all_server_callbacks server_config inst cred rt in
      (case r of
         Err e \<Rightarrow> Ok (Err (Socom_error runtime_error_request_rejected), rt1)
       | Ok s \<Rightarrow> and_then (enable_server s rt1) (\<lambda>rt2.
           Ok (Ok \<lparr>rn_instance_config = si, rn_type_config = st, rn_server = s\<rparr>, rt2))))))"

text \<open>The handler captures the position of the event and its identifier on the network.\<close>

definition setup_vsomeip :: "RemoteNetworkService \<Rightarrow> vsomeip_call list run" where
  "setup_vsomeip rn =
    (let service_id = st_service_id (rn_type_config rn); instance_id = si_instance_id (rn_instance_config rn) in
     and_then (deref (st_events (rn_type_config rn))) (\<lambda>events.
       Ok (Request_service_call service_id instance_id
         # concat (map (\<lambda>i. let vsomeip_event_id = ev_event_id (events ! i) in
             [Register_message_handler service_id instance_id vsomeip_event_id (of_nat i),
              Request_event service_id instance_id vsomeip_event_id {vsomeip_event_id},
              Subscribe_call service_id instance_id vsomeip_event_id]) [0..<length events]))))"

definition network_header :: "vsomeip_message \<Rightarrow> u16 \<Rightarrow> u8 list" where
  "network_header msg vsomeip_event_id =
    be16 (msg_service msg) @ be16 vsomeip_event_id @ be32 (of_nat (length (msg_payload msg)) + 8)
      @ be16 (msg_client msg) @ be16 (msg_session msg)
      @ [msg_protocol_version msg, msg_interface_version msg, msg_message_type msg, msg_return_code msg]"

text \<open>\<^verbatim>\<open>std::memcpy\<close> behind the header has no test against the size of the payload: a copy that leaves it
  is a fault.\<close>

definition on_vsomeip_message ::
    "(client_ref \<Rightarrow> (Server_connector_error, 'cb Payload) result) \<Rightarrow> RemoteNetworkService \<Rightarrow> Event_id \<Rightarrow> u16
      \<Rightarrow> vsomeip_message \<Rightarrow> byte_memory \<times> 'cb Payload Runtime \<Rightarrow> (byte_memory \<times> 'cb Payload Runtime) run" where
  "on_vsomeip_message answer rn socom_event_id vsomeip_event_id msg = (\<lambda>(mem, rt).
    and_then (deref (map_of (rt_servers rt) (rn_server rn))) (\<lambda>sc.
      (case sc_allocate_event_payload answer socom_event_id sc of
         Err e \<Rightarrow> Ok (mem, rt)
       | Ok payload \<Rightarrow>
           and_then (payload_data payload) (\<lambda>wdata.
           and_then (put_bytes wdata (network_header msg vsomeip_event_id) (0, mem)) (\<lambda>(pos, mem1).
             if unat (span_size wdata) < unat pos + length (msg_payload msg) then Err Out_of_bounds
             else let mem2 = memcpy (span_data wdata + pos) (msg_payload msg) mem1;
                      pos' = pos + of_nat (length (msg_payload msg)) in
               and_then (payload_shrink pos' payload) (\<lambda>(_, payload').
               and_then (rt_update_event (rn_server rn) socom_event_id payload' rt) (\<lambda>(_, rt'). Ok (mem2, rt'))))))))"

subsection \<open>Routing\<close>

definition eventgroups :: "Event_config \<Rightarrow> u16 set" where
  "eventgroups event =
    (case ev_eventgroup_ids event of
       None \<Rightarrow> {ev_event_id event}
     | Some ids \<Rightarrow> if ids \<noteq> [] then set ids else {ev_event_id event})"

definition offer_instance :: "ServiceType \<Rightarrow> ServiceInstance \<Rightarrow> vsomeip_call list run" where
  "offer_instance st si =
    and_then (deref (st_events st)) (\<lambda>events.
      Ok (map (\<lambda>e. Offer_event (st_service_id st) (si_instance_id si) (ev_event_id e) (eventgroups e)) events
          @ [Offer_service_call (st_service_id st) (si_instance_id si) (st_service_version_major st)]))"

definition SetupOfferings :: "Root \<Rightarrow> vsomeip_call list run" where
  "SetupOfferings config =
    and_then (deref (service_types config)) (\<lambda>sts.
      fold_run (\<lambda>st calls. (case st_local_service_instances st of
          None \<Rightarrow> Ok calls
        | Some sis \<Rightarrow> fold_run (\<lambda>si calls. and_then (offer_instance st si) (\<lambda>cs. Ok (calls @ cs))) sis calls))
      sts [])"

fun lookup_instance :: "ServiceId \<Rightarrow> ServiceType list \<Rightarrow> InstanceId run" where
  "lookup_instance service_id [] = Ok kAnyInstance"
| "lookup_instance service_id (st # sts) =
    (if st_service_id st \<noteq> service_id then lookup_instance service_id sts
     else and_then (deref (st_local_service_instances st)) (\<lambda>sis.
       (case sis of [] \<Rightarrow> Err Out_of_bounds | si # _ \<Rightarrow> Ok (si_instance_id si))))"

definition LookupInstanceId :: "Root \<Rightarrow> ServiceId \<Rightarrow> InstanceId run" where
  "LookupInstanceId config service_id = and_then (deref (service_types config)) (lookup_instance service_id)"

text \<open>The state handler of \<^verbatim>\<open>Run\<close> with the callback \<^verbatim>\<open>main\<close> passes to it: when the application is registered
  with the routing daemon, the offers and then the subscriptions of the remote services are made.\<close>

definition on_vsomeip_state :: "Root \<Rightarrow> RemoteNetworkService list \<Rightarrow> bool \<Rightarrow> vsomeip_call list run" where
  "on_vsomeip_state config remote_network_services registered =
    (if \<not> registered then Ok []
     else and_then (SetupOfferings config)
       (fold_run (\<lambda>rn calls. and_then (setup_vsomeip rn) (\<lambda>cs. Ok (calls @ cs))) remote_network_services))"

text \<open>\<open>initialised\<close> is the answer of \<^verbatim>\<open>application::init\<close>.\<close>

definition Routing_Create :: "bool \<Rightarrow> Root \<Rightarrow> (Errc, Root) result" where
  "Routing_Create initialised config = (if \<not> initialised then Err kInitializationFailed else Ok config)"

subsection \<open>Main program\<close>

text \<open>This daemon knows no manifest: its option is an unknown one here.\<close>

fun parse_someipd_options :: "getopt_result list \<Rightarrow> string \<Rightarrow> nat + string" where
  "parse_someipd_options [] configuration_path = Ok configuration_path"
| "parse_someipd_options (Opt_help # opts) configuration_path = Err 0"
| "parse_someipd_options (Opt_configuration p # opts) configuration_path = parse_someipd_options opts p"
| "parse_someipd_options (Opt_manifest p # opts) configuration_path = Err 1"
| "parse_someipd_options (Opt_unknown # opts) configuration_path = Err 1"

text \<open>Exit code or configuration; a failing start of the IPC server or of the network stack ends the daemon.\<close>

definition someipd_start ::
    "(string \<Rightarrow> (int \<times> 'b) option) \<Rightarrow> ('b \<Rightarrow> Root) \<Rightarrow> getopt_result list \<Rightarrow> bool \<Rightarrow> bool \<Rightarrow> nat + Root" where
  "someipd_start open_file GetRoot opts server_started stack_initialised =
    (case parse_someipd_options opts [] of
       Err code \<Rightarrow> Err code
     | Ok configuration_path \<Rightarrow>
         if configuration_path = [] then Err 1
         else (case open_file configuration_path of
             None \<Rightarrow> Err 1
           | Some (len, buf) \<Rightarrow>
               if len \<le> 0 then Err 1
               else if \<not> server_started then Err 1
               else (case Routing_Create stack_initialised (GetRoot buf) of Err e \<Rightarrow> Err 1 | Ok config \<Rightarrow> Ok config)))"

definition create_local_network_services ::
    "Posix_credentials \<Rightarrow> Root \<Rightarrow> 'p Runtime \<Rightarrow> (LocalNetworkService list \<times> 'p Runtime) run" where
  "create_local_network_services cred config rt =
    and_then (deref (service_types config)) (\<lambda>sts.
      fold_run (\<lambda>st acc. (case st_local_service_instances st of
          None \<Rightarrow> Ok acc
        | Some sis \<Rightarrow> fold_run (\<lambda>si (lns, rt). and_then (LocalNetworkService_Create si st cred rt) (\<lambda>(r, rt').
            (case r of Err e \<Rightarrow> Ok (lns, rt') | Ok ln \<Rightarrow> Ok (lns @ [ln], rt')))) sis acc))
      sts ([], rt))"

definition create_remote_network_services ::
    "Posix_credentials \<Rightarrow> Root \<Rightarrow> 'p Runtime \<Rightarrow> (RemoteNetworkService list \<times> 'p Runtime) run" where
  "create_remote_network_services cred config rt =
    and_then (deref (service_types config)) (\<lambda>sts.
      fold_run (\<lambda>st acc. (case st_remote_service_instances st of
          None \<Rightarrow> Ok acc
        | Some sis \<Rightarrow> fold_run (\<lambda>si (rns, rt). and_then (RemoteNetworkService_Create si st cred rt) (\<lambda>(r, rt').
            (case r of Err e \<Rightarrow> Ok (rns, rt') | Ok rn \<Rightarrow> Ok (rns @ [rn], rt')))) sis acc))
      sts ([], rt))"

end
