(* ===== verification/Event_Path.thy ===== *)
theory Event_Path
  imports Someipd
begin

text \<open>
  What the two daemons do together: the size of the shared memory slots, the way of an event from a
  local application to the network and from the network to a local application, and the offers made on the network. The
  payload one daemon fills and the payload the other reads lie in the same slot; that both see the
  same bytes there is shown for the slot managers, and is a hypothesis here.
\<close>

subsection \<open>Slot size\<close>

text \<open>The largest serialized size of an event, 0 if it is not known.\<close>

definition event_max :: "Root option \<Rightarrow> string \<Rightarrow> Event_config \<Rightarrow> nat" where
  "event_max plugin service_type_name e =
    (case ev_event_name e of
       None \<Rightarrow> 0
     | Some event_name \<Rightarrow> (case lookup_serialization_config plugin service_type_name element_type_event event_name of
         None \<Rightarrow> 0
       | Some c \<Rightarrow> unat (max_message_size c)))"

lemma event_max_bound: "event_max plugin name e < 2 ^ 32"
  using unsigned_less [where ?'a = nat and ?'b = 32]
  by (auto simp: event_max_def split: option.splits)

lemma event_slot_loop_Cons:
  assumes "ev_event_name e = Some n"
  shows "event_slot_loop plugin name (e # es) l =
    (if event_max plugin name e = 0 then Ok kMaxMessageSize
     else event_slot_loop plugin name es (max l (of_nat (event_max plugin name e))))"
proof (cases "lookup_serialization_config plugin name element_type_event n")
  case None
  then show ?thesis using assms by (simp add: event_max_def score_com_serializer_get_def)
next
  case (Some c)
  have "(of_nat (unat (max_message_size c)) :: size_t) = ucast (max_message_size c)" by (simp add: unsigned_of_nat)
  moreover have "(ucast (max_message_size c) :: size_t) = 0 \<longleftrightarrow> unat (max_message_size c) = 0"
    by (simp only: word_unat_eq_iff unat_ucast_32 unat_0)
  ultimately show ?thesis using assms Some
    by (simp add: event_max_def score_com_serializer_get_def score_com_serializer_get_max_serialized_size_def Let_def)
qed

lemma event_slot_loop_value:
  assumes "\<forall>e \<in> set es. ev_event_name e \<noteq> None" "l < 2 ^ 32"
  shows "event_slot_loop plugin name es (of_nat l) =
    (if \<exists>e \<in> set es. event_max plugin name e = 0 then Ok kMaxMessageSize
     else Ok (of_nat (foldl max l (map (event_max plugin name) es)) + 16))"
  using assms
proof (induction es arbitrary: l)
  case Nil
  then show ?case by (simp add: kSomeipFullHeaderSize_def)
next
  case (Cons e es)
  let ?m = "event_max plugin name e"
  obtain n where n: "ev_event_name e = Some n" using Cons.prems(1) by auto
  have "max (of_nat l) (of_nat ?m) = (of_nat (max l ?m) :: size_t)"
    using Cons.prems(2) event_max_bound [of plugin name e] by (simp add: max_def word_le_nat_alt unat_of_nat_small)
  moreover have "max l ?m < 2 ^ 32" using Cons.prems(2) event_max_bound [of plugin name e] by simp
  ultimately show ?case
    using Cons.IH [of "max l ?m"] Cons.prems(1) by (auto simp: event_slot_loop_Cons [OF n] simp del: event_slot_loop.simps)
qed

lemma foldl_max: "foldl max (l :: nat) xs = Max (insert l (set xs))"
proof (induction xs arbitrary: l)
  case (Cons x xs)
  show ?case
  proof (cases "xs = []")
    case False
    then show ?thesis by (simp add: Cons.IH insert_commute Max_insert2 max.assoc) 
  qed (simp add: Cons.IH)
qed simp

text \<open>C40. The slots of a service hold the header and the largest event exactly, without overflow,
  when the serializer knows the size of every event; otherwise they have the size of the largest
  network message, whatever the sizes of the other events are.\<close>

theorem event_slot_size_exact:
  assumes "st_events st = Some events" "events \<noteq> []" "st_service_type_name st = Some name"
    and "\<forall>e \<in> set events. ev_event_name e \<noteq> None"
  shows "\<exists>n. event_slot_size plugin st = Ok n
    \<and> (if \<exists>e \<in> set events. event_max plugin name e = 0 then n = kMaxMessageSize
       else unat n = Max (event_max plugin name ` set events) + unat kSomeipFullHeaderSize)"
proof -
  let ?m = "Max (event_max plugin name ` set events)"
  have loop: "event_slot_size plugin st = event_slot_loop plugin name events (of_nat 0)"
    using assms(1-3) by (simp add: event_slot_size_def split: list.split)
  have "foldl max 0 (map (event_max plugin name) events) = ?m"
    using assms(2) by (simp add: foldl_max)
  moreover have "?m < 2 ^ 32" using assms(2) event_max_bound by (simp add: Max_less_iff)
  then have "unat (of_nat ?m + 16 :: size_t) = ?m + 16"
    by (simp add: unat_word_ariths unat_of_nat_small)
  ultimately show ?thesis
    unfolding loop event_slot_loop_value [OF assms(4) zero_less_power [OF zero_less_numeral]]
    by (auto simp: kSomeipFullHeaderSize_def)
qed

text \<open>A configuration with one service of two events.\<close>

definition example_event :: "string \<Rightarrow> u16 \<Rightarrow> u32 \<Rightarrow> Event_config" where
  "example_event name n m = \<lparr>ev_event_id = n, ev_event_name = Some name,
     ev_serialization_config = SerializationConfig_Null \<lparr>max_message_size = m\<rparr>, ev_eventgroup_ids = None\<rparr>"

definition example_instance :: ServiceInstance where
  "example_instance = \<lparr>si_instance_specifier = ''app/s'', si_instance_id = 3\<rparr>"

definition example_service :: ServiceType where
  "example_service = \<lparr>st_service_type_name = Some ''S'', st_service_id = 0x1234, st_service_version_major = 1,
     st_service_version_minor = 0, st_events = Some [example_event ''a'' 0x8001 8, example_event ''b'' 0x8002 20], st_methods = None,
     st_local_service_instances = Some [example_instance], st_remote_service_instances = None\<rparr>"

definition example_root :: Root where
  "example_root = \<lparr>service_types = Some [example_service]\<rparr>"

theorem event_slot_size_exact_witness:
  "\<exists>n. event_slot_size (Some example_root) example_service = Ok n \<and> unat n = 36"
proof -
  have m: "event_max (Some example_root) ''S'' (example_event ''a'' 0x8001 8) = 8"
    "event_max (Some example_root) ''S'' (example_event ''b'' 0x8002 20) = 20"
    by (simp_all add: event_max_def example_event_def lookup_serialization_config_def example_root_def example_service_def)
  have "st_events example_service = Some [example_event ''a'' 0x8001 8, example_event ''b'' 0x8002 20]"
    "st_service_type_name example_service = Some ''S''"
    "\<forall>e \<in> set [example_event ''a'' 0x8001 8, example_event ''b'' 0x8002 20]. ev_event_name e \<noteq> None"
    by (simp_all add: example_service_def example_event_def)
  from event_slot_size_exact [OF this(1) _ this(2,3), of "Some example_root"] show ?thesis
    by (simp add: m kSomeipFullHeaderSize_def)
qed

subsection \<open>Shared memory blocks of a service\<close>

text \<open>A service type touches only the entries of its own name.\<close>

lemma shm_config_step_other:
  assumes "shm_config_step plugin st s = Ok s'" "st_service_type_name st \<noteq> Some name"
  shows "lookup2 (fst s') i name = lookup2 (fst s) i name \<and> lookup2 (snd s') i name = lookup2 (snd s) i name"
  using assms
  by (auto simp: shm_config_step_def service_instance_name_def Let_def lookup2_update2 split: sum.splits prod.splits if_splits
      elim!: and_then_OkE)

lemma shm_config_step_own:
  assumes "shm_config_step plugin st s = Ok s'" "service_identifier st = Ok iface" "event_slot_size plugin st = Ok n"
    and "make_shared_memory_path (sii_id iface) (st_service_id st) = Ok c1"
    and "make_counterpart_shared_memory_path (sii_id iface) (st_service_id st) = Ok c2"
    and "st_local_service_instances st \<noteq> None \<or> st_remote_service_instances st \<noteq> None"
  defines "events_block \<equiv> \<lparr>path = contents c1, slot_size = n, slot_count = kMaxSampleCount\<rparr>"
    and "methods_block \<equiv> \<lparr>path = contents c2, slot_size = 1, slot_count = 1\<rparr>"
  shows "(lookup2 (fst s') iface (sii_id iface), lookup2 (snd s') iface (sii_id iface))
    = (if st_local_service_instances st \<noteq> None then (Some events_block, Some methods_block) else (Some methods_block, Some events_block))"
proof -
  have "service_instance_name st = Ok (sii_id iface)"
    using service_identifier_Ok [OF assms(2)] by (simp add: service_instance_name_def)
  then show ?thesis using assms(1-6)
    by (auto simp: shm_config_step_def Let_def lookup2_update2 events_block_def methods_block_def split: prod.splits if_splits)
qed

text \<open>The events of a service use the block of its own name, configured on the side that writes them: the local
  configuration for services of local applications, the configuration sent to the other daemon for services of the network.\<close>

lemma event_block_configured:
  assumes "build_shm_configs plugin config = Ok (shm_config, server_shm_config)" "service_types config = Some sts"
    and "distinct (map st_service_type_name sts)" "st \<in> set sts"
    and "service_identifier st = Ok iface" "event_slot_size plugin st = Ok n"
    and "make_shared_memory_path (sii_id iface) (st_service_id st) = Ok c1"
    and "make_counterpart_shared_memory_path (sii_id iface) (st_service_id st) = Ok c2"
    and "st_local_service_instances st \<noteq> None \<or> st_remote_service_instances st \<noteq> None"
  shows "lookup2 (if st_local_service_instances st \<noteq> None then shm_config else server_shm_config) iface (sii_id iface)
    = Some \<lparr>path = contents c1, slot_size = n, slot_count = kMaxSampleCount\<rparr>"
proof -
  obtain sts1 sts2 where sts: "sts = sts1 @ st # sts2" using assms(4) by (meson split_list)
  from assms(1,2) obtain s1 s2 where s: "shm_config_step plugin st s1 = Ok s2"
    "fold_run (shm_config_step plugin) sts2 s2 = Ok (shm_config, server_shm_config)"
    by (auto simp: build_shm_configs_def sts elim!: and_then_OkE)
  have name: "st_service_type_name st = Some (sii_id iface)" by (rule service_identifier_Ok [OF assms(5)])
  let ?look = "\<lambda>s. (lookup2 (fst s) iface (sii_id iface), lookup2 (snd s) iface (sii_id iface))"
  have "?look (shm_config, server_shm_config) = ?look s2"
  proof (rule fold_run_invariant [where I = "\<lambda>s. ?look s = ?look s2", OF _ refl s(2)])
    fix x r r'
    assume x: "x \<in> set sts2" and r: "?look r = ?look s2" "shm_config_step plugin x r = Ok r'"
    have "st_service_type_name x \<noteq> Some (sii_id iface)" using assms(3) x name by (force simp: sts)
    then show "?look r' = ?look s2" using shm_config_step_other [OF r(2)] r(1) by simp
  qed
  then show ?thesis using shm_config_step_own [OF s(1) assms(5-9)] by (auto split: if_splits)
qed

subsection \<open>Writing and reading a message\<close>

lemma payload_shrink_data:
  assumes "payload_wf p" "payload_data p = Ok d" "unat m \<le> unat (span_size d)"
  shows "\<exists>p'. payload_shrink m p = Ok (True, p') \<and> payload_data p' = Ok \<lparr>span_data = span_data d, span_size = m\<rparr>"
proof -
  let ?o = "pl_lead_offset p + pl_header_size p"
  note b = unat_add_bound [OF assms(1) [unfolded payload_wf_def]]
  have d: "span_data d = span_data (pl_span p) + ?o" "span_size d = span_size (pl_span p) - ?o"
    using assms(2) by (auto simp: payload_data_wf [OF assms(1)])
  have "unat m \<le> unat (span_size (pl_span p)) - (unat (pl_lead_offset p) + unat (pl_header_size p))"
    using assms(3) b(1,2) by (simp add: d unat_sub)
  from payload_shrink_wf [OF assms(1) this] obtain s where
    s: "payload_shrink m p = Ok (True, p\<lparr>pl_span := s\<rparr>)" "span_data s = span_data (pl_span p)" "span_size s = ?o + m"
      "unat (span_size s) = unat (pl_lead_offset p) + unat (pl_header_size p) + unat m"
    by blast
  then have "payload_wf (p\<lparr>pl_span := s\<rparr>)" by (simp add: payload_wf_def)
  then have "payload_data (p\<lparr>pl_span := s\<rparr>) = Ok \<lparr>span_data = span_data d, span_size = m\<rparr>"
    using s(2,3) by (simp add: payload_data_wf d)
  then show ?thesis using s(1) by blast
qed

lemma span_bytes_drop:
  fixes k n :: size_t
  assumes "unat k \<le> unat n"
  shows "span_bytes mem \<lparr>span_data = a + k, span_size = n - k\<rparr> = drop (unat k) (span_bytes mem \<lparr>span_data = a, span_size = n\<rparr>)"
proof (rule nth_equalityI)
  have n: "unat (n - k) = unat n - unat k" using assms by (simp add: unat_sub word_le_nat_alt)
  then show "length (span_bytes mem \<lparr>span_data = a + k, span_size = n - k\<rparr>)
      = length (drop (unat k) (span_bytes mem \<lparr>span_data = a, span_size = n\<rparr>))" by simp
  fix i
  assume "i < length (span_bytes mem \<lparr>span_data = a + k, span_size = n - k\<rparr>)"
  then have "unat k + i < unat n" using n by simp
  then show "span_bytes mem \<lparr>span_data = a + k, span_size = n - k\<rparr> ! i
      = drop (unat k) (span_bytes mem \<lparr>span_data = a, span_size = n\<rparr>) ! i"
    using n assms by (simp add: span_bytes_def add.assoc nth_upt)
qed

lemma header_lengths [simp]:
  "length (local_header_start st e) = 4" "length (local_header_rest st) = 8" "length (network_header msg n) = 16"
  by (simp_all add: local_header_start_def local_header_rest_def network_header_def)

text \<open>Reading the message behind a header of 16 bytes.\<close>

lemma message_behind_header:
  assumes "span_bytes mem d = hdr @ msg" "length hdr = 16"
  shows "unat (span_size d) = 16 + length msg"
    and "subspan_from kSomeipFullHeaderSize d = Ok \<lparr>span_data = span_data d + 16, span_size = span_size d - 16\<rparr>"
    and "subspan kSomeipFullHeaderSize (span_size d - kSomeipFullHeaderSize) d = Ok \<lparr>span_data = span_data d + 16, span_size = span_size d - 16\<rparr>"
    and "span_bytes mem \<lparr>span_data = span_data d + 16, span_size = span_size d - 16\<rparr> = msg"
    and "unat (span_size d - 16) = length msg"
proof -
  show n: "unat (span_size d) = 16 + length msg" using arg_cong [OF assms(1), of length] assms(2) by simp
  then have le: "16 \<le> span_size d" by (simp add: word_le_nat_alt)
  show "subspan_from kSomeipFullHeaderSize d = Ok \<lparr>span_data = span_data d + 16, span_size = span_size d - 16\<rparr>"
    "subspan kSomeipFullHeaderSize (span_size d - kSomeipFullHeaderSize) d = Ok \<lparr>span_data = span_data d + 16, span_size = span_size d - 16\<rparr>"
    using le by (simp_all add: subspan_from_def subspan_def kSomeipFullHeaderSize_def)
  show "span_bytes mem \<lparr>span_data = span_data d + 16, span_size = span_size d - 16\<rparr> = msg"
    using span_bytes_drop [of 16 "span_size d" mem "span_data d"] n assms
    by (simp add: span_bytes_def)
  show "unat (span_size d - 16) = length msg" using n le by (simp add: unat_sub)
qed

lemma forward_to_vsomeip_notifies:
  assumes "st_events (ln_type_config ln) = Some events" "unat eid < length events"
    and "payload_data p = Ok d" "span_bytes mem d = hdr @ msg" "length hdr = 16" "length msg < 2 ^ 32"
  shows "forward_to_vsomeip ln eid p mem =
    Ok ([Notify (st_service_id (ln_type_config ln)) (si_instance_id (ln_instance_config ln)) (ev_event_id (events ! unat eid)) msg],
        call_payload_destroyed p)"
proof -
  note m = message_behind_header [OF assms(4,5)]
  have "ucast (ucast (span_size d - 16) :: u32) = span_size d - 16"
    using m(5) assms(6) by (simp add: word_unat_eq_iff unsigned_ucast_eq take_bit_eq_mod unat_mod_distrib)
  then show ?thesis using assms(1,2,3) m(3,4) by (simp add: forward_to_vsomeip_def)
qed

text \<open>The message the gateway writes for a sample.\<close>

lemma local_header_written:
  assumes "16 \<le> unat (span_size d)"
  shows "\<exists>hdr mem1. put_bytes d (local_header_start st e) (0, mem) = Ok (4, mem1)
    \<and> put_bytes d (local_header_rest st) (4 + 4, mem1) = Ok (16, memcpy (span_data d) hdr mem)
    \<and> length hdr = 16 \<and> take 4 hdr = local_header_start st e \<and> drop 8 hdr = local_header_rest st"
proof -
  let ?old = "map (\<lambda>i. mem (span_data d + of_nat (length (local_header_start st e) + i))) [0..<4]"
  let ?hdr = "local_header_start st e @ ?old @ local_header_rest st"
  let ?mem1 = "memcpy (span_data d) (local_header_start st e) mem"
  have "put_bytes d (local_header_start st e) (0, mem) = Ok (4, ?mem1)"
    using put_bytes_Ok [of 0 "local_header_start st e" d mem] assms by simp
  moreover have "memcpy (span_data d + 8) (local_header_rest st) ?mem1 = memcpy (span_data d) ?hdr mem"
    using memcpy_skip [of "local_header_start st e" "local_header_rest st" 4 "span_data d" mem] by simp
  then have "put_bytes d (local_header_rest st) (4 + 4, ?mem1) = Ok (16, memcpy (span_data d) ?hdr mem)"
    using put_bytes_Ok [of 8 "local_header_rest st" d ?mem1] assms by simp
  moreover have "length ?hdr = 16 \<and> take 4 ?hdr = local_header_start st e \<and> drop 8 ?hdr = local_header_rest st"
    by simp
  ultimately show ?thesis by blast
qed

text \<open>A message of header and data that fits is what the shrunk payload holds.\<close>

lemma message_payload:
  assumes "payload_wf p" "payload_data p = Ok d" "length hdr = 16" "16 + length msg \<le> unat (span_size d)"
  shows "\<exists>p1 d1. payload_shrink (16 + of_nat (length msg)) p = Ok (True, p1) \<and> payload_data p1 = Ok d1
    \<and> span_bytes (memcpy (span_data d + 16) msg (memcpy (span_data d) hdr mem)) d1 = hdr @ msg"
proof -
  let ?n = "16 + of_nat (length msg) :: size_t"
  have small: "16 + length msg < 2 ^ 64" using assms(4) unsigned_less [of "span_size d", where ?'a = nat] by simp
  then have n: "unat ?n = 16 + length msg" by (simp add: unat_word_ariths unat_of_nat_small)
  then obtain p1 where "payload_shrink ?n p = Ok (True, p1)" "payload_data p1 = Ok \<lparr>span_data = span_data d, span_size = ?n\<rparr>"
    using payload_shrink_data [OF assms(1,2), of ?n] assms(4) by auto
  moreover have "memcpy (span_data d + 16) msg (memcpy (span_data d) hdr mem) = memcpy (span_data d) (hdr @ msg) mem"
    using memcpy_append [of hdr msg "span_data d" mem] assms(3) small by simp
  moreover have "span_bytes (memcpy (span_data d) (hdr @ msg) mem) \<lparr>span_data = span_data d, span_size = ?n\<rparr> = hdr @ msg"
    using span_bytes_memcpy [of "hdr @ msg" 0 ?n "span_data d" mem] n assms(3) small by simp
  ultimately show ?thesis by auto
qed

text \<open>An event of a server whose subscriber supplies a payload.\<close>

definition event_payload ::
    "(client_ref \<Rightarrow> (Server_connector_error, 'cb Payload) result) \<Rightarrow> server_ref \<Rightarrow> Event_id \<Rightarrow> 'cb Payload Runtime
      \<Rightarrow> (client_ref \<times> 'cb Payload) option" where
  "event_payload answer s eid rt =
    (case map_of (rt_servers rt) s of
       None \<Rightarrow> None
     | Some sc \<Rightarrow>
         if eid < def_num_events (sc_configuration sc)
         then (case sc_subscriber sc ! unat eid of
             None \<Rightarrow> None
           | Some c \<Rightarrow> (case answer c of Err e \<Rightarrow> None | Ok p \<Rightarrow> Some (c, p)))
         else None)"

lemma event_payloadD:
  assumes "event_payload answer s eid rt = Some (c, p)"
  obtains sc where "map_of (rt_servers rt) s = Some sc" "sc_allocate_event_payload answer eid sc = Ok p"
    "\<And>p'. rt_update_event s eid p' rt = Ok (Ok (), rt_emit [Client_event_update c eid p'] rt)"
  using assms that
  by (auto simp: event_payload_def sc_allocate_event_payload_def rt_update_event_def sc_update_event_def not_le
      split: option.splits if_splits sum.splits)

lemma local_sample_written:
  assumes "event_payload answer (li_server li) (lctx_socom_event_id ctx) rt = Some (c, p)"
    and "payload_wf p" "payload_data p = Ok d"
    and "unat (psd_size obj) \<le> length (psd_data obj)" "16 + unat (psd_size obj) \<le> unat (span_size d)"
  shows "\<exists>p1 d1 mem1 hdr. on_local_sample answer li ctx (Some obj) (released, mem, rt)
        = Ok (released, mem1, rt_emit [Client_event_update c (lctx_socom_event_id ctx) p1] rt)
    \<and> payload_data p1 = Ok d1 \<and> span_bytes mem1 d1 = hdr @ take (unat (psd_size obj)) (psd_data obj) \<and> length hdr = 16
    \<and> take 4 hdr = local_header_start (li_type_config li) (lctx_config ctx) \<and> drop 8 hdr = local_header_rest (li_type_config li)"
proof -
  let ?msg = "take (unat (psd_size obj)) (psd_data obj)"
  obtain sc where sc: "map_of (rt_servers rt) (li_server li) = Some sc"
    "sc_allocate_event_payload answer (lctx_socom_event_id ctx) sc = Ok p"
    "\<And>p'. rt_update_event (li_server li) (lctx_socom_event_id ctx) p' rt
        = Ok (Ok (), rt_emit [Client_event_update c (lctx_socom_event_id ctx) p'] rt)"
    by (rule event_payloadD [OF assms(1)]) (rule that)
  have "16 \<le> unat (span_size d)" using assms(5) by simp
  from local_header_written [OF this, of "li_type_config li" "lctx_config ctx" mem] obtain hdr mem1 where
    hdr: "put_bytes d (local_header_start (li_type_config li) (lctx_config ctx)) (0, mem) = Ok (4, mem1)"
      "put_bytes d (local_header_rest (li_type_config li)) (4 + 4, mem1) = Ok (16, memcpy (span_data d) hdr mem)"
      "length hdr = 16" "take 4 hdr = local_header_start (li_type_config li) (lctx_config ctx)"
      "drop 8 hdr = local_header_rest (li_type_config li)"
    by blast
  have len: "length ?msg = unat (psd_size obj)" using assms(4) by simp
  then have "of_nat (length ?msg) = psd_size obj" by (simp only: of_nat_unat ucast_id)
  then obtain p1 d1 where
    p1: "payload_shrink (16 + psd_size obj) p = Ok (True, p1)" "payload_data p1 = Ok d1"
      "span_bytes (memcpy (span_data d + 16) ?msg (memcpy (span_data d) hdr mem)) d1 = hdr @ ?msg"
    using message_payload [OF assms(2,3) hdr(3), of ?msg mem] assms(5) len by auto
  have "psd_size obj \<le> span_size d - 16" using assms(5) by (simp add: word_le_nat_alt unat_sub)
  from serialize_ok [OF this assms(4), of "lctx_serializer ctx" "span_data d + 16" "memcpy (span_data d) hdr mem"]
  have "on_local_sample answer li ctx (Some obj) (released, mem, rt)
      = Ok (released, memcpy (span_data d + 16) ?msg (memcpy (span_data d) hdr mem),
          rt_emit [Client_event_update c (lctx_socom_event_id ctx) p1] rt)"
    using sc assms(3) hdr(1,2) p1(1) by (simp add: on_local_sample_def Let_def)
  then show ?thesis using p1(2,3) hdr(3-5) by blast
qed

subsection \<open>Event contexts\<close>

text \<open>A context describes the event at its position in the configuration, with the serializer of that event.\<close>

definition event_at :: "Root option \<Rightarrow> string \<Rightarrow> Event_config list \<Rightarrow> Event_id \<Rightarrow> Event_config \<Rightarrow> string \<Rightarrow> score_com_serializer option \<Rightarrow> bool" where
  "event_at plugin service_type_name events eid e name ser \<longleftrightarrow>
    unat eid < length events \<and> events ! unat eid = e \<and> ev_event_name e = Some name
    \<and> ser = lookup_serialization_config plugin service_type_name element_type_event name \<and> ser \<noteq> None"

lemma serializer_get_ok:
  "score_com_serializer_get plugin stn et en True = (serializer_result_ok, ser) \<longleftrightarrow>
    ser = lookup_serialization_config plugin stn et en \<and> ser \<noteq> None"
  by (auto simp: score_com_serializer_get_def split: option.splits)

lemma emplace_cases:
  "emplace k v m = (m', v') \<Longrightarrow> (m' = m \<and> map_of m k = Some v') \<or> (m' = m @ [(k, v)] \<and> v' = v \<and> map_of m k = None)"
  by (auto simp: emplace_def split: option.splits)

definition local_contexts_ok :: "Root option \<Rightarrow> string \<Rightarrow> Event_config list \<Rightarrow> (string, Local_event_context) assoc \<Rightarrow> proxy_call list \<Rightarrow> bool" where
  "local_contexts_ok plugin stn events ctxs calls \<longleftrightarrow>
    (\<forall>(name, ctx) \<in> set ctxs. event_at plugin stn events (lctx_socom_event_id ctx) (lctx_config ctx) name (lctx_serializer ctx))
    \<and> (\<forall>name ctx. SetReceiveHandler name ctx \<in> set calls \<longrightarrow> (name, ctx) \<in> set ctxs)"

lemma local_event_step_ok:
  assumes "local_event_step plugin proxy_events st e (eid, ctxs, calls) = Ok (eid', ctxs', calls')"
    and "st_service_type_name st = Some stn" "unat eid < length events" "events ! unat eid = e"
    and "local_contexts_ok plugin stn events ctxs calls"
  shows "eid' = eid + 1 \<and> local_contexts_ok plugin stn events ctxs' calls'"
proof -
  obtain name where name: "ev_event_name e = Some name"
    using assms(1) by (cases "ev_event_name e") (simp_all add: local_event_step_def)
  obtain r ser where get: "score_com_serializer_get plugin stn element_type_event name True = (r, ser)" by fastforce
  show ?thesis
  proof (cases "name \<in> set proxy_events \<and> r = serializer_result_ok")
    case False
    then show ?thesis using assms(1,2,5) name get by (auto simp: local_event_step_def split: if_splits)
  next
    case True
    let ?new = "\<lparr>lctx_config = e, lctx_serializer = ser, lctx_socom_event_id = eid\<rparr>"
    obtain ctxs2 ctx where em: "emplace name ?new ctxs = (ctxs2, ctx)" by fastforce
    have res: "eid' = eid + 1" "ctxs' = ctxs2"
      "calls' = calls @ [SetReceiveHandler name ctx, Proxy_Subscribe name kMaxSampleCount]"
      using assms(1,2) name get True em by (auto simp: local_event_step_def)
    have new: "event_at plugin stn events eid e name ser"
      using get True assms(3,4) name by (auto simp: event_at_def serializer_get_ok)
    from emplace_cases [OF em] consider "ctxs2 = ctxs" "(name, ctx) \<in> set ctxs" | "ctxs2 = ctxs @ [(name, ?new)]" "ctx = ?new"
      by (auto dest: map_of_SomeD)
    then show ?thesis using assms(5) res new
      by cases (auto simp: local_contexts_ok_def)
  qed
qed

lemma local_events_ok:
  assumes "fold_run (local_event_step plugin proxy_events st) es (of_nat k, ctxs, calls) = Ok (n, ctxs', calls')"
    and "st_service_type_name st = Some stn" "drop k events = es" "k + length es = length events" "length events < 2 ^ 16"
    and "local_contexts_ok plugin stn events ctxs calls"
  shows "local_contexts_ok plugin stn events ctxs' calls'"
  using assms(1,3,4,6)
proof (induction es arbitrary: k ctxs calls)
  case Nil
  then show ?case by simp
next
  case (Cons e es)
  from Cons.prems(1) obtain eid1 ctxs1 calls1 where
    step: "local_event_step plugin proxy_events st e (of_nat k, ctxs, calls) = Ok (eid1, ctxs1, calls1)"
    and rest: "fold_run (local_event_step plugin proxy_events st) es (eid1, ctxs1, calls1) = Ok (n, ctxs', calls')"
    by (auto elim!: and_then_OkE)
  have k: "unat (of_nat k :: Event_id) = k" using Cons.prems(3) assms(5) by (simp add: unat_of_nat_small)
  have e: "k < length events" "events ! k = e" "drop (Suc k) events = es"
    using Cons.prems(2,3) by (simp_all add: nth_via_drop drop_Suc) (metis drop_Suc list.sel(3) tl_drop)
  have "eid1 = of_nat k + 1 \<and> local_contexts_ok plugin stn events ctxs1 calls1"
    using local_event_step_ok [OF step assms(2)] k e(1,2) Cons.prems(4) by simp
  then show ?case using Cons.IH [of "Suc k" ctxs1 calls1] rest e(3) Cons.prems(3) by (simp add: add.commute)
qed

lemma local_instance_contexts:
  assumes "LocalServiceInstance_Create plugin si st proxy_events cred rt = Ok (Ok (li, calls), rt')"
    and "st_events st = Some events" "length events < 2 ^ 16" "SetReceiveHandler name ctx \<in> set calls"
  shows "li_type_config li = st \<and> li_instance_config li = si
    \<and> (\<exists>stn. st_service_type_name st = Some stn
        \<and> event_at plugin stn events (lctx_socom_event_id ctx) (lctx_config ctx) name (lctx_serializer ctx))"
proof -
  from assms(1) obtain iface stn where st: "service_identifier st = Ok iface" "st_service_type_name st = Some stn"
    by (auto simp: LocalServiceInstance_Create_def service_instance_name_def elim!: and_then_OkE)
  obtain r rt1 where mk: "make_server_connector all_server_callbacks
      (make_definition iface (to_num_of_methods 0) (to_num_of_events (of_nat (length events)))) stn cred rt = (r, rt1)" by fastforce
  from assms(1) st mk assms(2) obtain s rt2 n ctxs where
    li: "li = \<lparr>li_instance_config = si, li_type_config = st, li_server = s, li_event_contexts = ctxs\<rparr>"
    and loop: "fold_run (local_event_step plugin proxy_events st) events (0, [], []) = Ok (n, ctxs, calls)"
    by (auto simp: LocalServiceInstance_Create_def service_instance_name_def split: sum.splits elim!: and_then_OkE)
  have "local_contexts_ok plugin stn events ctxs calls"
    using local_events_ok [of plugin proxy_events st events 0 "[]" "[]" n ctxs calls stn events] loop st(2) assms(3)
    by (simp add: local_contexts_ok_def)
  then show ?thesis using assms(4) st(2) li by (auto simp: local_contexts_ok_def)
qed

subsection \<open>From a local application to the network\<close>

lemma local_path:
  fixes p :: "'cb Payload"
  assumes created: "LocalServiceInstance_Create plugin si st proxy_events cred rt0 = Ok (Ok (li, calls), rt1)"
    and events: "st_events st = Some events" "length events < 2 ^ 16" "SetReceiveHandler name ctx \<in> set calls"
    and subscribed: "event_payload answer (li_server li) (lctx_socom_event_id ctx) rt = Some (c, p)"
    and payload: "payload_wf p" "payload_data p = Ok d" "16 + unat (psd_size obj) \<le> unat (span_size d)"
    and sample: "unat (psd_size obj) \<le> length (psd_data obj)" "unat (psd_size obj) < 2 ^ 32"
  shows "\<exists>p1 d1 mem1. on_local_sample answer li ctx (Some obj) (released, mem, rt)
        = Ok (released, mem1, rt_emit [Client_event_update c (lctx_socom_event_id ctx) p1] rt)
    \<and> payload_data p1 = Ok d1
    \<and> take 4 (span_bytes mem1 d1) = be16 (st_service_id st) @ be16 (ev_event_id (lctx_config ctx))
    \<and> ev_event_name (lctx_config ctx) = Some name
    \<and> (\<forall>(p2 :: 'cb Payload) d2 mem2 cl. payload_data p2 = Ok d2 \<and> span_bytes mem2 d2 = span_bytes mem1 d1 \<longrightarrow>
         forward_to_vsomeip \<lparr>ln_instance_config = si, ln_type_config = st, ln_client = cl\<rparr> (lctx_socom_event_id ctx) p2 mem2
           = Ok ([Notify (st_service_id st) (si_instance_id si) (ev_event_id (lctx_config ctx))
                    (take (unat (psd_size obj)) (psd_data obj))], call_payload_destroyed p2))"
proof -
  from local_instance_contexts [OF created events] obtain stn where
    li: "li_type_config li = st" "li_instance_config li = si"
    and ev: "event_at plugin stn events (lctx_socom_event_id ctx) (lctx_config ctx) name (lctx_serializer ctx)" by blast
  from local_sample_written [OF subscribed payload(1,2) sample(1) payload(3), of released mem] obtain p1 d1 mem1 hdr where
    w: "on_local_sample answer li ctx (Some obj) (released, mem, rt)
        = Ok (released, mem1, rt_emit [Client_event_update c (lctx_socom_event_id ctx) p1] rt)" "payload_data p1 = Ok d1"
      "span_bytes mem1 d1 = hdr @ take (unat (psd_size obj)) (psd_data obj)" "length hdr = 16"
      "take 4 hdr = local_header_start st (lctx_config ctx)"
    using li by blast
  have "forward_to_vsomeip \<lparr>ln_instance_config = si, ln_type_config = st, ln_client = cl\<rparr> (lctx_socom_event_id ctx) p2 mem2
      = Ok ([Notify (st_service_id st) (si_instance_id si) (ev_event_id (lctx_config ctx))
               (take (unat (psd_size obj)) (psd_data obj))], call_payload_destroyed p2)"
    if "payload_data p2 = Ok d2 \<and> span_bytes mem2 d2 = span_bytes mem1 d1" for p2 :: "'cb Payload" and d2 mem2 cl
    using forward_to_vsomeip_notifies [of "\<lparr>ln_instance_config = si, ln_type_config = st, ln_client = cl\<rparr>" events
        "lctx_socom_event_id ctx" p2 d2 mem2 hdr] that w(3,4) ev events(1) sample
    by (simp add: event_at_def)
  moreover have "take 4 (span_bytes mem1 d1) = be16 (st_service_id st) @ be16 (ev_event_id (lctx_config ctx))"
    using w(3-5) by (simp add: local_header_start_def)
  ultimately show ?thesis using w(1,2) ev
    by (intro exI [of _ p1] exI [of _ d1] exI [of _ mem1] conjI allI impI) (simp_all add: event_at_def)
qed

text \<open>C18. A sample of a local application that fits into the payload of the subscribed client is sent
  on the network unchanged, as the event, service and instance of the configuration it belongs to: the
  gateway passes a payload with SOME/IP header and sample to SOCom, and from a payload with these
  bytes the other daemon notifies exactly the sample.\<close>

theorem local_event_path:
  fixes p :: "'cb Payload"
  assumes created: "LocalServiceInstance_Create plugin si st proxy_events cred rt0 = Ok (Ok (li, calls), rt1)"
    and events: "st_events st = Some events" "length events < 2 ^ 16" "SetReceiveHandler name ctx \<in> set calls"
    and subscribed: "event_payload answer (li_server li) (lctx_socom_event_id ctx) rt = Some (c, p)"
    and payload: "payload_wf p" "payload_data p = Ok d" "16 + unat (psd_size obj) \<le> unat (span_size d)"
    and sample: "unat (psd_size obj) \<le> length (psd_data obj)" "unat (psd_size obj) < 2 ^ 32"
  shows "\<exists>p1 d1 mem1. on_local_sample answer li ctx (Some obj) (released, mem, rt)
        = Ok (released, mem1, rt_emit [Client_event_update c (lctx_socom_event_id ctx) p1] rt)
    \<and> payload_data p1 = Ok d1
    \<and> take 4 (span_bytes mem1 d1) = be16 (st_service_id st) @ be16 (ev_event_id (lctx_config ctx))
    \<and> ev_event_name (lctx_config ctx) = Some name
    \<and> (\<forall>(p2 :: 'cb Payload) d2 mem2 cl. payload_data p2 = Ok d2 \<and> span_bytes mem2 d2 = span_bytes mem1 d1 \<longrightarrow>
         forward_to_vsomeip \<lparr>ln_instance_config = si, ln_type_config = st, ln_client = cl\<rparr> (lctx_socom_event_id ctx) p2 mem2
           = Ok ([Notify (st_service_id st) (si_instance_id si) (ev_event_id (lctx_config ctx))
                    (take (unat (psd_size obj)) (psd_data obj))], call_payload_destroyed p2))"
  by (rule local_path [OF assms])

text \<open>A server whose two events are subscribed, and a payload with room for 20 bytes of sample.\<close>

definition example_runtime :: "unit Payload Runtime" where
  "example_runtime = create_runtime\<lparr>rt_servers := [(0,
     (Server_connector_init \<lparr>def_interface = \<lparr>sii_id = ''S'', sii_version = \<lparr>major = 1, minor = 0\<rparr>\<rparr>, def_num_methods = 0, def_num_events = 2\<rparr>
       ''S'' \<lparr>uid = 0, gid = 0\<rparr>)\<lparr>sc_registered := True, sc_stop_block_token := True, sc_client := Some 1, sc_subscriber := [Some 1, Some 1]\<rparr>)]\<rparr>"

definition example_payload :: "unit Payload" where
  "example_payload = make_payload \<lparr>span_data = 4096, span_size = 36\<rparr> 0 () 0 0"

lemma example_payload_data:
  "payload_wf example_payload" "payload_data example_payload = Ok \<lparr>span_data = 4096, span_size = 36\<rparr>"
  by (simp_all add: example_payload_def payload_wf_def make_payload_def payload_data_def subspan_from_def)

definition example_local :: "LocalServiceInstance \<times> proxy_call list" where
  "example_local =
    (let ctx = \<lparr>lctx_config = example_event ''b'' 0x8002 20, lctx_serializer = Some \<lparr>max_message_size = 20\<rparr>, lctx_socom_event_id = 1\<rparr> in
     (\<lparr>li_instance_config = example_instance, li_type_config = example_service, li_server = 0, li_event_contexts = [(''b'', ctx)]\<rparr>,
      [SetReceiveHandler ''b'' ctx, Proxy_Subscribe ''b'' 10]))"

lemma example_local_created:
  "\<exists>rt1. LocalServiceInstance_Create (Some example_root) example_instance example_service [''b''] \<lparr>uid = 0, gid = 0\<rparr> (create_runtime :: unit Payload Runtime)
    = Ok (Ok example_local, rt1)"
proof -
  have "(case LocalServiceInstance_Create (Some example_root) example_instance example_service [''b''] \<lparr>uid = 0, gid = 0\<rparr>
      (create_runtime :: unit Payload Runtime) of Ok (Ok l, rt1) \<Rightarrow> l = example_local | _ \<Rightarrow> False)"
    by code_simp
  then show ?thesis by (auto split: sum.splits prod.splits)
qed

theorem local_event_path_witness:
  "\<exists>p1 d1 mem1. on_local_sample (\<lambda>_. Ok example_payload) (fst example_local) (snd (hd (li_event_contexts (fst example_local))))
       (Some \<lparr>psd_size = 2, psd_data = [7, 9, 0]\<rparr>) ([], \<lambda>_. 0, example_runtime)
     = Ok ([], mem1, rt_emit [Client_event_update 1 1 p1] example_runtime)
    \<and> payload_data p1 = Ok d1
    \<and> forward_to_vsomeip \<lparr>ln_instance_config = example_instance, ln_type_config = example_service, ln_client = None\<rparr> 1 p1 mem1
        = Ok ([Notify 0x1234 3 0x8002 [7, 9]], call_payload_destroyed p1)"
proof -
  let ?ctx = "snd (hd (li_event_contexts (fst example_local)))" and ?obj = "\<lparr>psd_size = 2, psd_data = [7, 9, 0]\<rparr>"
  obtain rt1 :: "unit Payload Runtime" where
    c: "LocalServiceInstance_Create (Some example_root) example_instance example_service [''b''] \<lparr>uid = 0, gid = 0\<rparr> create_runtime
      = Ok (Ok (fst example_local, snd example_local), rt1)"
    using example_local_created by auto
  have ev: "st_events example_service = Some [example_event ''a'' 0x8001 8, example_event ''b'' 0x8002 20]"
    "length [example_event ''a'' 0x8001 8, example_event ''b'' 0x8002 20] < 2 ^ 16" "SetReceiveHandler ''b'' ?ctx \<in> set (snd example_local)"
    by (simp_all add: example_service_def example_local_def Let_def)
  have s: "event_payload (\<lambda>_. Ok example_payload) (li_server (fst example_local)) (lctx_socom_event_id ?ctx) example_runtime = Some (1, example_payload)"
    by (simp add: event_payload_def example_local_def example_runtime_def Server_connector_init_def Let_def)
  have "16 + unat (psd_size ?obj) \<le> unat (span_size \<lparr>span_data = 4096, span_size = 36\<rparr>)"
    "unat (psd_size ?obj) \<le> length (psd_data ?obj)" "unat (psd_size ?obj) < 2 ^ 32" by simp_all
  from local_event_path [OF c ev s example_payload_data this, of "[]" "\<lambda>_. 0"] obtain p1 d1 mem1 where
    w: "on_local_sample (\<lambda>_. Ok example_payload) (fst example_local) ?ctx (Some ?obj) ([], \<lambda>_. 0, example_runtime)
        = Ok ([], mem1, rt_emit [Client_event_update 1 (lctx_socom_event_id ?ctx) p1] example_runtime)" "payload_data p1 = Ok d1"
      "forward_to_vsomeip \<lparr>ln_instance_config = example_instance, ln_type_config = example_service, ln_client = None\<rparr> (lctx_socom_event_id ?ctx) p1 mem1
        = Ok ([Notify (st_service_id example_service) (si_instance_id example_instance) (ev_event_id (lctx_config ?ctx))
               (take (unat (psd_size ?obj)) (psd_data ?obj))], call_payload_destroyed p1)"
    by blast
  moreover have "lctx_socom_event_id ?ctx = 1" "ev_event_id (lctx_config ?ctx) = 0x8002" "st_service_id example_service = 0x1234"
    "si_instance_id example_instance = 3"
    by (simp_all add: example_local_def Let_def example_event_def example_service_def example_instance_def)
  ultimately show ?thesis by (intro exI [of _ p1] exI [of _ d1] exI [of _ mem1]) simp
qed

end
