(* ===== verification/Network_Path.thy ===== *)
theory Network_Path
  imports Event_Path Runtime_Invariant
begin

text \<open>
  The way of an event from the network to a local application, and what can go wrong on it: a message
  that is larger than the slot, and a service that is there when its client connector is created.
  Finally the offers made on the network.
\<close>

subsection \<open>Writing a network message\<close>

lemma network_message_written:
  assumes "event_payload answer (rn_server rn) eid rt = Some (c, p)"
    and "payload_wf p" "payload_data p = Ok d" "16 + length (msg_payload msg) \<le> unat (span_size d)"
  shows "\<exists>p1 d1 mem1. on_vsomeip_message answer rn eid evid msg (mem, rt) = Ok (mem1, rt_emit [Client_event_update c eid p1] rt)
    \<and> payload_data p1 = Ok d1 \<and> span_bytes mem1 d1 = network_header msg evid @ msg_payload msg"
proof -
  obtain sc where sc: "map_of (rt_servers rt) (rn_server rn) = Some sc" "sc_allocate_event_payload answer eid sc = Ok p"
    "\<And>p'. rt_update_event (rn_server rn) eid p' rt = Ok (Ok (), rt_emit [Client_event_update c eid p'] rt)"
    by (rule event_payloadD [OF assms(1)]) (rule that)
  let ?mem1 = "memcpy (span_data d) (network_header msg evid) mem"
  have "put_bytes d (network_header msg evid) (0, mem) = Ok (16, ?mem1)"
    using put_bytes_Ok [of 0 "network_header msg evid" d mem] assms(4) by simp
  moreover from message_payload [OF assms(2,3) header_lengths(3) assms(4), of msg evid mem] obtain p1 d1 where
    p1: "payload_shrink (16 + of_nat (length (msg_payload msg))) p = Ok (True, p1)" "payload_data p1 = Ok d1"
      "span_bytes (memcpy (span_data d + 16) (msg_payload msg) ?mem1) d1 = network_header msg evid @ msg_payload msg"
    by blast
  ultimately have "on_vsomeip_message answer rn eid evid msg (mem, rt)
      = Ok (memcpy (span_data d + 16) (msg_payload msg) ?mem1, rt_emit [Client_event_update c eid p1] rt)"
    using sc assms(3,4) by (simp add: on_vsomeip_message_def Let_def)
  then show ?thesis using p1(2,3) by blast
qed

text \<open>C20. The handler of network messages leaves the payload it was given exactly when header and message are
  larger than that payload: nothing else limits the size of a message.\<close>

theorem network_message_overflow:
  assumes "event_payload answer (rn_server rn) eid rt = Some (c, p)" "payload_wf p" "payload_data p = Ok d"
  shows "on_vsomeip_message answer rn eid evid msg (mem, rt) = Err Out_of_bounds \<longleftrightarrow> unat (span_size d) < 16 + length (msg_payload msg)"
proof (cases "unat (span_size d) < 16 + length (msg_payload msg)")
  case False
  then show ?thesis using network_message_written [OF assms, of msg evid mem] by auto
next
  case True
  obtain sc where sc: "map_of (rt_servers rt) (rn_server rn) = Some sc" "sc_allocate_event_payload answer eid sc = Ok p"
    by (rule event_payloadD [OF assms(1)]) (rule that)
  show ?thesis
  proof (cases "unat (span_size d) < 16")
    case short: True
    then have "put_bytes d (network_header msg evid) (0, mem) = Err Out_of_bounds"
      using put_bytes_Err [of 0 d "network_header msg evid" mem] by simp
    then show ?thesis using True sc assms(3) by (simp add: on_vsomeip_message_def)
  next
    case False
    then have "put_bytes d (network_header msg evid) (0, mem) = Ok (16, memcpy (span_data d) (network_header msg evid) mem)"
      using put_bytes_Ok [of 0 "network_header msg evid" d mem] by simp
    then show ?thesis using True sc assms(3) by (simp add: on_vsomeip_message_def)
  qed
qed

definition example_remote :: RemoteNetworkService where
  "example_remote = \<lparr>rn_instance_config = example_instance, rn_type_config = example_service, rn_server = 0\<rparr>"

definition example_message :: "u8 list \<Rightarrow> vsomeip_message" where
  "example_message bs = \<lparr>msg_service = 0x1234, msg_client = 0, msg_session = 1, msg_protocol_version = 1, msg_interface_version = 1,
     msg_message_type = 2, msg_return_code = 0, msg_payload = bs\<rparr>"

lemma example_event_payload:
  "event_payload (\<lambda>_. Ok example_payload) (rn_server example_remote) 1 example_runtime = Some (1, example_payload)"
  by (simp add: event_payload_def example_remote_def example_runtime_def Server_connector_init_def)

theorem network_message_overflow_witness:
  "on_vsomeip_message (\<lambda>_. Ok example_payload) example_remote 1 0x8002 (example_message (replicate 21 0)) (\<lambda>_. 0, example_runtime) = Err Out_of_bounds"
  using network_message_overflow [OF example_event_payload example_payload_data, of "0x8002" "example_message (replicate 21 0)" "\<lambda>_. 0"]
  by (simp add: example_message_def)

subsection \<open>Contexts of a remote instance\<close>

definition remote_contexts_ok ::
    "Root option \<Rightarrow> string \<Rightarrow> string list \<Rightarrow> Event_config list \<Rightarrow> (Event_id, Remote_event_context) assoc \<Rightarrow> bool" where
  "remote_contexts_ok plugin stn skeleton_events events ctxs \<longleftrightarrow>
    (\<forall>(eid, ctx) \<in> set ctxs. event_at plugin stn events eid (rctx_config ctx) (rctx_ipc_event ctx) (rctx_serializer ctx)
       \<and> rctx_ipc_event ctx \<in> set skeleton_events)"

lemma remote_event_step_ok:
  assumes "remote_event_step plugin skeleton_events stn e (eid, ctxs) = Ok (eid', ctxs')"
    and "unat eid < length events" "events ! unat eid = e" "remote_contexts_ok plugin stn skeleton_events events ctxs"
  shows "eid' = eid + 1 \<and> remote_contexts_ok plugin stn skeleton_events events ctxs'"
proof -
  obtain name where name: "ev_event_name e = Some name"
    using assms(1) by (cases "ev_event_name e") (simp_all add: remote_event_step_def)
  obtain r ser where get: "score_com_serializer_get plugin stn element_type_event name True = (r, ser)" by fastforce
  show ?thesis
  proof (cases "name \<in> set skeleton_events \<and> r = serializer_result_ok")
    case False
    then show ?thesis using assms(1,4) name get by (auto simp: remote_event_step_def split: if_splits)
  next
    case True
    let ?new = "\<lparr>rctx_config = e, rctx_serializer = ser, rctx_ipc_event = name\<rparr>"
    obtain ctxs2 ctx where em: "emplace eid ?new ctxs = (ctxs2, ctx)" by fastforce
    have res: "eid' = eid + 1" "ctxs' = ctxs2"
      using assms(1) name get True em by (auto simp: remote_event_step_def)
    have "event_at plugin stn events eid e name ser"
      using get True assms(2,3) name by (auto simp: event_at_def serializer_get_ok)
    then show ?thesis using emplace_cases [OF em] assms(4) res True by (auto simp: remote_contexts_ok_def)
  qed
qed

lemma remote_events_ok:
  assumes "fold_run (remote_event_step plugin skeleton_events stn) es (of_nat k, ctxs) = Ok (n, ctxs')"
    and "drop k events = es" "k + length es = length events" "length events < 2 ^ 16"
    and "remote_contexts_ok plugin stn skeleton_events events ctxs"
  shows "remote_contexts_ok plugin stn skeleton_events events ctxs'"
  using assms(1,2,3,5)
proof (induction es arbitrary: k ctxs)
  case Nil
  then show ?case by simp
next
  case (Cons e es)
  from Cons.prems(1) obtain eid1 ctxs1 where
    step: "remote_event_step plugin skeleton_events stn e (of_nat k, ctxs) = Ok (eid1, ctxs1)"
    and rest: "fold_run (remote_event_step plugin skeleton_events stn) es (eid1, ctxs1) = Ok (n, ctxs')"
    by (auto elim!: and_then_OkE)
  have k: "unat (of_nat k :: Event_id) = k" using Cons.prems(3) assms(4) by (simp add: unat_of_nat_small)
  have e: "k < length events" "events ! k = e" "drop (Suc k) events = es"
    using Cons.prems(2,3) by (simp_all add: nth_via_drop drop_Suc) (metis drop_Suc list.sel(3) tl_drop)
  have "eid1 = of_nat k + 1 \<and> remote_contexts_ok plugin stn skeleton_events events ctxs1"
    using remote_event_step_ok [OF step] k e(1,2) Cons.prems(4) by simp
  then show ?case using Cons.IH [of "Suc k" ctxs1] rest e(3) Cons.prems(3) by (simp add: add.commute)
qed

lemma remote_instance_contexts:
  assumes "RemoteServiceInstance_Create plugin si st offered skeleton_events cred rt = Ok (Ok ri, rt')"
    and "st_events st = Some events" "length events < 2 ^ 16" "map_of (ri_event_contexts ri) eid = Some ctx"
  shows "ri_skeleton_events ri = skeleton_events \<and> rctx_ipc_event ctx \<in> set skeleton_events
    \<and> (\<exists>stn. event_at plugin stn events eid (rctx_config ctx) (rctx_ipc_event ctx) (rctx_serializer ctx))"
proof -
  from assms(1,2) obtain stn n ctxs where
    ri: "ri_skeleton_events ri = skeleton_events" "ri_event_contexts ri = ctxs"
    and loop: "fold_run (remote_event_step plugin skeleton_events stn) events (0, []) = Ok (n, ctxs)"
    by (auto simp: RemoteServiceInstance_Create_def Let_def split: if_splits sum.splits elim!: and_then_OkE)
  have "remote_contexts_ok plugin stn skeleton_events events ctxs"
    using remote_events_ok [of plugin skeleton_events stn events 0 "[]" n ctxs events] loop assms(3)
    by (simp add: remote_contexts_ok_def)
  then show ?thesis using assms(4) ri by (auto simp: remote_contexts_ok_def dest!: map_of_SomeD)
qed

lemma forward_event_sends:
  assumes "map_of (ri_event_contexts ri) eid = Some ctx" "ev_event_name (rctx_config ctx) = Some name" "name \<in> set (ri_skeleton_events ri)"
    and "rctx_serializer ctx = Some cfg" "payload_data p = Ok d" "span_bytes mem d = hdr @ msg" "length hdr = 16"
    and "length msg \<le> unat (max_message_size cfg)" "alloc name = Some sample" "unat (max_message_size cfg) \<le> length (psd_data sample)"
  shows "forward_event alloc ri eid p mem =
    Ok (Some (name, \<lparr>psd_size = of_nat (length msg), psd_data = msg @ drop (length msg) (psd_data sample)\<rparr>), call_payload_destroyed p)"
proof -
  note m = message_behind_header [OF assms(6,7)]
  have "span_size d - 16 \<le> ucast (max_message_size cfg)" using m(5) assms(8) by (simp add: word_le_nat_alt unat_ucast_32)
  note de = deserialize_ok [OF this assms(10), of "span_data d + 16" mem]
  have n: "(of_nat (length msg) :: size_t) = span_size d - 16" by (simp only: m(5) [symmetric] of_nat_unat ucast_id)
  have "score_com_serializer_deserialize (rctx_serializer ctx) (Some (span_data d + 16)) (span_size d - 16) (Some sample) mem
      = Ok (serializer_result_ok, Some \<lparr>psd_size = of_nat (length msg), psd_data = msg @ drop (length msg) (psd_data sample)\<rparr>)"
    by (simp only: assms(4) de m(4) m(5) n)
  then show ?thesis using m(2) assms(1,2,3,5,9) by (simp add: forward_event_def)
qed

subsection \<open>From the network to a local application\<close>

lemma handler_registered:
  assumes "setup_vsomeip rn = Ok calls" "st_events (rn_type_config rn) = Some events" "length events < 2 ^ 16"
    and "Register_message_handler sid iid evid eid \<in> set calls"
  shows "sid = st_service_id (rn_type_config rn) \<and> iid = si_instance_id (rn_instance_config rn)
    \<and> unat eid < length events \<and> evid = ev_event_id (events ! unat eid)"
proof -
  from assms(1,2,4) obtain i where i: "i < length events" "sid = st_service_id (rn_type_config rn)"
    "iid = si_instance_id (rn_instance_config rn)" "evid = ev_event_id (events ! i)" "eid = of_nat i"
    by (auto simp: setup_vsomeip_def Let_def)
  moreover have "unat (of_nat i :: Event_id) = i" using i(1) assms(3) by (simp add: unat_of_nat_small)
  ultimately show ?thesis by simp
qed

lemma network_path:
  fixes p :: "'cb Payload"
  assumes registered: "setup_vsomeip rn = Ok calls" "Register_message_handler sid iid evid eid \<in> set calls"
    and config: "rn_type_config rn = st" "st_events st = Some events" "length events < 2 ^ 16"
    and subscribed: "event_payload answer (rn_server rn) eid rt = Some (c, p)"
    and payload: "payload_wf p" "payload_data p = Ok d" "16 + length (msg_payload msg) \<le> unat (span_size d)"
    and created: "RemoteServiceInstance_Create plugin si st offered skeleton_events cred rt0 = Ok (Ok ri, rt1)"
    and ctx: "map_of (ri_event_contexts ri) eid = Some ctx" "rctx_serializer ctx = Some cfg"
      "length (msg_payload msg) \<le> unat (max_message_size cfg)"
    and alloc: "alloc (rctx_ipc_event ctx) = Some sample" "unat (max_message_size cfg) \<le> length (psd_data sample)"
  shows "\<exists>p1 d1 mem1. on_vsomeip_message answer rn eid evid msg (mem, rt) = Ok (mem1, rt_emit [Client_event_update c eid p1] rt)
    \<and> payload_data p1 = Ok d1
    \<and> evid = ev_event_id (events ! unat eid) \<and> ev_event_name (events ! unat eid) = Some (rctx_ipc_event ctx)
    \<and> (\<forall>(p2 :: 'cb Payload) d2 mem2. payload_data p2 = Ok d2 \<and> span_bytes mem2 d2 = span_bytes mem1 d1 \<longrightarrow>
         forward_event alloc ri eid p2 mem2
           = Ok (Some (rctx_ipc_event ctx, \<lparr>psd_size = of_nat (length (msg_payload msg)),
                   psd_data = msg_payload msg @ drop (length (msg_payload msg)) (psd_data sample)\<rparr>), call_payload_destroyed p2))"
proof -
  have ev: "evid = ev_event_id (events ! unat eid)"
    using handler_registered [OF registered(1) _ config(3) registered(2)] config(1,2) by simp
  from remote_instance_contexts [OF created config(2,3) ctx(1)] obtain stn where
    ri: "ri_skeleton_events ri = skeleton_events" "rctx_ipc_event ctx \<in> set skeleton_events"
    and at: "event_at plugin stn events eid (rctx_config ctx) (rctx_ipc_event ctx) (rctx_serializer ctx)" by blast
  then have name: "ev_event_name (rctx_config ctx) = Some (rctx_ipc_event ctx)" "events ! unat eid = rctx_config ctx"
    by (simp_all add: event_at_def)
  from network_message_written [OF subscribed payload, of evid mem] obtain p1 d1 mem1 where
    w: "on_vsomeip_message answer rn eid evid msg (mem, rt) = Ok (mem1, rt_emit [Client_event_update c eid p1] rt)"
      "payload_data p1 = Ok d1" "span_bytes mem1 d1 = network_header msg evid @ msg_payload msg" by blast
  have "forward_event alloc ri eid p2 mem2
      = Ok (Some (rctx_ipc_event ctx, \<lparr>psd_size = of_nat (length (msg_payload msg)),
              psd_data = msg_payload msg @ drop (length (msg_payload msg)) (psd_data sample)\<rparr>), call_payload_destroyed p2)"
    if "payload_data p2 = Ok d2 \<and> span_bytes mem2 d2 = span_bytes mem1 d1" for p2 :: "'cb Payload" and d2 mem2
    using that ri w(3)
    by (intro forward_event_sends [where alloc = alloc and hdr = "network_header msg evid", OF ctx(1) name(1) _ ctx(2) _ _ header_lengths(3) ctx(3) alloc]) auto
  then show ?thesis using w(1,2) ev name
    by (intro exI [of _ p1] exI [of _ d1] exI [of _ mem1] conjI allI impI) simp_all
qed

text \<open>C19. A network message that fits into the payload and is within the configured size reaches the local
  application unchanged: the handler registered for the event passes a payload with header and message to SOCom, and
  from a payload with these bytes the gateway sends a sample with exactly the message as the event of the same
  configuration entry.\<close>

theorem network_event_path:
  fixes p :: "'cb Payload"
  assumes registered: "setup_vsomeip rn = Ok calls" "Register_message_handler sid iid evid eid \<in> set calls"
    and config: "rn_type_config rn = st" "st_events st = Some events" "length events < 2 ^ 16"
    and subscribed: "event_payload answer (rn_server rn) eid rt = Some (c, p)"
    and payload: "payload_wf p" "payload_data p = Ok d" "16 + length (msg_payload msg) \<le> unat (span_size d)"
    and created: "RemoteServiceInstance_Create plugin si st offered skeleton_events cred rt0 = Ok (Ok ri, rt1)"
    and ctx: "map_of (ri_event_contexts ri) eid = Some ctx" "rctx_serializer ctx = Some cfg"
      "length (msg_payload msg) \<le> unat (max_message_size cfg)"
    and alloc: "alloc (rctx_ipc_event ctx) = Some sample" "unat (max_message_size cfg) \<le> length (psd_data sample)"
  shows "\<exists>p1 d1 mem1. on_vsomeip_message answer rn eid evid msg (mem, rt) = Ok (mem1, rt_emit [Client_event_update c eid p1] rt)
    \<and> payload_data p1 = Ok d1
    \<and> evid = ev_event_id (events ! unat eid) \<and> ev_event_name (events ! unat eid) = Some (rctx_ipc_event ctx)
    \<and> (\<forall>(p2 :: 'cb Payload) d2 mem2. payload_data p2 = Ok d2 \<and> span_bytes mem2 d2 = span_bytes mem1 d1 \<longrightarrow>
         forward_event alloc ri eid p2 mem2
           = Ok (Some (rctx_ipc_event ctx, \<lparr>psd_size = of_nat (length (msg_payload msg)),
                   psd_data = msg_payload msg @ drop (length (msg_payload msg)) (psd_data sample)\<rparr>), call_payload_destroyed p2))"
  by (rule network_path [where alloc = alloc, OF assms])

definition example_remote_instance :: RemoteServiceInstance where
  "example_remote_instance = \<lparr>ri_instance_config = example_instance, ri_type_config = example_service, ri_skeleton_events = [''b''], ri_client = Some 0,
     ri_event_contexts = [(1, \<lparr>rctx_config = example_event ''b'' 0x8002 20, rctx_serializer = Some \<lparr>max_message_size = 20\<rparr>, rctx_ipc_event = ''b''\<rparr>)]\<rparr>"

lemma example_remote_created:
  "\<exists>rt1. RemoteServiceInstance_Create (Some example_root) example_instance example_service True [''b''] \<lparr>uid = 0, gid = 0\<rparr>
      (create_runtime :: unit Payload Runtime) = Ok (Ok example_remote_instance, rt1)"
proof -
  have "(case RemoteServiceInstance_Create (Some example_root) example_instance example_service True [''b''] \<lparr>uid = 0, gid = 0\<rparr>
      (create_runtime :: unit Payload Runtime) of Ok (Ok ri, rt1) \<Rightarrow> ri = example_remote_instance | _ \<Rightarrow> False)"
    by code_simp
  then show ?thesis by (auto split: sum.splits prod.splits)
qed

lemma example_remote_handler:
  "\<exists>calls. setup_vsomeip example_remote = Ok calls \<and> Register_message_handler 0x1234 3 0x8002 1 \<in> set calls"
  by (simp add: setup_vsomeip_def example_remote_def example_service_def example_instance_def example_event_def Let_def upt_rec)

theorem network_event_path_witness:
  "\<exists>p1 mem1. on_vsomeip_message (\<lambda>_. Ok example_payload) example_remote 1 0x8002 (example_message [7, 9]) (\<lambda>_. 0, example_runtime)
      = Ok (mem1, rt_emit [Client_event_update 1 1 p1] example_runtime)
    \<and> forward_event (\<lambda>_. Some \<lparr>psd_size = 0, psd_data = replicate 20 0\<rparr>) example_remote_instance 1 p1 mem1
      = Ok (Some (''b'', \<lparr>psd_size = 2, psd_data = [7, 9] @ replicate 18 0\<rparr>), call_payload_destroyed p1)"
proof -
  let ?events = "[example_event ''a'' 0x8001 8, example_event ''b'' 0x8002 20]" and ?sample = "\<lparr>psd_size = 0, psd_data = replicate 20 0\<rparr>"
  let ?ctx = "\<lparr>rctx_config = example_event ''b'' 0x8002 20, rctx_serializer = Some \<lparr>max_message_size = 20\<rparr>, rctx_ipc_event = ''b''\<rparr>"
  obtain calls where calls: "setup_vsomeip example_remote = Ok calls" "Register_message_handler 0x1234 3 0x8002 1 \<in> set calls"
    using example_remote_handler by blast
  obtain rt1 :: "unit Payload Runtime" where cr: "RemoteServiceInstance_Create (Some example_root) example_instance example_service True [''b'']
      \<lparr>uid = 0, gid = 0\<rparr> create_runtime = Ok (Ok example_remote_instance, rt1)"
    using example_remote_created by blast
  have "\<exists>p1 d1 mem1. on_vsomeip_message (\<lambda>_. Ok example_payload) example_remote 1 0x8002 (example_message [7, 9]) (\<lambda>_. 0, example_runtime)
      = Ok (mem1, rt_emit [Client_event_update 1 1 p1] example_runtime)
    \<and> payload_data p1 = Ok d1
    \<and> (0x8002 :: u16) = ev_event_id (?events ! unat (1 :: Event_id)) \<and> ev_event_name (?events ! unat (1 :: Event_id)) = Some (rctx_ipc_event ?ctx)
    \<and> (\<forall>(p2 :: unit Payload) d2 mem2. payload_data p2 = Ok d2 \<and> span_bytes mem2 d2 = span_bytes mem1 d1 \<longrightarrow>
         forward_event (\<lambda>_. Some ?sample) example_remote_instance 1 p2 mem2
           = Ok (Some (rctx_ipc_event ?ctx, \<lparr>psd_size = of_nat (length (msg_payload (example_message [7, 9]))),
                   psd_data = msg_payload (example_message [7, 9]) @ drop (length (msg_payload (example_message [7, 9]))) (psd_data ?sample)\<rparr>),
               call_payload_destroyed p2))"
    by (rule network_event_path [where cfg = "\<lparr>max_message_size = 20\<rparr>" and events = ?events and ctx = ?ctx and sample = ?sample,
        OF calls _ _ _ example_event_payload example_payload_data _ cr])
      (simp_all add: example_remote_def example_service_def example_message_def example_remote_instance_def)
  then obtain p1 d1 mem1 where "on_vsomeip_message (\<lambda>_. Ok example_payload) example_remote 1 0x8002 (example_message [7, 9]) (\<lambda>_. 0, example_runtime)
      = Ok (mem1, rt_emit [Client_event_update 1 1 p1] example_runtime)"
    "forward_event (\<lambda>_. Some ?sample) example_remote_instance 1 p1 mem1
      = Ok (Some (rctx_ipc_event ?ctx, \<lparr>psd_size = of_nat (length (msg_payload (example_message [7, 9]))),
              psd_data = msg_payload (example_message [7, 9]) @ drop (length (msg_payload (example_message [7, 9]))) (psd_data ?sample)\<rparr>),
          call_payload_destroyed p1)"
    by blast
  moreover have "drop 2 (replicate 20 (0 :: u8)) = replicate 18 0" by simp
  ultimately show ?thesis by (intro exI [of _ p1] exI [of _ mem1]) (simp add: example_message_def)
qed

subsection \<open>A service that is there already\<close>

text \<open>A client whose service is enabled is told so before its constructor returns.\<close>

lemma connected_at_once:
  assumes "rec_client (db_record (def_interface cfg) inst (rt_database rt)) = None"
    and "rec_server (db_record (def_interface cfg) inst (rt_database rt)) = Some (i, s)"
    and "is_interface_compatible i (def_interface cfg)"
    and "map_of (rt_servers rt) s = Some sc" "sc_stop_block_token sc" "sc_client sc = None"
  shows "\<exists>rt1. make_client_connector all_client_callbacks cfg inst cred rt = Ok (Ok (rt_next rt), rt1)
    \<and> rt_log rt1 = rt_log rt @ [Client_state_change (rt_next rt) True (sc_configuration sc)]"
proof -
  let ?c = "rt_next rt"
  let ?cc = "\<lparr>cc_configuration = cfg, cc_instance = inst, cc_stop_block_token = True, cc_server = None, cc_registered = False,
              cc_requests = None, cc_credentials = cred\<rparr>"
  let ?rt1 = "rt\<lparr>rt_next := ?c + 1, rt_clients := AList.update ?c ?cc (rt_clients rt),
               rt_database := db_store (def_interface cfg) inst
                 ((db_record (def_interface cfg) inst (rt_database rt))\<lparr>rec_client := Some (def_interface cfg, ?c)\<rparr>) (rt_database rt)\<rparr>"
  note up = on_server_update_effect [of ?rt1 ?c ?cc s sc]
  show ?thesis using assms up
    by (simp add: make_client_connector_def all_client_callbacks_def is_valid_client_def rt_register_client_def Let_def
        is_interface_compatible_def map_of_update rt_emit_def)
qed

lemma subscribe_without_connector: "0 < n \<Longrightarrow> subscribe_events None n rt = Err Null_deref"
  by (simp add: subscribe_events_def upt_rec)

text \<open>C21. If a compatible server is enabled when the connector of a local network service is created, the
  callback that subscribes to the events runs before the service has its connector, and uses a null
  pointer; the source comment says that this cannot happen.\<close>

theorem callback_before_connector:
  assumes "service_identifier st = Ok iface" "st_events st = Some events" "events \<noteq> []"
    and "rec_client (db_record iface (sii_id iface) (rt_database rt)) = None"
    and "rec_server (db_record iface (sii_id iface) (rt_database rt)) = Some (i, s)" "is_interface_compatible i iface"
    and "map_of (rt_servers rt) s = Some sc" "sc_stop_block_token sc" "sc_client sc = None"
  shows "LocalNetworkService_Create si st cred rt = Err Null_deref"
proof -
  let ?cfg = "make_definition iface (to_num_of_methods 0) (to_num_of_events (of_nat (length events)))"
  have name: "service_instance_name st = Ok (sii_id iface)"
    using service_identifier_Ok [OF assms(1)] by (simp add: service_instance_name_def)
  obtain rt1 where "make_client_connector all_client_callbacks ?cfg (sii_id iface) cred rt = Ok (Ok (rt_next rt), rt1)"
    "rt_log rt1 = rt_log rt @ [Client_state_change (rt_next rt) True (sc_configuration sc)]"
    using connected_at_once [of ?cfg "sii_id iface" rt i s sc cred] assms(4-9) by (auto simp: make_definition_def)
  then show ?thesis using assms(1-3) name
    by (simp add: LocalNetworkService_Create_def local_on_service_state_change_def subscribe_without_connector Let_def)
qed

theorem callback_before_connector_witness:
  "case RemoteNetworkService_Create example_instance example_service \<lparr>uid = 0, gid = 0\<rparr> (create_runtime :: unit Runtime) of
     Ok (_, rt) \<Rightarrow> LocalNetworkService_Create example_instance example_service \<lparr>uid = 0, gid = 0\<rparr> rt = Err Null_deref
   | Err _ \<Rightarrow> False"
proof -
  let ?i = "\<lparr>sii_id = ''S'', sii_version = \<lparr>major = 1, minor = 0\<rparr>\<rparr>"
  let ?sc = "(Server_connector_init \<lparr>def_interface = ?i, def_num_methods = 0, def_num_events = 2\<rparr> ''S'' \<lparr>uid = 0, gid = 0\<rparr>)
    \<lparr>sc_stop_block_token := True, sc_registered := True\<rparr>"
  have "(case RemoteNetworkService_Create example_instance example_service \<lparr>uid = 0, gid = 0\<rparr> (create_runtime :: unit Runtime) of
      Ok (_, rt) \<Rightarrow> rec_client (db_record ?i ''S'' (rt_database rt)) = None
        \<and> rec_server (db_record ?i ''S'' (rt_database rt)) = Some (?i, 0) \<and> map_of (rt_servers rt) 0 = Some ?sc
    | _ \<Rightarrow> False)"
    by code_simp
  then obtain r and rt :: "unit Runtime" where
    rt: "RemoteNetworkService_Create example_instance example_service \<lparr>uid = 0, gid = 0\<rparr> create_runtime = Ok (r, rt)"
      "rec_client (db_record ?i ''S'' (rt_database rt)) = None" "rec_server (db_record ?i ''S'' (rt_database rt)) = Some (?i, 0)"
      "map_of (rt_servers rt) 0 = Some ?sc"
    by (cases "RemoteNetworkService_Create example_instance example_service \<lparr>uid = 0, gid = 0\<rparr> (create_runtime :: unit Runtime)") auto
  have "LocalNetworkService_Create example_instance example_service \<lparr>uid = 0, gid = 0\<rparr> rt = Err Null_deref"
    by (rule callback_before_connector [where iface = ?i and i = ?i and s = 0 and sc = ?sc
          and events = "[example_event ''a'' 0x8001 8, example_event ''b'' 0x8002 20]"])
      (use rt in \<open>simp_all add: service_identifier_def example_service_def is_interface_compatible_def is_minor_version_compatible_def
          Server_connector_init_def\<close>)
  then show ?thesis using rt(1) by simp
qed

subsection \<open>Offers\<close>

lemma fold_run_collect_Ok:
  assumes "\<And>x r. x \<in> set xs \<Longrightarrow> body x r = Ok (r @ f x)"
  shows "fold_run body xs r = Ok (r @ concat (map f xs))"
  using assms
proof (induction xs arbitrary: r)
  case Nil
  then show ?case by simp
next
  case (Cons x xs)
  then show ?case by simp
qed

text \<open>What an instance contributes, and the instances of a service type.\<close>

definition instance_offers :: "ServiceType \<Rightarrow> ServiceInstance \<Rightarrow> vsomeip_call list" where
  "instance_offers st si =
    map (\<lambda>e. Offer_event (st_service_id st) (si_instance_id si) (ev_event_id e) (eventgroups e)) (the (st_events st))
    @ [Offer_service_call (st_service_id st) (si_instance_id si) (st_service_version_major st)]"

definition local_instances :: "ServiceType \<Rightarrow> ServiceInstance list" where
  "local_instances st = (case st_local_service_instances st of None \<Rightarrow> [] | Some sis \<Rightarrow> sis)"

lemma SetupOfferings_eq:
  assumes "service_types config = Some sts" "\<forall>st \<in> set sts. local_instances st = [] \<or> st_events st \<noteq> None"
  shows "SetupOfferings config = Ok (concat (map (\<lambda>st. concat (map (instance_offers st) (local_instances st))) sts))"
proof -
  have offer: "offer_instance st si = Ok (instance_offers st si)" if "st_events st \<noteq> None" for st si
    using that by (auto simp: offer_instance_def instance_offers_def)
  have "(case st_local_service_instances st of None \<Rightarrow> Ok calls
      | Some sis \<Rightarrow> fold_run (\<lambda>si calls. and_then (offer_instance st si) (\<lambda>cs. Ok (calls @ cs))) sis calls)
    = Ok (calls @ concat (map (instance_offers st) (local_instances st)))" if st: "st \<in> set sts" for st calls
  proof (cases "st_events st = None")
    case True
    then have "local_instances st = []" using assms(2) st by blast
    then show ?thesis by (auto simp: local_instances_def split: option.splits)
  next
    case False
    show ?thesis
    proof (cases "st_local_service_instances st")
      case (Some sis)
      have "fold_run (\<lambda>si calls. and_then (offer_instance st si) (\<lambda>cs. Ok (calls @ cs))) sis calls
          = Ok (calls @ concat (map (instance_offers st) sis))"
        by (rule fold_run_collect_Ok) (simp add: offer [OF False])
      then show ?thesis using Some by (simp add: local_instances_def)
    qed (simp add: local_instances_def)
  qed
  then show ?thesis using assms(1)
    by (simp add: SetupOfferings_def) (subst fold_run_collect_Ok, assumption, simp)
qed

text \<open>When every service type with local instances has events, the offers succeed; each local instance is offered
  as a service after all its events, each event with at least one event group, and nothing
  else is offered as a service.\<close>

theorem offers_exact:
  assumes "service_types config = Some sts" "\<forall>st \<in> set sts. local_instances st = [] \<or> st_events st \<noteq> None"
  shows "\<exists>calls. SetupOfferings config = Ok calls
    \<and> (\<forall>st \<in> set sts. \<forall>si \<in> set (local_instances st). \<forall>events. st_events st = Some events \<longrightarrow>
         (\<exists>before after. calls = before @ Offer_service_call (st_service_id st) (si_instance_id si) (st_service_version_major st) # after
           \<and> (\<forall>e \<in> set events. Offer_event (st_service_id st) (si_instance_id si) (ev_event_id e) (eventgroups e) \<in> set before)))
    \<and> (\<forall>sid iid v. Offer_service_call sid iid v \<in> set calls \<longrightarrow>
         (\<exists>st \<in> set sts. \<exists>si \<in> set (local_instances st). sid = st_service_id st \<and> iid = si_instance_id si \<and> v = st_service_version_major st))
    \<and> (\<forall>sid iid evid groups. Offer_event sid iid evid groups \<in> set calls \<longrightarrow> groups \<noteq> {})"
proof -
  let ?calls = "concat (map (\<lambda>st. concat (map (instance_offers st) (local_instances st))) sts)"
  have "\<exists>before after. ?calls = before @ Offer_service_call (st_service_id st) (si_instance_id si) (st_service_version_major st) # after
      \<and> (\<forall>e \<in> set events. Offer_event (st_service_id st) (si_instance_id si) (ev_event_id e) (eventgroups e) \<in> set before)"
    if st: "st \<in> set sts" and si: "si \<in> set (local_instances st)" and ev: "st_events st = Some events" for st si events
  proof -
    obtain sts1 sts2 where s: "sts = sts1 @ st # sts2" using st by (meson split_list)
    obtain is1 is2 where i: "local_instances st = is1 @ si # is2" using si by (meson split_list)
    let ?events = "map (\<lambda>e. Offer_event (st_service_id st) (si_instance_id si) (ev_event_id e) (eventgroups e)) events"
    let ?before = "concat (map (\<lambda>st. concat (map (instance_offers st) (local_instances st))) sts1)
      @ concat (map (instance_offers st) is1) @ ?events"
    have "?calls = ?before @ Offer_service_call (st_service_id st) (si_instance_id si) (st_service_version_major st)
        # concat (map (instance_offers st) is2) @ concat (map (\<lambda>st. concat (map (instance_offers st) (local_instances st))) sts2)"
      by (simp add: s i instance_offers_def [of st si] ev)
    moreover have "\<forall>e \<in> set events. Offer_event (st_service_id st) (si_instance_id si) (ev_event_id e) (eventgroups e) \<in> set ?before"
      by simp
    ultimately show ?thesis by blast
  qed
  moreover have "groups \<noteq> {}" if "Offer_event sid iid evid groups \<in> set ?calls" for sid iid evid groups
    using that by (auto simp: instance_offers_def eventgroups_def split: option.splits if_splits)
  moreover have "\<exists>st \<in> set sts. \<exists>si \<in> set (local_instances st). sid = st_service_id st \<and> iid = si_instance_id si \<and> v = st_service_version_major st"
    if "Offer_service_call sid iid v \<in> set ?calls" for sid iid v
    using that by (auto simp: instance_offers_def)
  ultimately show ?thesis using SetupOfferings_eq [OF assms]
    by - (rule exI [of _ ?calls], intro conjI ballI allI impI, assumption, blast+)
qed

theorem offers_exact_witness:
  "\<exists>calls before after. SetupOfferings example_root = Ok calls \<and> calls = before @ Offer_service_call 0x1234 3 1 # after
    \<and> Offer_event 0x1234 3 0x8002 {0x8002} \<in> set before"
proof -
  have c: "service_types example_root = Some [example_service]"
    "\<forall>st \<in> set [example_service]. local_instances st = [] \<or> st_events st \<noteq> None"
    by (simp_all add: example_root_def example_service_def)
  obtain calls where calls: "SetupOfferings example_root = Ok calls"
    and all: "\<forall>st \<in> set [example_service]. \<forall>si \<in> set (local_instances st). \<forall>events. st_events st = Some events \<longrightarrow>
         (\<exists>before after. calls = before @ Offer_service_call (st_service_id st) (si_instance_id si) (st_service_version_major st) # after
           \<and> (\<forall>e \<in> set events. Offer_event (st_service_id st) (si_instance_id si) (ev_event_id e) (eventgroups e) \<in> set before))"
    using offers_exact [OF c] by blast
  have "example_instance \<in> set (local_instances example_service)"
    "st_events example_service = Some [example_event ''a'' 0x8001 8, example_event ''b'' 0x8002 20]"
    by (simp_all add: local_instances_def example_service_def)
  from all [THEN bspec, OF list.set_intros(1), THEN bspec, OF this(1), THEN spec, THEN mp, OF this(2)] calls show ?thesis
    by (auto simp: example_service_def example_instance_def example_event_def eventgroups_def)
qed

end
