(* ===== verification/Binding_Slots.thy ===== *)
theory Binding_Slots
  imports Binding_Properties
begin

text \<open>
  The shared memory blocks of a binding over all its executions: a block that a slot manager
  has been created for never changes its place, its path or its geometry, every manager is
  well formed, and what a peer has been told about the block of a connection (the local metadata
  in the connection table) stays true.

  The relation \<open>slots_step\<close> says what a piece of a handler may do to the managers and the
  connection table. It is reflexive and transitive, so one lemma per operation is enough.
\<close>

definition block_of :: "Slot_manager \<Rightarrow> string \<times> size_t \<times> size_t \<times> size_t" where
  "block_of m = (m_path m, m_slot_size m, m_slot_count m, m_base_address m)"

definition manager_of :: "Shared_memory_managers \<Rightarrow> Key_t \<Rightarrow> Slot_manager option" where
  "manager_of sms = map_of (sm_slot_managers sms)"

definition managers_ok :: "Shared_memory_managers \<Rightarrow> bool" where
  "managers_ok sms \<longleftrightarrow> (\<forall>k m. manager_of sms k = Some m \<longrightarrow> sm_wf m)"

definition blocks_kept :: "Shared_memory_managers \<Rightarrow> Shared_memory_managers \<Rightarrow> bool" where
  "blocks_kept sms sms' \<longleftrightarrow> (managers_ok sms \<longrightarrow> managers_ok sms')
     \<and> (\<forall>k m. manager_of sms k = Some m \<longrightarrow> (\<exists>m'. manager_of sms' k = Some m' \<and> block_of m' = block_of m))"

text \<open>The peer has been told the truth about the block of a connection.\<close>

definition announced :: "Shared_memory_managers \<Rightarrow> Ids \<Rightarrow> bool" where
  "announced sms ids \<longleftrightarrow> (\<exists>m. manager_of sms (ids_key ids) = Some m \<and> metadata_of_manager m = Ok (local_metadata ids))"

definition slots_step :: "Binding \<Rightarrow> Binding \<Rightarrow> bool" where
  "slots_step b b' \<longleftrightarrow> blocks_kept (b_slot_managers b) (b_slot_managers b')
     \<and> (\<forall>c ids. ids \<in> set (conns (b_id_mapping b') c) \<longrightarrow>
          ids \<in> set (conns (b_id_mapping b) c) \<or> announced (b_slot_managers b') ids)"

definition slots_ok :: "Binding \<Rightarrow> bool" where
  "slots_ok b \<longleftrightarrow> managers_ok (b_slot_managers b)
     \<and> (\<forall>c ids. ids \<in> set (conns (b_id_mapping b) c) \<longrightarrow> announced (b_slot_managers b) ids)"

subsection \<open>Managers\<close>

named_theorems blocks "operations that keep the blocks of the managers"

lemma blocks_kept_refl [blocks]: "blocks_kept sms sms"
  by (simp add: blocks_kept_def)

lemma blocks_kept_trans: "blocks_kept a b \<Longrightarrow> blocks_kept b c \<Longrightarrow> blocks_kept a c"
  unfolding blocks_kept_def by metis

lemma managers_unchanged:
  "sm_slot_managers sms' = sm_slot_managers sms \<Longrightarrow> blocks_kept sms sms'"
  by (simp add: blocks_kept_def managers_ok_def manager_of_def)

lemma managers_allocations [blocks]: "blocks_kept sms (sms\<lparr>sm_allocations := al\<rparr>)" "blocks_kept sms (sms\<lparr>sm_configuration := cfg\<rparr>)"
  by (simp_all add: managers_unchanged)

lemma blocks_kept_update:
  assumes "\<And>m0. manager_of sms k = Some m0 \<Longrightarrow> block_of m = block_of m0"
    and "managers_ok sms \<Longrightarrow> sm_wf m"
  shows "blocks_kept sms (sms\<lparr>sm_slot_managers := AList.update k m (sm_slot_managers sms)\<rparr>)"
  using assms by (auto simp: blocks_kept_def managers_ok_def manager_of_def update_conv')

lemma block_of_set_count [simp]: "block_of (set_count m i c) = block_of m"
  by (simp add: block_of_def)

lemma release_slot_block:
  "block_of (snd (release_slot h m)) = block_of m" "sm_wf m \<Longrightarrow> sm_wf (snd (release_slot h m))"
  by (auto simp: release_slot_def Let_def)

lemma allocate_slot_block:
  "block_of (snd (allocate_slot k m)) = block_of m" "sm_wf m \<Longrightarrow> sm_wf (snd (allocate_slot k m))"
  by (auto simp: allocate_slot_def split: option.splits)

lemma metadata_block: "block_of m' = block_of m \<Longrightarrow> metadata_of_manager m' = metadata_of_manager m"
  by (simp add: block_of_def metadata_of_manager_def get_path_def get_slot_size_def get_slot_count_def split: sum.splits)

lemma announced_kept: "announced sms ids \<Longrightarrow> blocks_kept sms sms' \<Longrightarrow> announced sms' ids"
  unfolding announced_def blocks_kept_def using metadata_block by metis

lemma factory_create_wf:
  "factory_create shm_c shm_a s i cfg = Ok (Ok m) \<Longrightarrow> sm_wf m"
  by (auto simp: factory_create_def create_shared_memory_slot_manager_def Let_def make_slot_manager_wf
      split: option.splits if_splits elim!: and_then_OkE)

lemma get_manager_kept:
  assumes "get_shared_memory_slot_manager shm_c shm_a ks key sms = Ok (m, sms')"
  shows "blocks_kept sms sms'" and "manager_of sms' key = Some m"
  using assms factory_create_wf
  by (auto simp: get_shared_memory_slot_manager_def manager_of_def update_conv' blocks_kept_refl
      split: option.splits sum.splits elim!: and_then_OkE intro!: blocks_kept_update)

lemma get_metadata_kept:
  assumes "get_shared_memory_metadata shm_c shm_a ks key sms = Ok (md, sms')"
  shows "blocks_kept sms sms'" and "\<exists>m. manager_of sms' key = Some m \<and> metadata_of_manager m = Ok md"
  using assms get_manager_kept
  by (auto simp: get_shared_memory_metadata_def elim!: and_then_OkE)

lemma run_callback_kept [blocks]: "blocks_kept sms (snd (run_callback cb sms))"
  by (auto simp: run_callback_def guard_reset_def release_slot_block manager_of_def managers_ok_def blocks_kept_refl
      split: destroy_callback.splits option.splits intro!: blocks_kept_update)

lemma destroy_payload_kept [blocks]: "blocks_kept sms (snd (destroy_payload p sms))"
  by (simp add: destroy_payload_def run_callback_kept blocks_kept_refl split: option.splits)

lemma insert_allocation_kept:
  "insert_allocation key p n sms = Ok (cbs, sms') \<Longrightarrow> blocks_kept sms sms'"
  using blocks_kept_trans [OF managers_allocations(1) destroy_payload_kept]
  by (auto simp: insert_allocation_def Let_def managers_allocations destroy_payload_kept split: if_splits dest: sym)
    (metis destroy_payload_kept snd_conv)+

lemma payload_consumed_kept [blocks]: "blocks_kept sms (snd (payload_consumed key h sms))"
  using blocks_kept_trans [OF managers_allocations(1) destroy_payload_kept]
  by (auto simp: payload_consumed_def Let_def managers_allocations blocks_kept_refl split: option.splits)

subsection \<open>Steps\<close>

lemma slots_step_refl [blocks]: "slots_step b b"
  by (simp add: slots_step_def blocks_kept_refl)

lemma slots_step_trans:
  assumes "slots_step a b" and "slots_step b c"
  shows "slots_step a c"
  using assms announced_kept blocks_kept_trans unfolding slots_step_def by metis

lemma slots_step_same:
  assumes "blocks_kept (b_slot_managers b) (b_slot_managers b')" and "b_id_mapping b' = b_id_mapping b"
  shows "slots_step b b'"
  using assms by (simp add: slots_step_def)

lemma slots_step_removed:
  assumes "b_slot_managers b' = b_slot_managers b"
    and "\<And>c ids. ids \<in> set (conns (b_id_mapping b') c) \<Longrightarrow> ids \<in> set (conns (b_id_mapping b) c)"
  shows "slots_step b b'"
  using assms by (simp add: slots_step_def blocks_kept_refl)

lemma slots_step_added:
  assumes "slots_step b b1" and "add_mapping c ids (b_id_mapping b1) = Ok (b_id_mapping b')"
    and "b_slot_managers b' = b_slot_managers b1" and "announced (b_slot_managers b1) ids"
  shows "slots_step b b'"
  using assms add_mapping_effect [OF assms(2)] unfolding slots_step_def by (auto split: if_splits)

lemma fold_run_slots:
  assumes "\<And>x s s'. f x s = Ok s' \<Longrightarrow> slots_step (g s) (g s')" and "fold_run f xs s = Ok s'"
  shows "slots_step (g s) (g s')"
  by (rule fold_run_invariant [where I = "\<lambda>t. slots_step (g s) (g t)", OF _ _ assms(2)])
    (auto intro: slots_step_trans assms(1) slots_step_refl)

lemma conns_removals:
  "ids \<in> set (conns (remove_service k cm) c) \<Longrightarrow> ids \<in> set (conns cm c)"
  "ids \<in> set (conns (remove_mapping c' h cm) c) \<Longrightarrow> ids \<in> set (conns cm c)"
  "ids \<in> set (conns (remove_mapping_for_client_and_key c' k cm) c) \<Longrightarrow> ids \<in> set (conns cm c)"
  "ids \<in> set (conns (cm_remove_client c' cm) c) \<Longrightarrow> ids \<in> set (conns cm c)"
  by (auto simp: conns_remove_service conns_remove_client conns_erase_ids remove_mapping_def
      remove_mapping_for_client_and_key_def split: if_splits)

lemma slot_tables [simp]:
  "b_slot_managers (snd (binding_key s i b)) = b_slot_managers b" "b_id_mapping (snd (binding_key s i b)) = b_id_mapping b"
  "b_slot_managers (snd (conn_send env ch m b)) = b_slot_managers b" "b_id_mapping (snd (conn_send env ch m b)) = b_id_mapping b"
  "b_slot_managers (send_offer_service_to_client env ch s i off b) = b_slot_managers b"
  "b_id_mapping (send_offer_service_to_client env ch s i off b) = b_id_mapping b"
  "b_slot_managers (clear_pending_connects_for_key_locked k c b) = b_slot_managers b"
  "b_id_mapping (clear_pending_connects_for_key_locked k c b) = b_id_mapping b"
  by (simp_all add: binding_key_def conn_send_def send_offer_service_to_client_def
      clear_pending_connects_for_key_locked_def Let_def case_prod_unfold)

lemma request_locked_tables [simp]:
  "b_slot_managers (snd (send_request_service_locked env s i u b)) = b_slot_managers b"
  "b_id_mapping (snd (send_request_service_locked env s i u b)) = b_id_mapping b"
  by (simp_all add: send_request_service_locked_def Let_def case_prod_unfold)

lemma binding_metadata_slots:
  assumes "binding_metadata env key b = Ok (md, b')"
  shows "slots_step b b'" and "b_id_mapping b' = b_id_mapping b"
    and "\<exists>m. manager_of (b_slot_managers b') key = Some m \<and> metadata_of_manager m = Ok md"
proof -
  obtain sms where r: "get_shared_memory_metadata (e_shm_create env) (e_shm_allocate env) (b_keys b) key (b_slot_managers b) = Ok (md, sms)"
    and b': "b' = b\<lparr>b_slot_managers := sms\<rparr>"
    using assms by (auto simp: binding_metadata_def elim!: and_then_OkE)
  show "slots_step b b'" using get_metadata_kept(1) [OF r] by (intro slots_step_same) (simp_all add: b')
  show "b_id_mapping b' = b_id_mapping b"
    and "\<exists>m. manager_of (b_slot_managers b') key = Some m \<and> metadata_of_manager m = Ok md"
    using get_metadata_kept(2) [OF r] by (simp_all add: b')
qed

subsection \<open>Handlers\<close>

lemma connect_send_func_tables:
  assumes "connect_send_func env key c h m b = Ok (r, b')"
  shows "b_id_mapping b' = b_id_mapping b"
  using assms by (auto simp: connect_send_func_def conn_send_def split: option.splits)

lemma send_connect_offer_slots:
  assumes "send_connect_offer shm_c shm_a (connect_send_func env key) s i c off cw = Ok (off', cw')"
  shows "blocks_kept (cw_slot_managers cw) (cw_slot_managers cw')" and "b_id_mapping (cw_world cw') = b_id_mapping (cw_world cw)"
  using assms
  by (auto simp: send_connect_offer_def Let_def case_prod_unfold blocks_kept_refl split: if_splits elim!: and_then_OkE
      dest: connect_send_func_tables get_metadata_kept(1))

lemma send_connect_service_slots:
  assumes "send_connect_service shm_c shm_a (connect_send_func env key) st cw = Ok (st', cw')"
  shows "blocks_kept (cw_slot_managers cw) (cw_slot_managers cw') \<and> b_id_mapping (cw_world cw') = b_id_mapping (cw_world cw)"
proof (cases "requested st")
  case False
  then show ?thesis using assms by (simp add: send_connect_service_def blocks_kept_refl)
next
  case True
  let ?body = "\<lambda>(client, offer) (st', cw').
            and_then (send_connect_offer shm_c shm_a (connect_send_func env key) (ss_service st) (ss_instance st) client offer cw') (\<lambda>(offer', cw'').
              Ok (st'\<lparr>offers := AList.update client offer' (offers st')\<rparr>, cw''))"
  let ?I = "\<lambda>(st', cw'). blocks_kept (cw_slot_managers cw) (cw_slot_managers cw') \<and> b_id_mapping (cw_world cw') = b_id_mapping (cw_world cw)"
  have run: "fold_run ?body (offers st) (st, cw) = Ok (st', cw')" using assms True by (simp add: send_connect_service_def)
  have "?I (st', cw')"
  proof (rule fold_run_invariant [OF _ _ run])
    fix x s s' assume "?I s" "?body x s = Ok s'"
    then show "?I s'"
      using send_connect_offer_slots by (auto simp: case_prod_unfold elim!: and_then_OkE intro: blocks_kept_trans)
  qed (simp add: blocks_kept_refl)
  then show ?thesis by simp
qed

lemma maybe_send_connect_slots:
  assumes "maybe_send_connect_service_locked env key b = Ok b'"
  shows "slots_step b b'"
proof -
  obtain st st' cw where r: "send_connect_service (e_shm_create env) (e_shm_allocate env) (connect_send_func env key) st
      \<lparr>cw_next_local_id = b_next_local_id b, cw_keys = b_keys b, cw_slot_managers = b_slot_managers b, cw_world = b\<rparr> = Ok (st', cw)"
    and b': "b_slot_managers b' = cw_slot_managers cw" "b_id_mapping b' = b_id_mapping (cw_world cw)"
    using assms by (auto simp: maybe_send_connect_service_locked_def Let_def split: option.splits elim!: and_then_OkE)
  show ?thesis using send_connect_service_slots [OF r] b' by (intro slots_step_same) simp_all
qed

lemma send_event_update_slots:
  assumes "send_event_update env key event p b = Ok b'"
  shows "slots_step b b'"
proof -
  obtain n b1 cbs sms where
    r: "fold_run (send_event_to env event p) (for_each_client key (b_id_mapping b)) (0, b) = Ok (n, b1)"
    and i: "insert_allocation key p n (b_slot_managers b1) = Ok (cbs, sms)"
    and b': "b' = emit (map Ran_callback cbs) (b1\<lparr>b_slot_managers := sms\<rparr>)"
    using assms by (auto simp: send_event_update_def elim!: and_then_OkE)
  have "slots_step (snd (0 :: size_t, b)) (snd (n, b1))"
    by (rule fold_run_slots [OF _ r])
      (auto simp: send_event_to_def conn_send_def Let_def split: option.splits elim!: and_then_OkE intro!: slots_step_same blocks_kept_refl)
  moreover have "slots_step b1 b'" using insert_allocation_kept [OF i] by (intro slots_step_same) (simp_all add: b')
  ultimately show ?thesis by (auto intro: slots_step_trans)
qed

lemma service_state_change_slots:
  assumes "service_state_change env key av n b = Ok b'"
  shows "slots_step b b'"
proof -
  let ?b1 = "if av then b else b\<lparr>b_id_mapping := remove_service key (b_id_mapping b)\<rparr>"
  obtain s i b3 where r: "fold_run (send_offer_to_peer env s i av) (get_or [] key (b_interested b)) b3 = Ok b'"
    and b3: "b_slot_managers b3 = b_slot_managers b" "b_id_mapping b3 = b_id_mapping ?b1"
    using assms by (auto simp: service_state_change_def Let_def split: option.splits if_splits)
  have "slots_step b b3" using b3 conns_removals(1) by (intro slots_step_removed) (auto split: if_splits)
  moreover have "slots_step b3 b'"
    by (rule fold_run_slots [where g = "\<lambda>b. b", OF _ r])
      (auto simp: send_offer_to_peer_def split: option.splits intro!: slots_step_same blocks_kept_refl)
  ultimately show ?thesis by (rule slots_step_trans)
qed

lemma event_payload_allocate_slots:
  assumes "event_payload_allocate env key b = Ok (r, b')"
  shows "slots_step b b'"
proof -
  obtain m sms where g: "get_shared_memory_slot_manager (e_shm_create env) (e_shm_allocate env) (b_keys b) key (b_slot_managers b) = Ok (m, sms)"
    and cases: "b' = b\<lparr>b_slot_managers := sms\<rparr>
      \<or> b' = b\<lparr>b_slot_managers := sms\<lparr>sm_slot_managers := AList.update key (snd (allocate_slot key m)) (sm_slot_managers sms)\<rparr>\<rparr>"
    using assms by (fastforce simp: event_payload_allocate_def split: sum.splits prod.splits elim!: and_then_OkE)
  note k = get_manager_kept [OF g]
  have "blocks_kept sms (sms\<lparr>sm_slot_managers := AList.update key (snd (allocate_slot key m)) (sm_slot_managers sms)\<rparr>)"
    using k(2) by (intro blocks_kept_update) (auto simp: allocate_slot_block managers_ok_def)
  then show ?thesis using cases k(1) by (intro slots_step_same) (auto intro: blocks_kept_trans)
qed

lemma send_request_service_slots:
  assumes "send_request_service env s i n u b = Ok b'"
  shows "slots_step b b'"
proof -
  obtain go b1 where l: "send_request_service_locked env s i u b = (go, b1)" by force
  obtain key b2 where k: "binding_key s i b1 = (key, b2)" by force
  have t: "b_slot_managers b1 = b_slot_managers b" "b_id_mapping b1 = b_id_mapping b"
    "b_slot_managers b2 = b_slot_managers b" "b_id_mapping b2 = b_id_mapping b"
    using request_locked_tables [of env s i u b] slot_tables(1,2) [of s i b1] l k by simp_all
  obtain present removed rc sts where p: "process_request_service key n s i u (b_states b2) = (present, removed, rc, sts)"
    by (metis prod_cases4)
  consider "b' = b1"
    | "b_slot_managers b' = b_slot_managers b2" "b_id_mapping b' = remove_service key (b_id_mapping b2)"
    | "maybe_send_connect_service_locked env key (b2\<lparr>b_states := sts\<rparr>) = Ok b'"
    using assms l k p by (auto simp: send_request_service_def Let_def split: if_splits elim!: and_then_OkE)
  then show ?thesis
  proof cases
    case 1
    then show ?thesis using t by (intro slots_step_same) (simp_all add: blocks_kept_refl)
  next
    case 2
    then show ?thesis using t conns_removals(1) by (intro slots_step_removed) auto
  next
    case 3
    have "slots_step b (b2\<lparr>b_states := sts\<rparr>)" using t by (intro slots_step_same) (simp_all add: blocks_kept_refl)
    then show ?thesis using maybe_send_connect_slots [OF 3] by (rule slots_step_trans)
  qed
qed

lemma run_runtime_callback_slots: "run_runtime_callback env cb b = Ok b' \<Longrightarrow> slots_step b b'"
  by (cases cb) (auto elim!: and_then_OkE
      dest: service_state_change_slots send_event_update_slots event_payload_allocate_slots send_request_service_slots)

lemma handle_connect_slots:
  assumes "handle_connect_message env ch b = Ok b'"
  shows "slots_step b b'"
proof -
  let ?b = "snd (conn_send env ch (Connect_reply True) b)"
  have r: "fold_run (resend_request env ch) (b_states ?b) ?b = Ok b'"
    using assms by (simp add: handle_connect_message_def Let_def)
  have "slots_step ?b b'"
    by (rule fold_run_slots [where g = "\<lambda>b. b", OF _ r])
      (auto simp: resend_request_def split: if_splits elim!: and_then_OkE intro!: slots_step_same blocks_kept_refl)
  moreover have "slots_step b ?b" by (intro slots_step_same) (simp_all add: blocks_kept_refl)
  ultimately show ?thesis by (blast intro: slots_step_trans)
qed

lemma handle_connect_reply_slots:
  assumes "handle_connect_reply_message env st b = Ok b'"
  shows "slots_step b b'"
proof (cases st)
  case False
  then show ?thesis using assms by (simp add: handle_connect_reply_message_def slots_step_refl)
next
  case True
  then have r: "fold_run (reply_to_state env) (keys (b_states b)) b = Ok b'"
    using assms by (simp add: handle_connect_reply_message_def)
  show ?thesis
  proof (rule fold_run_slots [where g = "\<lambda>b. b", OF _ r])
    fix k s s' assume "reply_to_state env k s = Ok s'"
    then consider "maybe_send_connect_service_locked env k s = Ok s'"
      | st :: Service_state where "maybe_send_connect_service_locked env k (snd (send_request_service_locked env (ss_service st) (ss_instance st) True s)) = Ok s'"
      by (auto simp: reply_to_state_def split: option.splits if_splits elim!: and_then_OkE)
    then obtain t where t: "b_slot_managers t = b_slot_managers s" "b_id_mapping t = b_id_mapping s"
      and m: "maybe_send_connect_service_locked env k t = Ok s'"
      by cases (blast intro: refl request_locked_tables)+
    have "slots_step s t" using t by (intro slots_step_same) (simp_all add: blocks_kept_refl)
    then show "slots_step s s'" using maybe_send_connect_slots [OF m] by (rule slots_step_trans)
  qed
qed

lemma withdraw_request_slots: "slots_step b (withdraw_request c k b)"
  using conns_removals(3)
  by (intro slots_step_removed) (auto simp: withdraw_request_def Let_def case_prod_unfold)

lemma handle_request_service_slots:
  assumes "handle_request_service_message env reply c ch s i u b = Ok b'"
  shows "slots_step b b'"
proof -
  obtain key b1 where k: "binding_key s i b = (key, b1)" by force
  have t: "b_slot_managers b1 = b_slot_managers b" "b_id_mapping b1 = b_id_mapping b"
    using slot_tables(1,2) [of s i b] k by simp_all
  have s1: "slots_step b b1" using t by (intro slots_step_same) (simp_all add: blocks_kept_refl)
  let ?b2 = "b1\<lparr>b_interested := AList.update key (insort_insert c (get_or [] key (b_interested b1))) (b_interested b1)\<rparr>"
  let ?b3 = "?b2\<lparr>b_states := mark_client_connector_pending key s i (b_states ?b2)\<rparr>"
  consider "b' = withdraw_request c key b1"
    | "b_slot_managers b' = b_slot_managers b1" "b_id_mapping b' = b_id_mapping b1"
    | b4 where "fold_run (run_runtime_callback env) (fst reply) ?b3 = Ok b4"
        "b_slot_managers b' = b_slot_managers b4" "b_id_mapping b' = b_id_mapping b4"
    using assms k
    by (auto simp: handle_request_service_message_def Let_def split: if_splits option.splits elim!: and_then_OkE)
  then show ?thesis
  proof cases
    case 1
    then show ?thesis using slots_step_trans [OF s1 withdraw_request_slots] by simp
  next
    case 2
    then show ?thesis using t by (intro slots_step_same) (simp_all add: blocks_kept_refl)
  next
    case 3
    have "slots_step b ?b3" using t by (intro slots_step_same) (simp_all add: blocks_kept_refl)
    moreover have "slots_step ?b3 b4" by (rule fold_run_slots [where g = "\<lambda>b. b", OF run_runtime_callback_slots 3(1)])
    moreover have "slots_step b4 b'" using 3(2,3) by (intro slots_step_same) (simp_all add: blocks_kept_refl)
    ultimately show ?thesis by (blast intro: slots_step_trans)
  qed
qed

lemma handle_offer_service_slots:
  assumes "handle_offer_service_message env c s i off b = Ok b'"
  shows "slots_step b b'"
proof -
  obtain key b1 where k: "binding_key s i b = (key, b1)" by force
  have t: "b_slot_managers b1 = b_slot_managers b" "b_id_mapping b1 = b_id_mapping b"
    using slot_tables(1,2) [of s i b] k by simp_all
  obtain rm sts where p: "process_offer key c s i off (b_states b1) = (rm, sts)" by force
  show ?thesis
  proof (cases off)
    case True
    then have m: "maybe_send_connect_service_locked env key (b1\<lparr>b_states := sts\<rparr>) = Ok b'"
      using assms k p by (simp add: handle_offer_service_message_def Let_def)
    have "slots_step b (b1\<lparr>b_states := sts\<rparr>)" using t by (intro slots_step_same) (simp_all add: blocks_kept_refl)
    then show ?thesis using maybe_send_connect_slots [OF m] by (rule slots_step_trans)
  next
    case False
    then show ?thesis using assms k p t conns_removals(1)
      by (intro slots_step_removed) (auto simp: handle_offer_service_message_def Let_def)
  qed
qed

lemma disconnect_service_slots: "slots_step b (disconnect_service c k q b)"
  using conns_removals(2)
  by (intro slots_step_removed) (auto simp: disconnect_service_def Let_def case_prod_unfold split: option.splits)

lemma announced_new:
  assumes "manager_of sms key = Some m" and "metadata_of_manager m = Ok md"
  shows "announced sms \<lparr>ids_key = key, local_handle = l, remote_handle = q, local_metadata = md, remote_metadata = rmd\<rparr>"
  using assms by (simp add: announced_def)

lemma handle_connect_service_slots:
  assumes "handle_connect_service_message env c ch s i q md u b = Ok b'"
  shows "slots_step b b'"
proof -
  obtain key b1 where k: "binding_key s i b = (key, b1)" by force
  have t: "b_slot_managers b1 = b_slot_managers b" "b_id_mapping b1 = b_id_mapping b"
    using slot_tables(1,2) [of s i b] k by simp_all
  have s1: "slots_step b b1" using t by (intro slots_step_same) (simp_all add: blocks_kept_refl)
  show ?thesis
  proof (cases u)
    case False
    then show ?thesis using assms k slots_step_trans [OF s1 disconnect_service_slots]
      by (auto simp: handle_connect_service_message_def)
  next
    case True
    then obtain l nxt lmd b3 cm where
      md: "binding_metadata env key (b1\<lparr>b_next_local_id := nxt\<rparr>) = Ok (lmd, b3)"
      and add: "add_mapping c \<lparr>ids_key = key, local_handle = l, remote_handle = q, local_metadata = lmd, remote_metadata = md\<rparr>
          (b_id_mapping b3) = Ok cm"
      and b': "b_id_mapping b' = cm" "b_slot_managers b' = b_slot_managers b3"
      using assms k
      by (auto simp: handle_connect_service_message_def Let_def case_prod_unfold split: option.splits elim!: and_then_OkE)
    have "slots_step b (b1\<lparr>b_next_local_id := nxt\<rparr>)" using t by (intro slots_step_same) (simp_all add: blocks_kept_refl)
    then have s3: "slots_step b b3" using binding_metadata_slots(1) [OF md] by (rule slots_step_trans)
    obtain m where "manager_of (b_slot_managers b3) key = Some m" "metadata_of_manager m = Ok lmd"
      using binding_metadata_slots(3) [OF md] by blast
    then show ?thesis by (rule slots_step_added [OF s3 add [folded b'(1)] b'(2) announced_new])
  qed
qed

lemma connect_service_reply_locked_slots:
  assumes "connect_service_reply_locked env c q p md b = Ok (r, b')"
  shows "slots_step b b'"
proof (cases "pending_find q (b_pending b)")
  case None
  then show ?thesis using assms by (simp add: connect_service_reply_locked_def slots_step_refl)
next
  case (Some pend)
  then consider "b_slot_managers b' = b_slot_managers b" "b_id_mapping b' = b_id_mapping b"
    | lmd b1 where "binding_metadata env (pc_key pend) b = Ok (lmd, b1)" "b_slot_managers b' = b_slot_managers b1"
        "add_mapping c \<lparr>ids_key = pc_key pend, local_handle = p, remote_handle = q, local_metadata = lmd, remote_metadata = md\<rparr>
           (b_id_mapping b1) = Ok (b_id_mapping b')"
    using assms by (auto simp: connect_service_reply_locked_def split: if_splits option.splits elim!: and_then_OkE)
  then show ?thesis
  proof cases
    case 1
    then show ?thesis by (intro slots_step_same) (simp_all add: blocks_kept_refl)
  next
    case 2
    obtain m where "manager_of (b_slot_managers b1) (pc_key pend) = Some m" "metadata_of_manager m = Ok lmd"
      using binding_metadata_slots(3) [OF 2(1)] by blast
    then show ?thesis by (rule slots_step_added [OF binding_metadata_slots(1) [OF 2(1)] 2(3,2) announced_new])
  qed
qed

lemma notification_tables [simp]:
  "b_slot_managers (on_event_subscription_change env c p e sub b) = b_slot_managers b"
  "b_slot_managers (on_payload_destruction env c q h b) = b_slot_managers b"
  "b_id_mapping (on_payload_destruction env c q h b) = b_id_mapping b"
  by (simp_all add: on_event_subscription_change_def on_payload_destruction_def split: option.splits)

lemma connector_part_slots:
  assumes "connect_service_reply_connector env r c p key b = Ok b'"
  shows "slots_step b b'"
proof -
  have "b_slot_managers (foldl (\<lambda>b' (e, sub). on_event_subscription_change env c p e sub b') b es) = b_slot_managers b" for es
    by (induction es arbitrary: b) auto
  then have "b_slot_managers b' = b_slot_managers b"
    using assms by (auto simp: connect_service_reply_connector_def Let_def case_prod_unfold split: option.splits)
  then show ?thesis using connector_part_tables(1) [OF assms] by (intro slots_step_same) (simp_all add: blocks_kept_refl)
qed

lemma handle_connect_service_reply_slots:
  assumes "handle_connect_service_reply_message env r c q p md b = Ok b'"
  shows "slots_step b b'"
proof -
  obtain k b1 where l: "connect_service_reply_locked env c q p md b = Ok (k, b1)"
    and n: "(case k of None \<Rightarrow> Ok b1 | Some k \<Rightarrow> connect_service_reply_connector env r c p k b1) = Ok b'"
    using assms by (auto simp: handle_connect_service_reply_message_def elim!: and_then_OkE)
  have "slots_step b1 b'" using n by (cases k) (auto dest: connector_part_slots intro: slots_step_refl)
  then show ?thesis by (rule slots_step_trans [OF connect_service_reply_locked_slots [OF l]])
qed

lemma handle_event_update_slots:
  "handle_event_update_message env r c q e h b = Ok b' \<Longrightarrow> slots_step b b'"
  by (auto simp: handle_event_update_message_def assert_run_def split: option.splits if_splits elim!: and_then_OkE
      intro!: slots_step_same blocks_kept_refl)

lemma handle_message_slots:
  assumes "handle_message env ra c ch m b = Ok b'"
  shows "slots_step b b'"
proof -
  have "slots_step b (handle_subscribe_event_message c p e u b)" for p e u
    by (intro slots_step_same)
      (simp_all add: handle_subscribe_event_message_def case_prod_unfold Let_def blocks_kept_refl split: option.splits)
  moreover have "slots_step b (handle_payload_consumed_message c q h b)" for q h
    by (intro slots_step_same)
      (simp_all add: handle_payload_consumed_message_def case_prod_unfold Let_def blocks split: option.splits)
  ultimately show ?thesis using assms
    by (cases m) (auto dest: handle_connect_slots handle_connect_reply_slots handle_connect_service_slots
        handle_connect_service_reply_slots handle_request_service_slots handle_offer_service_slots handle_event_update_slots)
qed

lemma remove_client_slots: "slots_step b (remove_client c b)"
proof -
  have "b_slot_managers (remove_client c b) = b_slot_managers b"
    by (simp add: remove_client_def remove_client_state_locked_def Let_def case_prod_unfold)
  then show ?thesis using conns_removals(4) by (intro slots_step_removed) (auto simp: remove_client_tables)
qed

subsection \<open>Executions\<close>

lemma binding_step_slots: "binding_step env b b' \<Longrightarrow> slots_step b b'"
proof (induction rule: binding_step.induct)
  case (connect c ch b b')
  then show ?case by (intro slots_step_same) (auto simp: add_client_def blocks_kept_refl elim!: and_then_OkE)
next
  case (configure b configs)
  then show ?case
    by (intro slots_step_same) (simp_all add: register_shared_memory_configurations_def sms_register_configuration_def blocks)
next
  case (receive c b ch ra a data b')
  then show ?case
    by (auto simp: on_receive_message_def split: if_splits option.splits elim!: and_then_OkE
        dest: handle_connect_slots handle_message_slots intro: slots_step_refl)
next
  case (consumed b c q h)
  show ?case by (intro slots_step_same) (simp_all add: blocks_kept_refl)
next
  case (subscription b c p e sub)
  show ?case by (intro slots_step_same) (simp_all add: blocks_kept_refl)
qed (auto dest: handle_message_slots connect_service_reply_locked_slots connector_part_slots run_runtime_callback_slots
    intro: remove_client_slots)

lemma slots_ok_step:
  assumes "slots_step b b'" and "slots_ok b"
  shows "slots_ok b'"
proof -
  have kept: "blocks_kept (b_slot_managers b) (b_slot_managers b')"
    and new: "\<And>c ids. ids \<in> set (conns (b_id_mapping b') c) \<Longrightarrow>
        ids \<in> set (conns (b_id_mapping b) c) \<or> announced (b_slot_managers b') ids"
    using assms(1) by (simp_all add: slots_step_def)
  have old: "managers_ok (b_slot_managers b)" "\<And>c ids. ids \<in> set (conns (b_id_mapping b) c) \<Longrightarrow> announced (b_slot_managers b) ids"
    using assms(2) by (simp_all add: slots_ok_def)
  show ?thesis unfolding slots_ok_def
    using old(1) kept new announced_kept [OF old(2) kept] by (auto simp: blocks_kept_def)
qed

lemma binding_reachable_slots: "binding_reachable env cfg b \<Longrightarrow> slots_ok b"
  unfolding binding_reachable_def
proof (induction rule: rtranclp_induct)
  case base
  then show ?case
    by (simp add: slots_ok_def managers_ok_def manager_of_def Binding_init_def Connection_metadata_init_def conns_def get_or_def)
next
  case (step b b')
  then show ?case by (blast intro: slots_ok_step binding_step_slots)
qed

lemma binding_steps_slots: "(binding_step env)\<^sup>*\<^sup>* b b' \<Longrightarrow> slots_step b b'"
  by (induction rule: rtranclp_induct) (auto intro: slots_step_refl slots_step_trans binding_step_slots)

text \<open>C8. What a peer has been told about a block stays true. In every reachable state the binding has a well-formed slot
  manager for each connection, and whatever happens afterwards, this manager keeps its place in memory and the path, slot
  size and slot count that were sent to the peer.\<close>

theorem announced_block_kept:
  assumes "binding_reachable env cfg b" and "ids \<in> set (conns (b_id_mapping b) c)" and "(binding_step env)\<^sup>*\<^sup>* b b'"
  shows "\<exists>m m'. manager_of (b_slot_managers b) (ids_key ids) = Some m \<and> manager_of (b_slot_managers b') (ids_key ids) = Some m'
    \<and> metadata_of_manager m' = Ok (local_metadata ids) \<and> m_base_address m' = m_base_address m \<and> sm_wf m'"
proof -
  note s = binding_steps_slots [OF assms(3)]
  have ok: "slots_ok b" "slots_ok b'"
    using binding_reachable_slots [OF assms(1)] slots_ok_step [OF s] by simp_all
  obtain m where m: "manager_of (b_slot_managers b) (ids_key ids) = Some m" "metadata_of_manager m = Ok (local_metadata ids)"
    using ok(1) assms(2) by (auto simp: slots_ok_def announced_def)
  obtain m' where m': "manager_of (b_slot_managers b') (ids_key ids) = Some m'" "block_of m' = block_of m"
    using s m(1) unfolding slots_step_def blocks_kept_def by blast
  have "sm_wf m'" using ok(2) m'(1) by (simp add: slots_ok_def managers_ok_def)
  then show ?thesis using m m' metadata_block [OF m'(2)] by (auto simp: block_of_def)
qed

theorem announced_block_kept_witness:
  "\<exists>b ids m'. demo_peer CHR ''X'' (take 3 (cross_messages CHR ''Y'' CHR ''X'')) = Ok b \<and> conns (b_id_mapping b) 0 = [ids]
     \<and> manager_of (b_slot_managers (remove_client 0 b)) (ids_key ids) = Some m' \<and> metadata_of_manager m' = Ok (local_metadata ids)"
proof -
  let ?r = "demo_peer CHR ''X'' (take 3 (cross_messages CHR ''Y'' CHR ''X''))"
  obtain b where b: "?r = Ok b" using cross_peer_sends by (cases ?r) auto
  have "map_sum id (\<lambda>b. length (conns (b_id_mapping b) 0)) ?r = Ok 1" by code_simp
  then obtain ids where i: "conns (b_id_mapping b) 0 = [ids]" using b by (auto simp: length_Suc_conv)
  have s: "(binding_step demo_env)\<^sup>*\<^sup>* b (remove_client 0 b)" by (blast intro: binding_step.disconnect)
  show ?thesis using announced_block_kept [OF demo_peer_reachable [OF b] _ s, of ids 0] b i by auto
qed

end
