(* ===== verification/Process_Path.thy ===== *)
theory Process_Path
  imports Binding_Slots Event_Path
begin

text \<open>
  The way of an event through the IPC binding between two processes: the writer's binding allocates
  a slot (\<^verbatim>\<open>event_payload_allocate\<close>) and announces it (\<^verbatim>\<open>send_event_update\<close>), the reader's binding opens the block
  and makes a payload of the slot (\<^verbatim>\<open>handle_event_update_message\<close>), and its destruction comes back as
  \<^verbatim>\<open>Payload_consumed\<close>. Both processes map the same shared memory object; that they see the same
  bytes in it is what the operating system promises and is the hypothesis \<open>shared_block\<close>.
\<close>

definition shared_block :: "byte_memory \<Rightarrow> size_t \<Rightarrow> byte_memory \<Rightarrow> size_t \<Rightarrow> nat \<Rightarrow> bool" where
  "shared_block mem_w base_w mem_r base_r n \<longleftrightarrow> (\<forall>k < n. mem_r (base_r + of_nat k) = mem_w (base_w + of_nat k))"

lemma shared_span_bytes:
  assumes "shared_block mem_w base_w mem_r base_r n"
    and "span_data dw = base_w + of_nat k" "span_data dr = base_r + of_nat k"
    and "span_size dr = span_size dw" "k + unat (span_size dw) \<le> n"
  shows "span_bytes mem_r dr = span_bytes mem_w dw"
proof -
  have "mem_r (base_r + of_nat (k + i)) = mem_w (base_w + of_nat (k + i))" if "i < unat (span_size dw)" for i
    using assms(1,5) that unfolding shared_block_def by (metis add_strict_left_mono less_le_trans)
  then show ?thesis using assms(2-4) by (simp add: span_bytes_def add.assoc)
qed

subsection \<open>The writer\<close>

definition slot_span :: "Slot_manager \<Rightarrow> Slot_handle \<Rightarrow> span" where
  "slot_span m i = \<lparr>span_data = m_base_address m + i * m_slot_size m, span_size = m_slot_size m\<rparr>"

text \<open>The payload that owns slot \<open>i\<close> of the manager of a key.\<close>

definition slot_payload :: "Key_t \<Rightarrow> Slot_manager \<Rightarrow> Slot_handle \<Rightarrow> payload" where
  "slot_payload key m i = make_payload (slot_span m i) i (Release_slot \<lparr>g_manager = Some key, g_handle = i\<rparr>) 0 0"

lemma get_memory_slot:
  assumes "sm_wf m" and "unat i < capacity m" and "refs m (unat i) \<noteq> 0"
  shows "get_memory i m = Ok (slot_span m i)"
proof -
  have "slot_offset (m_slots m ! unat i) = i * m_slot_size m" using assms(1,2) by (simp add: sm_wf_def capacity_def)
  moreover have "get_reference_count i m \<noteq> 0"
    using assms(2,3) by (auto simp: get_reference_count_def refs_def handle_lt_capacity word_unat_eq_iff unat_ucast_32)
  ultimately show ?thesis using assms(2) by (simp add: get_memory_def handle_lt_capacity slot_span_def)
qed

lemma event_payload_allocated:
  assumes "event_payload_allocate env key b = Ok (Ok p, b1)" and "slots_ok b"
  obtains m0 m i where "manager_of (b_slot_managers b1) key = Some m" "sm_wf m" "unat i < capacity m"
    "p = slot_payload key m i" "sm_wf m0" "block_of m = block_of m0" "refs m0 (unat i) = 0" "refs m = (refs m0)(unat i := 1)"
    "\<And>m'. manager_of (b_slot_managers b) key = Some m' \<Longrightarrow> m0 = m'"
    "b_id_mapping b1 = b_id_mapping b" "b_connections b1 = b_connections b"
    "sm_allocations (b_slot_managers b1) = sm_allocations (b_slot_managers b)"
proof -
  obtain m0 sms g m where get: "get_shared_memory_slot_manager (e_shm_create env) (e_shm_allocate env) (b_keys b) key (b_slot_managers b) = Ok (m0, sms)"
    and al: "allocate_slot key m0 = (Ok g, m)" and p: "make_shared_memory_writable_payload g m = Ok p"
    and b1: "b1 = b\<lparr>b_slot_managers := sms\<lparr>sm_slot_managers := AList.update key m (sm_slot_managers sms)\<rparr>\<rparr>"
    using assms(1) by (auto simp: event_payload_allocate_def split: sum.splits prod.splits elim!: and_then_OkE)
  have "managers_ok sms"
    using get_manager_kept(1) [OF get] assms(2) by (simp add: blocks_kept_def slots_ok_def)
  then have wf0: "sm_wf m0" using get_manager_kept(2) [OF get] by (simp add: managers_ok_def)
  note a = allocate_slot_Ok [OF wf0 al]
  let ?i = "g_handle g"
  have mem: "guard_get_memory g m = slot_span m ?i"
    using a get_memory_slot [of m ?i] by (simp add: guard_get_memory_def has_slot_def)
  have g: "g = \<lparr>g_manager = Some key, g_handle = ?i\<rparr>" using a(1) by (cases g) simp
  have "p = make_payload (slot_span m ?i) ?i (Release_slot g) 0 0"
    using p mem a(1)
    by (auto simp: make_shared_memory_writable_payload_def Let_def assert_run_def guard_get_handle_def has_slot_def split: if_splits)
  then have p': "p = slot_payload key m ?i" unfolding slot_payload_def g [symmetric] .
  have same: "m0 = m'" if "manager_of (b_slot_managers b) key = Some m'" for m'
    using get that by (simp add: get_shared_memory_slot_manager_def manager_of_def)
  have alloc: "sm_allocations sms = sm_allocations (b_slot_managers b)"
    using get by (auto simp: get_shared_memory_slot_manager_def split: option.splits sum.splits elim!: and_then_OkE)
  show thesis
    by (rule that [of m ?i m0]) (use a p' wf0 same alloc allocate_slot_block(1) [of key m0] al in \<open>simp_all add: b1 manager_of_def update_conv'\<close>)
qed

lemma slot_payload_data:
  "payload_wf (slot_payload key m i)" "payload_data (slot_payload key m i) = Ok (slot_span m i)"
  "pl_slot_handle (slot_payload key m i) = i"
  "pl_destroyed (slot_payload key m i) = Some (Release_slot \<lparr>g_manager = Some key, g_handle = i\<rparr>)"
  by (simp_all add: slot_payload_def make_payload_def payload_wf_def payload_data_def subspan_from_def slot_span_def)

lemma handle_not_sentinel: "unat (i :: Slot_handle) < capacity m \<Longrightarrow> i \<noteq> kNoSlotHandle \<and> i + 1 \<noteq> 0"
proof -
  assume lt: "unat i < capacity m"
  have "unat (m_slot_count m) \<le> unat (- 1 :: size_t)" by (simp flip: word_le_nat_alt)
  then have "i \<noteq> - 1" using lt by (auto simp: capacity_def)
  then show ?thesis by (simp add: kNoSlotHandle_def add_eq_0_iff2)
qed

text \<open>The announcement of a payload: what is sent, and what is kept.\<close>

lemma send_event_update_announces:
  assumes "binding_ok (b_connections b) b" and "payload_data p = Ok d" and "pl_slot_handle p + 1 \<noteq> 0"
  shows "\<exists>b' cbs. send_event_update env key event p b = Ok b' \<and> b_id_mapping b' = b_id_mapping b
    \<and> b_log b' = b_log b @ sent (event_messages (b_connections b) event (pl_slot_handle p) d (for_each_client key (b_id_mapping b)))
        @ map Ran_callback cbs"
proof -
  let ?n = "of_nat (length (filter (\<lambda>(ch, m). e_send_ok env ch m)
    (event_messages (b_connections b) event (get_slot_handle p) d (for_each_client key (b_id_mapping b))))) :: size_t"
  have "\<exists>cbs sms. insert_allocation key p ?n (b_slot_managers b) = Ok (cbs, sms)"
  proof (cases "?n = 0")
    case True
    then show ?thesis by (cases "destroy_payload p (b_slot_managers b)") (simp add: insert_allocation_def)
  next
    case False
    from insert_allocation_cases [OF this assms(3), of key "b_slot_managers b"] show ?thesis
      by (metis surj_pair)
  qed
  then show ?thesis
    unfolding send_event_update_eq [OF assms(1,2)] by (auto simp: emit_def get_slot_handle_def)
qed

subsection \<open>The reader\<close>

definition opened_for :: "Shared_memory_metadata \<Rightarrow> Read_only_slot_manager \<Rightarrow> bool" where
  "opened_for md ro \<longleftrightarrow> ro_slot_size ro = slot_size md \<and> ro_slot_count ro = slot_count md"

text \<open>Opening a block, or finding it open: the manager has the geometry of the metadata.\<close>

lemma open_block:
  assumes "shm_o (path md) = Some base" "base \<noteq> 0" "0 < slot_size md" "0 < slot_count md"
    and "map_of (ro_managers ros) (path md) = None"
  shows "\<exists>ros'. get_read_only_shared_memory_slot_manager shm_o md ros
    = Ok (\<lparr>ro_base_address = base, ro_slot_size = slot_size md, ro_slot_count = slot_count md\<rparr>, ros')"
  using assms
  by (simp add: get_read_only_shared_memory_slot_manager_def factory_open_def make_read_only_slot_manager_def assert_run_def)

lemma event_update_received:
  assumes "get_by_remote_handle c q (b_id_mapping b) = Some ids"
    and "Option.bind (states_get (ids_key ids) (b_states b)) enabled_connector = Some sc"
    and "get_read_only_shared_memory_slot_manager (e_shm_open env) (remote_metadata ids) (b_ro_managers b) = Ok (ro, ros)"
    and "unat (slot_index h) < unat (ro_slot_count ro)" and "used_bytes h \<le> ro_slot_size ro"
  shows "handle_event_update_message env True c q event h b =
    Ok (emit [Updated_event sc event (make_payload
        \<lparr>span_data = ro_base_address ro + slot_index h * ro_slot_size ro, span_size = used_bytes h\<rparr> (slot_index h) (Notify_consumed c q h) 0 0)]
      (b\<lparr>b_ro_managers := ros\<rparr>))"
proof -
  have "ro_get_payload h ro = Some (\<lparr>span_data = ro_base_address ro + slot_index h * ro_slot_size ro, span_size = used_bytes h\<rparr>, slot_index h)"
    using assms(4,5) by (simp add: ro_get_payload_def make_read_only_shared_memory_payload_def word_le_nat_alt min_def)
  then show ?thesis using assms(1-3) by (simp add: handle_event_update_message_def assert_run_def)
qed

subsection \<open>From process to process\<close>

lemma metadata_geometry:
  assumes "metadata_of_manager m = Ok md"
  shows "slot_size md = m_slot_size m" "slot_count md = m_slot_count m" "path md = m_path m"
  using assms by (auto simp: metadata_of_manager_def get_slot_size_def get_slot_count_def get_path_def split: sum.splits)

text \<open>The offset of a slot inside the block, computed without wrap-around.\<close>

lemma slot_offset_nat:
  fixes i n s :: size_t
  assumes "unat i < unat n" and "unat n * unat s < 2 ^ 64"
  shows "i * s = of_nat (unat i * unat s)" and "unat i * unat s + unat s \<le> unat n * unat s"
proof -
  show "i * s = of_nat (unat i * unat s)" by simp
  show "unat i * unat s + unat s \<le> unat n * unat s" by (rule slot_end_bound [OF assms(1)])
qed

lemma connection_announced:
  assumes "binding_reachable env cfg b" and "(c, ids) \<in> set (for_each_client key (b_id_mapping b))" and "slots_step b b1"
    and "manager_of (b_slot_managers b1) key = Some m"
  shows "metadata_of_manager m = Ok (local_metadata ids)" and "ids_key ids = key"
proof -
  have inv: "cm_inv (b_id_mapping b)"
    using binding_okD(3) [OF binding_reachable_ok [OF assms(1)]] by (simp add: mapping_ok_def)
  have ids: "ids \<in> set (conns (b_id_mapping b) c)" and key: "ids_key ids = key"
    using assms(2) for_each_client_iff [OF inv] by auto
  then have "announced (b_slot_managers b) ids" using binding_reachable_slots [OF assms(1)] by (simp add: slots_ok_def)
  then have "announced (b_slot_managers b1) ids" using assms(3) announced_kept by (simp add: slots_step_def)
  then show "metadata_of_manager m = Ok (local_metadata ids)" using assms(4) key by (simp add: announced_def)
  show "ids_key ids = key" by (rule key)
qed

lemma event_transported:
  assumes writer: "binding_reachable env cfg bw" "event_payload_allocate env key bw = Ok (Ok p, bw1)"
      "(c, ids) \<in> set (for_each_client key (b_id_mapping bw))"
    and written: "payload_data p1 = Ok d1" "pl_slot_handle p1 = pl_slot_handle p" "span_data d1 = span_data (pl_span p)"
      "span_size d1 \<le> span_size (pl_span p)"
    and reader: "get_by_remote_handle c' (remote_handle ids) (b_id_mapping br) = Some ids'" "remote_metadata ids' = local_metadata ids"
      "Option.bind (states_get (ids_key ids') (b_states br)) enabled_connector = Some sc"
      "get_read_only_shared_memory_slot_manager (e_shm_open env') (local_metadata ids) (b_ro_managers br) = Ok (ro, ros)"
      "opened_for (local_metadata ids) ro"
    and block: "manager_of (b_slot_managers bw1) key = Some m" "unat (m_slot_count m) * unat (m_slot_size m) < 2 ^ 64"
  shows "\<exists>bw2 h p2 d2. send_event_update env key event p1 bw1 = Ok bw2
    \<and> Sent (channel_of (b_connections bw) c) (Event_update (remote_handle ids) event h) \<in> set (drop (length (b_log bw1)) (b_log bw2))
    \<and> handle_event_update_message env' True c' (remote_handle ids) event h br
        = Ok (emit [Updated_event sc event p2] (br\<lparr>b_ro_managers := ros\<rparr>))
    \<and> payload_data p2 = Ok d2
    \<and> (\<forall>mem_w mem_r. shared_block mem_w (m_base_address m) mem_r (ro_base_address ro) (unat (m_slot_count m) * unat (m_slot_size m))
         \<longrightarrow> span_bytes mem_r d2 = span_bytes mem_w d1)
    \<and> call_payload_destroyed p2 = [Notify_consumed c' (remote_handle ids) h]"
proof -
  have ok: "slots_ok bw" by (rule binding_reachable_slots [OF writer(1)])
  obtain i where i: "unat i < capacity m" "p = slot_payload key m i" and frame: "b_id_mapping bw1 = b_id_mapping bw" "b_connections bw1 = b_connections bw"
    by (rule event_payload_allocated [OF writer(2) ok]) (use block(1) in auto)
  let ?h = "\<lparr>slot_index = i, used_bytes = span_size d1\<rparr>"
  let ?d2 = "\<lparr>span_data = ro_base_address ro + i * ro_slot_size ro, span_size = span_size d1\<rparr>"
  let ?p2 = "make_payload ?d2 i (Notify_consumed c' (remote_handle ids) ?h) 0 0"
  note md = connection_announced [OF writer(1,3) event_payload_allocate_slots [OF writer(2)] block(1)]
  have geo: "ro_slot_size ro = m_slot_size m" "ro_slot_count ro = m_slot_count m"
    using metadata_geometry [OF md(1)] reader(5) by (simp_all add: opened_for_def)
  have p: "pl_slot_handle p = i" "pl_span p = slot_span m i" by (simp_all add: i(2) slot_payload_def make_payload_def)
  have step: "binding_step env bw bw1" by (rule binding_step.callback [where cb = "On_payload_allocate key"]) (simp add: writer(2))
  have ok1: "binding_ok (b_connections bw1) bw1" by (rule binding_step_ok [OF step binding_reachable_ok [OF writer(1)]])
  have "pl_slot_handle p1 + 1 \<noteq> 0" using handle_not_sentinel [OF i(1)] written(2) p(1) by simp
  from send_event_update_announces [OF ok1 written(1) this, of env key event] obtain bw2 cbs where
    sent: "send_event_update env key event p1 bw1 = Ok bw2"
      "b_log bw2 = b_log bw1 @ sent (event_messages (b_connections bw) event i d1 (for_each_client key (b_id_mapping bw))) @ map Ran_callback cbs"
    using written(2) p(1) frame by auto
  have msg: "Sent (channel_of (b_connections bw) c) (Event_update (remote_handle ids) event ?h) \<in> set (drop (length (b_log bw1)) (b_log bw2))"
    using writer(3) unfolding sent(2) by (force simp: sent_def event_messages_def)
  have recv: "handle_event_update_message env' True c' (remote_handle ids) event ?h br
      = Ok (emit [Updated_event sc event ?p2] (br\<lparr>b_ro_managers := ros\<rparr>))"
    using event_update_received [OF reader(1,3), of env' ro ros ?h event] reader(2,4) i(1) geo written(4) p(2)
    by (simp add: capacity_def slot_span_def)
  have lt: "unat i < unat (m_slot_count m)" using i(1) by (simp add: capacity_def)
  note off = slot_offset_nat [OF lt block(2)]
  have "unat (span_size d1) \<le> unat (m_slot_size m)" using written(4) p(2) by (simp add: slot_span_def word_le_nat_alt)
  then have "span_bytes mem_r ?d2 = span_bytes mem_w d1"
    if "shared_block mem_w (m_base_address m) mem_r (ro_base_address ro) (unat (m_slot_count m) * unat (m_slot_size m))" for mem_w mem_r
    using off written(3) p(2) geo(1)
    by (intro shared_span_bytes [OF that, where k = "unat i * unat (m_slot_size m)"]) (simp_all add: slot_span_def)
  then have bytes: "\<forall>mem_w mem_r. shared_block mem_w (m_base_address m) mem_r (ro_base_address ro) (unat (m_slot_count m) * unat (m_slot_size m))
      \<longrightarrow> span_bytes mem_r ?d2 = span_bytes mem_w d1" by blast
  have "payload_data ?p2 = Ok ?d2" by (simp add: payload_data_def make_payload_def subspan_from_def)
  then show ?thesis using sent(1) msg recv bytes
    by - (rule exI [of _ bw2], rule exI [of _ ?h], rule exI [of _ ?p2], rule exI [of _ ?d2], intro conjI, assumption+,
      simp add: call_payload_destroyed_def make_payload_def)
qed

subsection \<open>From sample to network through both processes\<close>

text \<open>The payload a sample was written to is the allocated one, possibly shrunk.\<close>

lemma local_sample_shrinks:
  assumes "event_payload answer (li_server li) (lctx_socom_event_id ctx) rt = Some (c, p)"
    and "on_local_sample answer li ctx sample (released, mem, rt)
      = Ok (released', mem1, rt_emit [Client_event_update c (lctx_socom_event_id ctx) p1] rt)"
  shows "\<exists>n r. payload_shrink n p = Ok (r, p1)"
proof -
  obtain sc where sc: "map_of (rt_servers rt) (li_server li) = Some sc"
    "sc_allocate_event_payload answer (lctx_socom_event_id ctx) sc = Ok p"
    "\<And>p'. rt_update_event (li_server li) (lctx_socom_event_id ctx) p' rt
        = Ok (Ok (), rt_emit [Client_event_update c (lctx_socom_event_id ctx) p'] rt)"
    by (rule event_payloadD [OF assms(1)]) (rule that)
  have ne: "rt \<noteq> rt_emit [e] rt" for e by (cases rt) (simp add: rt_emit_def)
  have inj: "rt_emit [Client_event_update c eid p'] rt = rt_emit [Client_event_update c eid p''] rt \<Longrightarrow> p' = p''" for eid p' p''
    by (cases rt) (simp add: rt_emit_def)
  show ?thesis using assms(2) sc(1,2) ne
    by (auto simp: on_local_sample_def sc(3) Let_def elim!: and_then_OkE split: if_splits dest!: inj) blast
qed

lemma shrunk_payload:
  assumes "payload_wf p" and "payload_data p = Ok d" and "payload_shrink n p = Ok (r, p1)" and "payload_data p1 = Ok d1"
  shows "pl_slot_handle p1 = pl_slot_handle p" "span_data d1 = span_data d" "span_size d1 \<le> span_size d"
  using payload_shrink_exact [OF assms(1), of n] assms(2-4) by (auto split: if_splits)

text \<open>C6. A sample crosses the process boundary through shared memory. The gateway writes a sample into the slot its
  binding allocated for the subscribed peer and updates the event; the binding sends the peer the slot and
  the number of bytes used; the peer's binding, which was told about the block in the handshake, makes a payload of
  that slot and updates the event of its own runtime, which calls the subscribed client; and if
  the peer sees the writer's bytes in the block, this client notifies the network with exactly the sample, and the
  payload it drops reports the slot back.\<close>

theorem sample_between_processes:
  assumes sender: "LocalServiceInstance_Create plugin si st proxy_events cred rt0 = Ok (Ok (li, calls), rt1)"
      "st_events st = Some events" "length events < 2 ^ 16" "SetReceiveHandler name ctx \<in> set calls"
      "event_payload answer (li_server li) (lctx_socom_event_id ctx) rt = Some (gc, p)"
    and writer: "binding_reachable env cfg bw" "event_payload_allocate env key bw = Ok (Ok p, bw1)"
      "(c, ids) \<in> set (for_each_client key (b_id_mapping bw))"
      "manager_of (b_slot_managers bw1) key = Some m" "unat (m_slot_count m) * unat (m_slot_size m) < 2 ^ 64"
    and sample: "16 + unat (psd_size obj) \<le> unat (m_slot_size m)" "unat (psd_size obj) \<le> length (psd_data obj)"
      "unat (psd_size obj) < 2 ^ 32"
    and reader: "get_by_remote_handle c' (remote_handle ids) (b_id_mapping br) = Some ids'" "remote_metadata ids' = local_metadata ids"
      "Option.bind (states_get (ids_key ids') (b_states br)) enabled_connector = Some sc"
      "get_read_only_shared_memory_slot_manager (e_shm_open env') (local_metadata ids) (b_ro_managers br) = Ok (ro, ros)"
      "opened_for (local_metadata ids) ro"
    and receiver: "map_of (rt_servers rts) sc = Some srv" "sc_update_event (lctx_socom_event_id ctx) srv = Ok (Some lc)"
  shows "\<exists>p1 mem1 bw2 h p2. on_local_sample answer li ctx (Some obj) (released, mem, rt)
        = Ok (released, mem1, rt_emit [Client_event_update gc (lctx_socom_event_id ctx) p1] rt)
    \<and> send_event_update env key (lctx_socom_event_id ctx) p1 bw1 = Ok bw2
    \<and> Sent (channel_of (b_connections bw) c) (Event_update (remote_handle ids) (lctx_socom_event_id ctx) h)
        \<in> set (drop (length (b_log bw1)) (b_log bw2))
    \<and> handle_event_update_message env' True c' (remote_handle ids) (lctx_socom_event_id ctx) h br
        = Ok (emit [Updated_event sc (lctx_socom_event_id ctx) p2] (br\<lparr>b_ro_managers := ros\<rparr>))
    \<and> rt_update_event sc (lctx_socom_event_id ctx) p2 rts
        = Ok (Ok (), rt_emit [Client_event_update lc (lctx_socom_event_id ctx) p2] rts)
    \<and> (\<forall>mem_r cl. shared_block mem1 (m_base_address m) mem_r (ro_base_address ro) (unat (m_slot_count m) * unat (m_slot_size m))
         \<longrightarrow> forward_to_vsomeip \<lparr>ln_instance_config = si, ln_type_config = st, ln_client = cl\<rparr> (lctx_socom_event_id ctx) p2 mem_r
           = Ok ([Notify (st_service_id st) (si_instance_id si) (ev_event_id (lctx_config ctx)) (take (unat (psd_size obj)) (psd_data obj))],
               [Notify_consumed c' (remote_handle ids) h]))"
proof -
  let ?eid = "lctx_socom_event_id ctx"
  obtain i where p: "p = slot_payload key m i"
    by (rule event_payload_allocated [OF writer(2) binding_reachable_slots [OF writer(1)]]) (use writer(4) in auto)
  have room: "16 + unat (psd_size obj) \<le> unat (span_size (slot_span m i))" using sample(1) by (simp add: slot_span_def)
  note pd = slot_payload_data [of key m i, folded p]
  from local_path [OF sender pd(1,2) room sample(2,3), of released mem] obtain p1 d1 mem1 where
    w: "on_local_sample answer li ctx (Some obj) (released, mem, rt) = Ok (released, mem1, rt_emit [Client_event_update gc ?eid p1] rt)"
      "payload_data p1 = Ok d1"
      "\<forall>(p2 :: payload) d2 mem2 cl. payload_data p2 = Ok d2 \<and> span_bytes mem2 d2 = span_bytes mem1 d1 \<longrightarrow>
         forward_to_vsomeip \<lparr>ln_instance_config = si, ln_type_config = st, ln_client = cl\<rparr> ?eid p2 mem2
           = Ok ([Notify (st_service_id st) (si_instance_id si) (ev_event_id (lctx_config ctx)) (take (unat (psd_size obj)) (psd_data obj))],
               call_payload_destroyed p2)"
    by blast
  obtain n r where "payload_shrink n p = Ok (r, p1)" using local_sample_shrinks [OF sender(5) w(1)] by blast
  note sh = shrunk_payload [OF pd(1,2) this w(2)]
  have sp: "pl_span p = slot_span m i" by (simp add: p slot_payload_def make_payload_def)
  from event_transported [OF writer(1-3) w(2) sh(1) sh(2,3) [folded sp] reader writer(4,5), of ?eid] obtain bw2 h p2 d2 where
    t: "send_event_update env key ?eid p1 bw1 = Ok bw2"
      "Sent (channel_of (b_connections bw) c) (Event_update (remote_handle ids) ?eid h) \<in> set (drop (length (b_log bw1)) (b_log bw2))"
      "handle_event_update_message env' True c' (remote_handle ids) ?eid h br = Ok (emit [Updated_event sc ?eid p2] (br\<lparr>b_ro_managers := ros\<rparr>))"
      "payload_data p2 = Ok d2"
      "\<forall>mem_w mem_r. shared_block mem_w (m_base_address m) mem_r (ro_base_address ro) (unat (m_slot_count m) * unat (m_slot_size m))
         \<longrightarrow> span_bytes mem_r d2 = span_bytes mem_w d1"
      "call_payload_destroyed p2 = [Notify_consumed c' (remote_handle ids) h]"
    by blast
  have u: "rt_update_event sc ?eid p2 rts = Ok (Ok (), rt_emit [Client_event_update lc ?eid p2] rts)"
    using receiver by (simp add: rt_update_event_def)
  have "forward_to_vsomeip \<lparr>ln_instance_config = si, ln_type_config = st, ln_client = cl\<rparr> ?eid p2 mem_r
      = Ok ([Notify (st_service_id st) (si_instance_id si) (ev_event_id (lctx_config ctx)) (take (unat (psd_size obj)) (psd_data obj))],
          [Notify_consumed c' (remote_handle ids) h])"
    if "shared_block mem1 (m_base_address m) mem_r (ro_base_address ro) (unat (m_slot_count m) * unat (m_slot_size m))" for mem_r cl
    using w(3) [THEN spec, THEN spec, THEN spec, THEN spec, THEN mp, OF conjI, OF t(4) t(5) [THEN spec, THEN spec, THEN mp, OF that]] t(6) by simp
  then show ?thesis using w(1) t(1-3) u
    by - (rule exI [of _ p1], rule exI [of _ mem1], rule exI [of _ bw2], rule exI [of _ h], rule exI [of _ p2], intro conjI, assumption+,
      intro allI impI, assumption)
qed

text \<open>Two peers after the handshake for a service with slots of 36 bytes: the writer provides it, the reader has it requested.\<close>

definition example_block :: Shared_memory_metadata where
  "example_block = \<lparr>path = ''/s'', slot_size = 36, slot_count = 2\<rparr>"

definition block_configuration :: Shared_memory_configuration where
  "block_configuration = [(demo_service CHR ''S'', [(''S'', example_block)])]"

definition example_writer :: "Binding run" where
  "example_writer = and_then (add_client 0 0 (Binding_init block_configuration))
    (deliver_all demo_env (demo_answer 0)
      [Request_service (demo_service CHR ''S'') ''S'' True, Connect_service (demo_service CHR ''S'') ''S'' 1 example_block True])"

definition example_reader :: "Binding run" where
  "example_reader = and_then (add_client 0 0 (Binding_init block_configuration)) (\<lambda>b.
    and_then (send_request_service demo_env (demo_service CHR ''S'') ''S'' \<lparr>num_methods = 0, num_events = 2\<rparr> True b)
      (deliver_all demo_env (demo_answer 0)
        [Offer_service (demo_service CHR ''S'') ''S'' True, Connect_service_reply 1 1 example_block 0 2]))"

definition process_server :: Server_connector where
  "process_server =
    (Server_connector_init \<lparr>def_interface = \<lparr>sii_id = ''S'', sii_version = \<lparr>major = 1, minor = 0\<rparr>\<rparr>, def_num_methods = 0, def_num_events = 2\<rparr>
       ''S'' \<lparr>uid = 0, gid = 0\<rparr>)\<lparr>sc_registered := True, sc_stop_block_token := True, sc_client := Some 1, sc_subscriber := [Some 1, Some 1]\<rparr>"

definition process_runtime :: "payload Runtime" where
  "process_runtime = create_runtime\<lparr>rt_servers := [(0, process_server), (9, process_server)]\<rparr>"

lemma example_writer_reachable:
  assumes "example_writer = Ok b"
  shows "binding_reachable demo_env block_configuration b"
proof -
  let ?b0 = "Binding_init block_configuration"
  obtain b1 where a: "add_client 0 0 ?b0 = Ok b1"
    and d: "deliver_all demo_env (demo_answer 0) [Request_service (demo_service CHR ''S'') ''S'' True,
        Connect_service (demo_service CHR ''S'') ''S'' 1 example_block True] b1 = Ok b"
    using assms unfolding example_writer_def by (rule and_then_OkE)
  have c1: "get_reply_channel 0 (b_connections b1) = Some 0"
    using a get_reply_channel_add [of 0 0 "b_connections ?b0"] by (auto simp: add_client_def elim!: and_then_OkE)
  show ?thesis
    by (rule deliver_all_reachable [OF binding_reachable_step [OF binding_reachable_init binding_step.connect [OF a]] c1 d])
qed

lemma example_process_states:
  "map_sum id (\<lambda>b. (for_each_client 0 (b_id_mapping b),
      map_sum id (\<lambda>(r, b1). (map_sum id (\<lambda>p. (pl_slot_handle p, pl_span p)) r, map_option block_of (manager_of (b_slot_managers b1) 0)))
        (event_payload_allocate demo_env 0 b))) example_writer
    = Ok ([(0, \<lparr>ids_key = 0, local_handle = 1, remote_handle = 1, local_metadata = example_block, remote_metadata = example_block\<rparr>)],
        Ok (Ok (0, \<lparr>span_data = 4096, span_size = 36\<rparr>), Some (''/s'', 36, 2, 4096)))"
  "map_sum id (\<lambda>b. (get_by_remote_handle 0 1 (b_id_mapping b), Option.bind (states_get 0 (b_states b)) enabled_connector,
      map_sum id fst (get_read_only_shared_memory_slot_manager (e_shm_open demo_env) example_block (b_ro_managers b)))) example_reader
    = Ok (Some \<lparr>ids_key = 0, local_handle = 1, remote_handle = 1, local_metadata = example_block, remote_metadata = example_block\<rparr>,
        Some 9, Ok \<lparr>ro_base_address = 4096, ro_slot_size = 36, ro_slot_count = 2\<rparr>)"
  by code_simp+

lemma map_OkE:
  assumes "map_sum id f r = Ok v"
  obtains b where "r = Ok b" "f b = v"
  using assms by (cases r) auto

lemma example_writer_states:
  obtains b b1 p m where "example_writer = Ok b" "event_payload_allocate demo_env 0 b = Ok (Ok p, b1)"
    "for_each_client 0 (b_id_mapping b)
      = [(0, \<lparr>ids_key = 0, local_handle = 1, remote_handle = 1, local_metadata = example_block, remote_metadata = example_block\<rparr>)]"
    "manager_of (b_slot_managers b1) 0 = Some m" "block_of m = (''/s'', 36, 2, 4096)" "pl_slot_handle p = 0"
proof -
  obtain b where b: "example_writer = Ok b"
    and e: "(for_each_client 0 (b_id_mapping b),
      map_sum id (\<lambda>(r, b1). (map_sum id (\<lambda>p. (pl_slot_handle p, pl_span p)) r, map_option block_of (manager_of (b_slot_managers b1) 0)))
        (event_payload_allocate demo_env 0 b))
    = ([(0, \<lparr>ids_key = 0, local_handle = 1, remote_handle = 1, local_metadata = example_block, remote_metadata = example_block\<rparr>)],
        Ok (Ok (0, \<lparr>span_data = 4096, span_size = 36\<rparr>), Some (''/s'', 36, 2, 4096)))"
    by (rule map_OkE [OF example_process_states(1)])
  obtain r b1 where r: "event_payload_allocate demo_env 0 b = Ok (r, b1)" "map_sum id (\<lambda>p. (pl_slot_handle p, pl_span p)) r = Ok (0, \<lparr>span_data = 4096, span_size = 36\<rparr>)"
    "map_option block_of (manager_of (b_slot_managers b1) 0) = Some (''/s'', 36, 2, 4096)"
    using e by (auto elim!: map_OkE)
  obtain p where p: "r = Ok p" "pl_slot_handle p = 0" using r(2) by (auto elim!: map_OkE)
  show thesis using that [OF b r(1) [unfolded p(1)]] e r(3) p(2) by auto
qed

theorem sample_between_processes_witness:
  "\<exists>bw bw1 p br p1 mem1 bw2 h br2 p2. example_writer = Ok bw \<and> event_payload_allocate demo_env 0 bw = Ok (Ok p, bw1) \<and> example_reader = Ok br
    \<and> on_local_sample (\<lambda>_. Ok p) (fst example_local) (snd (hd (li_event_contexts (fst example_local))))
         (Some \<lparr>psd_size = 2, psd_data = [7, 9, 0]\<rparr>) ([], \<lambda>_. 0, process_runtime) = Ok ([], mem1, rt_emit [Client_event_update 1 1 p1] process_runtime)
    \<and> send_event_update demo_env 0 1 p1 bw1 = Ok bw2
    \<and> handle_event_update_message demo_env True 0 1 1 h br = Ok br2
    \<and> forward_to_vsomeip \<lparr>ln_instance_config = example_instance, ln_type_config = example_service, ln_client = None\<rparr> 1 p2 mem1
        = Ok ([Notify 0x1234 3 0x8002 [7, 9]], [Notify_consumed 0 1 h])"
proof -
  let ?ctx = "snd (hd (li_event_contexts (fst example_local)))" and ?obj = "\<lparr>psd_size = 2, psd_data = [7, 9, 0]\<rparr>"
  let ?ids = "\<lparr>ids_key = 0, local_handle = 1, remote_handle = 1, local_metadata = example_block, remote_metadata = example_block\<rparr>"
  let ?ro = "\<lparr>ro_base_address = 4096, ro_slot_size = 36, ro_slot_count = 2\<rparr>"
  obtain bw bw1 p m where w: "example_writer = Ok bw" "event_payload_allocate demo_env 0 bw = Ok (Ok p, bw1)"
    "for_each_client 0 (b_id_mapping bw) = [(0, ?ids)]" "manager_of (b_slot_managers bw1) 0 = Some m" "block_of m = (''/s'', 36, 2, 4096)"
    by (rule example_writer_states)
  obtain rt1 :: "unit Payload Runtime" where
    c: "LocalServiceInstance_Create (Some example_root) example_instance example_service [''b''] \<lparr>uid = 0, gid = 0\<rparr> create_runtime
      = Ok (Ok (fst example_local, snd example_local), rt1)"
    using example_local_created by auto
  have ev: "st_events example_service = Some [example_event ''a'' 0x8001 8, example_event ''b'' 0x8002 20]"
    "length [example_event ''a'' 0x8001 8, example_event ''b'' 0x8002 20] < 2 ^ 16" "SetReceiveHandler ''b'' ?ctx \<in> set (snd example_local)"
    by (simp_all add: example_service_def example_local_def Let_def)
  have s: "event_payload (\<lambda>_. Ok p) (li_server (fst example_local)) (lctx_socom_event_id ?ctx) process_runtime = Some (1, p)"
    by (simp add: event_payload_def example_local_def process_runtime_def process_server_def Server_connector_init_def Let_def)
  have m: "(0, ?ids) \<in> set (for_each_client 0 (b_id_mapping bw))" "unat (m_slot_count m) * unat (m_slot_size m) < 2 ^ 64"
    "16 + unat (psd_size ?obj) \<le> unat (m_slot_size m)" "m_base_address m = 4096"
    using w(3,5) by (simp_all add: block_of_def)
  obtain br where br: "example_reader = Ok br" and e: "(get_by_remote_handle 0 1 (b_id_mapping br), Option.bind (states_get 0 (b_states br)) enabled_connector,
      map_sum id fst (get_read_only_shared_memory_slot_manager (e_shm_open demo_env) example_block (b_ro_managers br))) = (Some ?ids, Some 9, Ok ?ro)"
    by (rule map_OkE [OF example_process_states(2)])
  obtain ros where r: "get_by_remote_handle 0 (remote_handle ?ids) (b_id_mapping br) = Some ?ids" "remote_metadata ?ids = local_metadata ?ids"
    "Option.bind (states_get (ids_key ?ids) (b_states br)) enabled_connector = Some 9"
    "get_read_only_shared_memory_slot_manager (e_shm_open demo_env) (local_metadata ?ids) (b_ro_managers br) = Ok (?ro, ros)"
    using e by (auto elim!: map_OkE)
  have o: "opened_for (local_metadata ?ids) ?ro" by (simp add: opened_for_def example_block_def)
  have v: "map_of (rt_servers process_runtime) 9 = Some process_server" "sc_update_event (lctx_socom_event_id ?ctx) process_server = Ok (Some 1)"
    by (simp_all add: process_runtime_def sc_update_event_def process_server_def Server_connector_init_def example_local_def Let_def word_le_nat_alt)
  have x: "lctx_socom_event_id ?ctx = 1" "ev_event_id (lctx_config ?ctx) = 0x8002" "st_service_id example_service = 0x1234"
    "si_instance_id example_instance = 3" "remote_handle ?ids = 1" "take (unat (psd_size ?obj)) (psd_data ?obj) = [7, 9]"
    by (simp_all add: example_local_def Let_def example_event_def example_service_def example_instance_def)
  have obj: "unat (psd_size ?obj) \<le> length (psd_data ?obj)" "unat (psd_size ?obj) < 2 ^ 32" by simp_all
  from sample_between_processes [where released = "[]" and mem = "\<lambda>_. 0",
      OF c ev s example_writer_reachable [OF w(1)] w(2) m(1) w(4) m(2,3) obj r o v, unfolded x] obtain p1 mem1 bw2 h p2 where
    e: "on_local_sample (\<lambda>_. Ok p) (fst example_local) ?ctx (Some ?obj) ([], \<lambda>_. 0, process_runtime)
        = Ok ([], mem1, rt_emit [Client_event_update 1 1 p1] process_runtime)"
      "send_event_update demo_env 0 1 p1 bw1 = Ok bw2"
      "handle_event_update_message demo_env True 0 1 1 h br = Ok (emit [Updated_event 9 1 p2] (br\<lparr>b_ro_managers := ros\<rparr>))"
      "\<forall>mem_r cl. shared_block mem1 (m_base_address m) mem_r (ro_base_address ?ro) (unat (m_slot_count m) * unat (m_slot_size m))
         \<longrightarrow> forward_to_vsomeip \<lparr>ln_instance_config = example_instance, ln_type_config = example_service, ln_client = cl\<rparr> 1 p2 mem_r
           = Ok ([Notify 0x1234 3 0x8002 [7, 9]], [Notify_consumed 0 1 h])"
    by blast
  have "shared_block mem1 (m_base_address m) mem1 (ro_base_address ?ro) (unat (m_slot_count m) * unat (m_slot_size m))"
    by (simp add: shared_block_def m(4))
  from e(4) [THEN spec, THEN spec, THEN mp, OF this, of None] show ?thesis using w(1,2) br e(1-3) by blast
qed

subsection \<open>The way back of a slot\<close>

text \<open>Acknowledgements of a slot: they count for the key, whoever sends them.\<close>

definition acknowledge :: "Shared_memory_handle \<Rightarrow> (Client_id \<times> Remote_handle) list \<Rightarrow> Binding \<Rightarrow> Binding" where
  "acknowledge h acks b = foldl (\<lambda>b (c, q). handle_payload_consumed_message c q h b) b acks"

lemma acknowledge_consumes:
  assumes "\<forall>(c, q) \<in> set acks. \<exists>ids. get_by_remote_handle c q (b_id_mapping b) = Some ids \<and> ids_key ids = key"
  shows "b_slot_managers (acknowledge h acks b) = (consume key h ^^ length acks) (b_slot_managers b)"
  using assms
proof (induction acks arbitrary: b)
  case Nil
  then show ?case by (simp add: acknowledge_def)
next
  case (Cons a acks)
  obtain c q where a: "a = (c, q)" by force
  let ?b = "handle_payload_consumed_message c q h b"
  have t: "b_id_mapping ?b = b_id_mapping b" "b_slot_managers ?b = consume key h (b_slot_managers b)"
    using Cons.prems a by (auto simp: handle_payload_consumed_message_def consume_def case_prod_unfold Let_def)
  have "acknowledge h (a # acks) b = acknowledge h acks ?b" by (simp add: acknowledge_def a)
  then show ?case using Cons.IH [of ?b] Cons.prems t by (simp add: funpow_swap1)
qed

lemma sent_to_all:
  assumes "\<forall>ch msg. e_send_ok env ch msg"
  shows "length (filter (\<lambda>(ch, msg). e_send_ok env ch msg) ms) = length ms"
  using assms by (induction ms) auto

lemma update_records_consumers:
  assumes "binding_ok (b_connections b) b" and "payload_data p = Ok d" and "\<forall>ch msg. e_send_ok env ch msg"
    and "send_event_update env key event p b = Ok b'"
  shows "\<exists>cbs. insert_allocation key p (of_nat (length (for_each_client key (b_id_mapping b)))) (b_slot_managers b)
      = Ok (cbs, b_slot_managers b')"
  using assms(4) unfolding send_event_update_eq [OF assms(1,2)] sent_to_all [OF assms(3)]
  by (auto simp: event_messages_def elim!: and_then_OkE)



end
