(* ===== verification/Runtime_Connectors.thy ===== *)
theory Runtime_Connectors
  imports Runtime_Properties
begin

text \<open>
  Which connectors exist: the operations of the runtime create and destroy exactly the connector they
  are called for. The owners of connectors use this to know that theirs are still there.
\<close>

definition clients_of :: "'p Runtime \<Rightarrow> client_ref set" where
  "clients_of rt = set (keys (rt_clients rt))"

definition servers_of :: "'p Runtime \<Rightarrow> server_ref set" where
  "servers_of rt = set (keys (rt_servers rt))"

definition same_connectors :: "'p Runtime \<Rightarrow> 'p Runtime \<Rightarrow> bool" where
  "same_connectors rt rt' \<longleftrightarrow> clients_of rt' = clients_of rt \<and> servers_of rt' = servers_of rt"

lemma connector_lookup:
  "c \<in> clients_of rt \<longleftrightarrow> (\<exists>cc. map_of (rt_clients rt) c = Some cc)"
  "s \<in> servers_of rt \<longleftrightarrow> (\<exists>sc. map_of (rt_servers rt) s = Some sc)"
  by (auto simp: clients_of_def servers_of_def map_of_eq_None_iff simp flip: not_None_eq)

lemma same_connectors_trans: "same_connectors a b \<Longrightarrow> same_connectors b c \<Longrightarrow> same_connectors a c"
  by (simp add: same_connectors_def)

lemma same_connectors_simps [simp]:
  "same_connectors rt rt" "same_connectors rt (rt_emit es rt)"
  "same_connectors rt (rt\<lparr>rt_database := db\<rparr>)"
  by (simp_all add: same_connectors_def clients_of_def servers_of_def rt_emit_def)

lemma connectors_frame [simp]:
  "clients_of (rt_emit es rt) = clients_of rt" "servers_of (rt_emit es rt) = servers_of rt"
  "clients_of (rt\<lparr>rt_database := db\<rparr>) = clients_of rt" "servers_of (rt\<lparr>rt_database := db\<rparr>) = servers_of rt"
  "clients_of (rt\<lparr>rt_servers := ss\<rparr>) = clients_of rt" "servers_of (rt\<lparr>rt_clients := cs\<rparr>) = servers_of rt"
  "servers_of (rt\<lparr>rt_servers := AList.update s sc (rt_servers rt)\<rparr>) = insert s (servers_of rt)"
  "clients_of (rt\<lparr>rt_clients := AList.update c cc (rt_clients rt)\<rparr>) = insert c (clients_of rt)"
  by (simp_all add: clients_of_def servers_of_def rt_emit_def dom_update)

lemma same_connections_connectors: "same_connections rt rt' \<Longrightarrow> same_connectors rt rt'"
  by (simp add: same_connections_def same_connectors_def clients_of_def servers_of_def)

subsection \<open>Operations on existing connectors\<close>

lemma insert_known:
  "map_of (rt_clients rt) c = Some cc \<Longrightarrow> insert c (clients_of rt) = clients_of rt"
  "map_of (rt_servers rt) s = Some sc \<Longrightarrow> insert s (servers_of rt) = servers_of rt"
  by (auto simp: connector_lookup)

lemma server_remove_client_same: "server_remove_client s rt = Ok rt' \<Longrightarrow> same_connectors rt rt'"
  by (auto simp: server_remove_client_def same_connectors_def insert_known split: option.splits elim!: and_then_OkE)

lemma client_reset_server_same:
  assumes "client_reset_server c rt = Ok rt'"
  shows "same_connectors rt rt'"
proof (cases "map_of (rt_clients rt) c")
  case None
  then show ?thesis using assms by (simp add: client_reset_server_def)
next
  case (Some cc)
  show ?thesis
  proof (cases "cc_server cc")
    case None
    then show ?thesis using assms Some by (simp add: client_reset_server_def)
  next
    case (Some s)
    then have "server_remove_client s (rt\<lparr>rt_clients := AList.update c (cc\<lparr>cc_server := None\<rparr>) (rt_clients rt)\<rparr>) = Ok rt'"
      using assms \<open>map_of (rt_clients rt) c = Some cc\<close> by (simp add: client_reset_server_def)
    from server_remove_client_same [OF this] show ?thesis
      using insert_known(1) [OF \<open>map_of (rt_clients rt) c = Some cc\<close>] by (simp add: same_connectors_def)
  qed
qed

lemma client_receive_state_change_same: "client_receive_state_change c av cfg rt = Ok rt' \<Longrightarrow> same_connectors rt rt'"
  by (auto simp: client_receive_state_change_def same_connectors_def split: if_splits elim!: and_then_OkE dest!: client_reset_server_same)

lemma set_id_mappings_same:
  assumes "set_id_mappings_and_server c s rt = Ok (r, rt')"
  shows "same_connectors rt rt'"
proof (cases "map_of (rt_clients rt) c")
  case None
  then show ?thesis using assms by (simp add: set_id_mappings_and_server_def)
next
  case (Some cc)
  consider "rt' = rt" | rt1 cc' where "client_reset_server c rt = Ok rt1" "rt' = rt1\<lparr>rt_clients := AList.update c cc' (rt_clients rt1)\<rparr>"
    using assms Some by (auto simp: set_id_mappings_and_server_def split: if_splits elim!: and_then_OkE)
  then show ?thesis
  proof cases
    case 2
    then show ?thesis using client_reset_server_same [OF 2(1)] insert_known(1) [OF Some] by (simp add: same_connectors_def)
  qed simp
qed

lemma on_server_update_same:
  assumes "on_server_update c s rt = Ok rt'"
  shows "same_connectors rt rt'"
proof -
  consider "rt' = rt"
    | sc sc' b rt1 where "map_of (rt_servers rt) s = Some sc"
        "set_id_mappings_and_server c s (rt\<lparr>rt_servers := AList.update s sc' (rt_servers rt)\<rparr>) = Ok (b, rt1)"
        "client_receive_state_change c True (sc_configuration sc) rt1 = Ok rt' \<or> server_remove_client s rt1 = Ok rt'"
    using assms by (auto simp: on_server_update_def split: option.splits if_splits sum.splits elim!: and_then_OkE)
  then show ?thesis
  proof cases
    case 2
    have "same_connectors rt1 rt'" using 2(3) client_receive_state_change_same server_remove_client_same by blast
    moreover have "same_connectors rt rt1" using set_id_mappings_same [OF 2(2)] insert_known(2) [OF 2(1)] by (simp add: same_connectors_def)
    ultimately show ?thesis by (blast intro: same_connectors_trans)
  qed simp
qed

lemma enable_server_same:
  assumes "enable_server s rt = Ok rt'"
  shows "same_connectors rt rt'"
proof -
  obtain sc rt1 sc1 where sc: "map_of (rt_servers rt) s = Some sc" "map_of (rt_servers rt1) s = Some sc1"
    and reg: "rt_register_server (def_interface (sc_configuration sc)) (sc_instance sc) s
        (rt\<lparr>rt_servers := AList.update s (sc\<lparr>sc_stop_block_token := True\<rparr>) (rt_servers rt)\<rparr>) = Ok rt1"
    and rt': "rt' = rt1\<lparr>rt_servers := AList.update s (sc1\<lparr>sc_registered := True\<rparr>) (rt_servers rt1)\<rparr>"
    using assms by (auto simp: enable_server_def split: option.splits elim!: and_then_OkE)
  have "same_connectors (rt\<lparr>rt_servers := AList.update s (sc\<lparr>sc_stop_block_token := True\<rparr>) (rt_servers rt)\<rparr>) rt1"
    using reg
    by (auto simp: rt_register_server_def Let_def same_connectors_def split: option.splits if_splits prod.splits
        dest!: on_server_update_same)
  then show ?thesis using insert_known(2) [OF sc(1)] insert_known(2) [OF sc(2)] by (simp add: rt' same_connectors_def)
qed

lemma disable_server_same:
  assumes "disable_server s rt = Ok (r, rt')"
  shows "same_connectors rt rt'"
proof (cases "map_of (rt_servers rt) s")
  case None
  then show ?thesis using assms by (simp add: disable_server_def)
next
  case (Some sc)
  let ?sc1 = "sc_unsubscribe_all (sc\<lparr>sc_registered := False, sc_stop_block_token := False\<rparr>)"
  let ?rt1 = "\<lambda>db. rt\<lparr>rt_database := db, rt_servers := AList.update s ?sc1 (rt_servers rt)\<rparr>"
  have eq: "same_connectors rt (?rt1 db)" for db
    using insert_known(2) [OF Some] by (simp add: same_connectors_def clients_of_def servers_of_def dom_update)
  consider "rt' = rt" | db where "send_all_not_available s ?sc1 (?rt1 db) = Ok rt'"
    using assms Some by (auto simp: disable_server_def Let_def split: if_splits elim!: and_then_OkE)
  then show ?thesis
  proof cases
    case 2
    then have "same_connectors (?rt1 db) rt'"
      by (cases "sc_client ?sc1") (simp_all add: send_all_not_available_def client_receive_state_change_same)
    then show ?thesis by (rule same_connectors_trans [OF eq])
  qed simp
qed

lemma subscribe_event_same: "subscribe_event c e mode rt = Ok (r, rt') \<Longrightarrow> same_connectors rt rt'"
  by (auto simp: subscribe_event_def lock_server_def run_on_server_def case_prod_unfold Let_def same_connectors_def insert_known
      split: option.splits)

subsection \<open>Creation and destruction\<close>

lemma make_server_connectors:
  assumes "make_server_connector cbs cfg inst cred rt = (Ok s, rt')"
  shows "s = rt_next rt" and "clients_of rt' = clients_of rt" and "servers_of rt' = insert s (servers_of rt)"
proof -
  obtain ids sc where s: "s = rt_next rt"
    and rt': "rt' = rt\<lparr>rt_next := s + 1, rt_service_identifiers := ids, rt_servers := AList.update s sc (rt_servers rt)\<rparr>"
    using assms by (auto simp: make_server_connector_def Let_def split: if_splits)
  show "s = rt_next rt" by (rule s)
  show "clients_of rt' = clients_of rt" "servers_of rt' = insert s (servers_of rt)"
    unfolding rt' clients_of_def servers_of_def by (simp_all add: dom_update)
qed

lemma make_server_failed: "make_server_connector cbs cfg inst cred rt = (Err e, rt') \<Longrightarrow> rt' = rt"
  by (auto simp: make_server_connector_def Let_def split: if_splits)

lemma delete_keys_sets:
  "clients_of (rt\<lparr>rt_clients := AList.delete c (rt_clients rt)\<rparr>) = clients_of rt - {c}"
  "servers_of (rt\<lparr>rt_servers := AList.delete s (rt_servers rt)\<rparr>) = servers_of rt - {s}"
  by (auto simp: clients_of_def servers_of_def delete_keys)

lemma bridge_requests_connectors [simp]:
  "clients_of (snd (get_bridge_requests cfg inst i rt)) = clients_of rt"
  "servers_of (snd (get_bridge_requests cfg inst i rt)) = servers_of rt"
  using same_connections_connectors [OF get_bridge_requests_frame [of rt cfg inst i]] by (simp_all add: same_connectors_def)

lemma register_client_same:
  "rt_register_client cfg inst c rt = Ok (r, rt') \<Longrightarrow> same_connectors rt rt'"
  by (auto simp: rt_register_client_def get_or_create_service_requests_def Let_def same_connectors_def case_prod_unfold
      split: if_splits option.splits elim!: and_then_OkE dest!: on_server_update_same)

lemma make_client_connectors:
  assumes "make_client_connector cbs cfg inst cred rt = Ok (Ok c, rt')"
  shows "c = rt_next rt" and "clients_of rt' = insert c (clients_of rt)" and "servers_of rt' = servers_of rt"
proof -
  let ?rt = "\<lambda>cc. rt\<lparr>rt_next := rt_next rt + 1, rt_clients := AList.update (rt_next rt) cc (rt_clients rt)\<rparr>"
  obtain cc m rt1 cc1 where c: "c = rt_next rt" and r: "rt_register_client cfg inst (rt_next rt) (?rt cc) = Ok (Ok m, rt1)"
    and rt': "rt' = rt1\<lparr>rt_clients := AList.update c cc1 (rt_clients rt1)\<rparr>"
    using assms by (auto simp: make_client_connector_def Let_def split: if_splits sum.splits option.splits elim!: and_then_OkE)
  have "same_connectors (?rt cc) rt1" by (rule register_client_same [OF r])
  moreover have "clients_of (?rt cc) = insert c (clients_of rt)" "servers_of (?rt cc) = servers_of rt"
    unfolding clients_of_def servers_of_def c by (simp_all add: dom_update)
  ultimately show "c = rt_next rt" "clients_of rt' = insert c (clients_of rt)" "servers_of rt' = servers_of rt"
    by (simp_all add: c rt' same_connectors_def)
qed

lemma make_client_failed:
  assumes "make_client_connector cbs cfg inst cred rt = Ok (Err e, rt')" and "runtime_ok rt"
  shows "same_connectors rt rt'"
proof (cases "is_valid_client cbs")
  case False
  then show ?thesis using assms(1) by (simp add: make_client_connector_def)
next
  case True
  let ?rt = "rt_with_client cfg inst cred rt"
  have new: "rt_next rt \<notin> clients_of rt" using fresh_refs(2) [OF assms(2)] by (simp add: connector_lookup)
  let ?fin = "\<lambda>(x, rt1). case x of
         Err e \<Rightarrow> Ok (Err e, rt1\<lparr>rt_clients := AList.delete (rt_next rt) (rt_clients rt1)\<rparr>)
       | Ok m \<Rightarrow> (case map_of (rt_clients rt1) (rt_next rt) of
                None \<Rightarrow> Err Null_deref
              | Some cc1 \<Rightarrow> Ok (Ok (rt_next rt), rt1\<lparr>rt_clients := AList.update (rt_next rt) (cc1\<lparr>cc_registered := True, cc_requests := m\<rparr>) (rt_clients rt1)\<rparr>))"
  have "and_then (rt_register_client cfg inst (rt_next rt) ?rt) ?fin = Ok (Err e, rt')"
    using assms(1) True by (simp add: make_client_connector_def new_client_def Let_def)
  then obtain p where p: "rt_register_client cfg inst (rt_next rt) ?rt = Ok p" "?fin p = Ok (Err e, rt')" by (rule and_then_OkE)
  obtain x rt1 where x: "p = (x, rt1)" by (cases p)
  note r = p(1) [unfolded x] and fin = p(2) [unfolded x prod.case]
  have "rt' = rt1\<lparr>rt_clients := AList.delete (rt_next rt) (rt_clients rt1)\<rparr>"
    using fin by (cases x) (simp_all split: option.splits)
  moreover have "same_connectors ?rt rt1" by (rule register_client_same [OF r])
  moreover have "clients_of ?rt = insert (rt_next rt) (clients_of rt)" "servers_of ?rt = servers_of rt"
    unfolding clients_of_def servers_of_def by (simp_all add: dom_update)
  ultimately show ?thesis using new by (simp add: same_connectors_def delete_keys_sets)
qed

lemma destroy_client_connectors:
  assumes "destroy_client c rt = Ok (r, rt')"
  shows "clients_of rt' = clients_of rt - {c}" and "servers_of rt' = servers_of rt"
proof -
  obtain cc rt2 rt3 where cc: "map_of (rt_clients rt) c = Some cc"
    and r: "client_reset_server c (rt\<lparr>rt_clients := AList.update c (cc\<lparr>cc_stop_block_token := False\<rparr>) (rt_clients rt)\<rparr>) = Ok rt2"
    and rt3: "same_connectors rt2 rt3" and rt': "rt' = rt3\<lparr>rt_clients := AList.delete c (rt_clients rt3)\<rparr>"
  proof -
    obtain cc rt2 where cc: "map_of (rt_clients rt) c = Some cc"
      and r: "client_reset_server c (rt\<lparr>rt_clients := AList.update c (cc\<lparr>cc_stop_block_token := False\<rparr>) (rt_clients rt)\<rparr>) = Ok rt2"
      using assms by (auto simp: destroy_client_def Let_def split: option.splits elim!: and_then_OkE)
    let ?db = "\<lambda>rt2. rt2\<lparr>rt_database := db_store (def_interface (cc_configuration cc)) (cc_instance cc)
        (db_record (def_interface (cc_configuration cc)) (cc_instance cc) (rt_database rt2)\<lparr>rec_client := None\<rparr>) (rt_database rt2)\<rparr>"
    let ?rt3 = "if cc_registered cc then release_bridge_requests (cc_requests cc) (def_interface (cc_configuration cc), cc_instance cc) (?db rt2) else rt2"
    have "same_connectors rt2 ?rt3"
      using same_connections_connectors [OF release_bridge_requests_frame, of "?db rt2"] by (auto simp: same_connectors_def)
    moreover have "rt' = ?rt3\<lparr>rt_clients := AList.delete c (rt_clients ?rt3)\<rparr>"
      using assms cc r by (simp add: destroy_client_def Let_def)
    ultimately show thesis using that [OF cc r] by blast
  qed
  show "clients_of rt' = clients_of rt - {c}" "servers_of rt' = servers_of rt"
    using client_reset_server_same [OF r] rt3 insert_known(1) [OF cc] by (auto simp: rt' same_connectors_def delete_keys_sets)
qed

lemma destroy_server_connectors:
  assumes "destroy_server s rt = Ok (r, rt')"
  shows "clients_of rt' = clients_of rt" and "servers_of rt' = servers_of rt - {s}"
  using assms
  by (auto simp: destroy_server_def same_connectors_def split: option.splits elim!: and_then_OkE dest!: disable_server_same)
    (auto simp: clients_of_def servers_of_def delete_keys)

subsection \<open>Owners of connectors\<close>

text \<open>The owners of a program know exactly the connectors there are. A client may be owned by a pointer
  that is still null.\<close>

definition owners_ok :: "server_ref list \<Rightarrow> client_ref option list \<Rightarrow> 'p Runtime \<Rightarrow> bool" where
  "owners_ok ss cs rt \<longleftrightarrow> runtime_ok rt \<and> distinct ss \<and> set ss = servers_of rt \<and> distinct cs \<and> set cs = Some ` clients_of rt"

lemma owners_okD:
  assumes "owners_ok ss cs rt"
  shows "runtime_ok rt" "distinct ss" "set ss = servers_of rt" "distinct cs" "set cs = Some ` clients_of rt"
  using assms unfolding owners_ok_def by blast+

lemma owners_okI:
  "runtime_ok rt \<Longrightarrow> distinct ss \<Longrightarrow> set ss = servers_of rt \<Longrightarrow> distinct cs \<Longrightarrow> set cs = Some ` clients_of rt \<Longrightarrow> owners_ok ss cs rt"
  unfolding owners_ok_def by blast

lemma owners_ok_same: "owners_ok ss cs rt \<Longrightarrow> runtime_ok rt' \<Longrightarrow> same_connectors rt rt' \<Longrightarrow> owners_ok ss cs rt'"
  by (simp add: owners_ok_def same_connectors_def)

lemma owners_ok_none: "owners_ok [] [] rt \<Longrightarrow> clients_of rt = {} \<and> servers_of rt = {}"
  by (simp add: owners_ok_def)

lemma create_runtime_owners: "owners_ok [] [] create_runtime"
  using create_runtime_ok by (simp add: owners_ok_def servers_of_def clients_of_def create_runtime_def)

lemma owners_ok_server:
  assumes "owners_ok ss cs rt" and m: "make_server_connector cbs cfg inst cred rt = (Ok s, rt1)" and e: "enable_server s rt1 = Ok rt2"
  shows "owners_ok (ss @ [s]) cs rt2"
proof -
  note ok = owners_okD [OF assms(1)]
  have ok1: "runtime_ok rt1" using make_server_ok [OF ok(1), of cbs cfg inst cred] m by simp
  obtain sc where sc: "map_of (rt_servers rt1) s = Some sc" "\<not> sc_registered sc"
    "rec_server (db_record (s_interface sc) (sc_instance sc) (rt_database rt1)) = None"
    using enable_precondition [OF e] by blast
  have "runtime_ok rt2" using enable_server_ok [OF ok1 sc] e by auto
  moreover have "s \<notin> servers_of rt" using fresh_refs(1) [OF ok(1)] make_server_connectors(1) [OF m] by (simp add: connector_lookup)
  ultimately show ?thesis using enable_server_same [OF e] make_server_connectors(2,3) [OF m] ok(2-5)
    by (auto simp: owners_ok_def same_connectors_def)
qed

lemma owners_ok_client:
  assumes "owners_ok ss cs rt" and m: "make_client_connector cbs cfg inst cred rt = Ok (q, rt1)"
  shows "case q of Err e \<Rightarrow> owners_ok ss cs rt1 | Ok c \<Rightarrow> owners_ok ss (cs @ [Some c]) rt1"
proof -
  note ok = owners_okD [OF assms(1)]
  have ok1: "runtime_ok rt1" using make_client_ok [OF ok(1), of cbs cfg inst cred] m by auto
  show ?thesis
  proof (cases q)
    case (Inl e)
    then show ?thesis using owners_ok_same [OF assms(1) ok1 make_client_failed [OF m [unfolded Inl] ok(1)]] by simp
  next
    case (Inr c)
    have "c \<notin> clients_of rt" using fresh_refs(2) [OF ok(1)] make_client_connectors(1) [OF m [unfolded Inr]] by (simp add: connector_lookup)
    then show ?thesis using make_client_connectors(2,3) [OF m [unfolded Inr]] ok(2-5) ok1 by (auto simp: owners_ok_def Inr)
  qed
qed

text \<open>The destructors of a list of owners; the flag says whether all waits ended.\<close>

definition destroy_clients :: "client_ref option list \<Rightarrow> bool \<times> 'p Runtime \<Rightarrow> (bool \<times> 'p Runtime) run" where
  "destroy_clients = fold_run (\<lambda>c (ended, rt). (case c of
      None \<Rightarrow> Ok (ended, rt)
    | Some c \<Rightarrow> and_then (destroy_client c rt) (\<lambda>(ended', rt'). Ok (ended \<and> ended', rt'))))"

definition destroy_servers :: "server_ref list \<Rightarrow> bool \<times> 'p Runtime \<Rightarrow> (bool \<times> 'p Runtime) run" where
  "destroy_servers = fold_run (\<lambda>s (ended, rt). and_then (destroy_server s rt) (\<lambda>(ended', rt'). Ok (ended \<and> ended', rt')))"

lemma destroy_clients_end:
  assumes "owners_ok ss cs rt"
  shows "\<exists>rt'. destroy_clients cs (True, rt) = Ok (True, rt') \<and> owners_ok ss [] rt'"
  using assms unfolding destroy_clients_def
proof (induction cs arbitrary: rt)
  case (Cons p cs)
  note ok = owners_okD [OF Cons.prems]
  have "p \<in> Some ` clients_of rt" unfolding ok(5) [symmetric] by simp
  then obtain c where c: "p = Some c" "c \<in> clients_of rt" by blast
  obtain rt1 where rt1: "destroy_client c rt = Ok (True, rt1)" "runtime_ok rt1"
    using destroy_client_ok [OF ok(1)] c(2) unfolding connector_lookup by blast
  note gone = destroy_client_connectors [OF rt1(1)]
  have "set cs = set (p # cs) - {p}" using ok(4) by auto
  also have "\<dots> = Some ` clients_of rt - {Some c}" by (simp only: ok(5) [unfolded c(1)] c(1))
  also have "\<dots> = Some ` clients_of rt1" unfolding gone(1) by blast
  finally have "set cs = Some ` clients_of rt1" .
  moreover have "distinct cs" using ok(4) by simp
  ultimately have "owners_ok ss cs rt1" using owners_okI [OF rt1(2) ok(2) ok(3) [folded gone(2)]] by blast
  from Cons.IH [OF this] show ?case by (simp add: c(1) rt1(1))
qed simp

lemma destroy_servers_end:
  assumes "owners_ok ss cs rt"
  shows "\<exists>rt'. destroy_servers ss (True, rt) = Ok (True, rt') \<and> owners_ok [] cs rt'"
  using assms unfolding destroy_servers_def
proof (induction ss arbitrary: rt)
  case (Cons s ss)
  note ok = owners_okD [OF Cons.prems]
  have "s \<in> servers_of rt" unfolding ok(3) [symmetric] by simp
  then obtain rt1 where rt1: "destroy_server s rt = Ok (True, rt1)" "runtime_ok rt1"
    using destroy_server_ok [OF ok(1)] unfolding connector_lookup by blast
  note gone = destroy_server_connectors [OF rt1(1)]
  have "set ss = set (s # ss) - {s}" using ok(2) by auto
  then have "set ss = servers_of rt1" unfolding ok(3) gone(2) .
  moreover have "distinct ss" using ok(2) by simp
  ultimately have "owners_ok ss cs rt1" using owners_okI [OF rt1(2) _ _ ok(4) ok(5) [folded gone(1)]] by blast
  from Cons.IH [OF this] show ?case by (simp add: rt1(1))
qed simp

end
