(* ===== verification/Daemon_Main.thy ===== *)
theory Daemon_Main
  imports Someipd Ipc_Endpoints Event_Path Runtime_Connectors "HOL-Library.Stream"
begin

text \<open>
  The main program of the gateway daemon (\<^verbatim>\<open>gatewayd/main.cpp\<close>) and the waiting loops of both daemons: start, waiting for the
  peer, the main loop that runs until a signal asks for shutdown, and the destruction of everything \<^verbatim>\<open>main\<close> owns, in the
  order of C++.

  A daemon only waits; signal handlers and callbacks of the libraries run meanwhile. What they do between two readings
  of the flag is a list of events, and an execution is given by the stream of these lists. A loop that
  never ends returns \<open>None\<close>; a fault of a callback ends the process. Using a vector whose lifetime has ended is
  a fault, too.
\<close>

subsection \<open>Waiting\<close>

text \<open>\<^verbatim>\<open>while (!finished) { sleep }\<close>.\<close>

partial_function (option) wait_loop ::
    "('e \<Rightarrow> 's \<Rightarrow> 's run) \<Rightarrow> ('s \<Rightarrow> bool) \<Rightarrow> 'e list stream \<Rightarrow> 's \<Rightarrow> ('s \<times> 'e list stream) run option" where
  "wait_loop step finished ticks s =
    (if finished s then Some (Ok (s, ticks))
     else (case fold_run step (shd ticks) s of
         Err f \<Rightarrow> Some (Err f)
       | Ok s' \<Rightarrow> wait_loop step finished (stl ticks) s'))"

lemma wait_loop_done: "finished s \<Longrightarrow> wait_loop step finished ticks s = Some (Ok (s, ticks))"
  by (simp add: wait_loop.simps)

lemma wait_loop_tick:
  "\<not> finished s \<Longrightarrow> wait_loop step finished (es ## ticks) s
    = (case fold_run step es s of Err f \<Rightarrow> Some (Err f) | Ok s' \<Rightarrow> wait_loop step finished ticks s')"
  by (subst wait_loop.simps) (simp split: sum.split)

text \<open>Continuing after something that may wait.\<close>

definition then_wait :: "'a run option \<Rightarrow> ('a \<Rightarrow> 'b run option) \<Rightarrow> 'b run option" where
  "then_wait r f = (case r of None \<Rightarrow> None | Some (Err e) \<Rightarrow> Some (Err e) | Some (Ok x) \<Rightarrow> f x)"

lemma then_wait_simps [simp]:
  "then_wait None f = None" "then_wait (Some (Err e)) f = Some (Err e)" "then_wait (Some (Ok x)) f = f x"
  by (simp_all add: then_wait_def)

lemma then_wait_OkE:
  assumes "then_wait r f = Some (Ok y)"
  obtains x where "r = Some (Ok x)" "f x = Some (Ok y)"
  using assms by (auto simp: then_wait_def split: option.splits sum.splits)

lemma then_wait_returns:
  assumes "r \<noteq> None" and "\<And>x. r = Some (Ok x) \<Longrightarrow> f x \<noteq> None"
  shows "then_wait r f \<noteq> None"
  using assms by (cases r) (auto simp: then_wait_def split: sum.splits)

lemma fold_run_establishes:
  assumes "fold_run step es s = Ok s'" and "e \<in> set es"
    and "\<And>s s'. step e s = Ok s' \<Longrightarrow> P s'" and "\<And>x s s'. P s \<Longrightarrow> step x s = Ok s' \<Longrightarrow> P s'"
  shows "P s'"
  using assms(1,2)
proof (induction es arbitrary: s)
  case (Cons x es)
  then obtain t where t: "step x s = Ok t" "fold_run step es t = Ok s'" by (auto elim: and_then_OkE)
  show ?case
  proof (cases "e = x")
    case True
    show ?thesis by (rule fold_run_invariant [where I = P, OF _ _ t(2)]) (use assms(3,4) t(1) True in auto)
  qed (use Cons.IH [OF t(2)] Cons.prems(2) in auto)
qed simp

text \<open>The loop ends when an event that finishes it arrives.\<close>

lemma wait_loop_ends:
  assumes "e \<in> set (ticks !! n)"
    and "\<And>s s'. step e s = Ok s' \<Longrightarrow> P s'" and "\<And>x s s'. P s \<Longrightarrow> step x s = Ok s' \<Longrightarrow> P s'" and "\<And>s. P s \<Longrightarrow> finished s"
  shows "wait_loop step finished ticks s \<noteq> None"
  using assms(1)
proof (induction n arbitrary: ticks s)
  case 0
  have "wait_loop step finished t s' \<noteq> None" if "fold_run step (shd ticks) s = Ok s'" for s' t
  proof -
    have "P s'" by (rule fold_run_establishes [OF that _ assms(2,3)]) (use 0 in simp_all)
    then show ?thesis by (simp add: wait_loop.simps assms(4))
  qed
  then show ?case by (subst wait_loop.simps) (simp split: sum.splits)
next
  case (Suc n)
  then have "wait_loop step finished (stl ticks) s' \<noteq> None" for s' by simp
  then show ?case by (subst wait_loop.simps) (simp split: sum.splits)
qed

text \<open>When it has ended, what was waited for holds, and the events so far have been handled.\<close>

lemma wait_loop_ended:
  assumes "wait_loop step finished ticks s = Some (Ok (s', ticks'))"
  shows "finished s' \<and> (\<exists>n. ticks' = sdrop n ticks \<and> fold_run step (concat (stake n ticks)) s = Ok s')"
proof -
  have "r = Ok (s', ticks') \<longrightarrow> finished s' \<and> (\<exists>n. ticks' = sdrop n ticks \<and> fold_run step (concat (stake n ticks)) s = Ok s')"
    if "wait_loop step finished ticks s = Some r" for r
  proof (rule wait_loop.raw_induct [OF _ that])
    fix w step finished ticks s r
    assume IH: "\<And>step finished ticks s r. w step finished ticks s = Some r \<Longrightarrow> r = Ok (s', ticks') \<longrightarrow>
        finished s' \<and> (\<exists>n. ticks' = sdrop n ticks \<and> fold_run step (concat (stake n ticks)) s = Ok s')"
      and r: "(if finished s then Some (Ok (s, ticks))
        else case fold_run step (shd ticks) s of Err f \<Rightarrow> Some (Err f) | Ok s' \<Rightarrow> w step finished (stl ticks) s') = Some r"
    show "r = Ok (s', ticks') \<longrightarrow> finished s' \<and> (\<exists>n. ticks' = sdrop n ticks \<and> fold_run step (concat (stake n ticks)) s = Ok s')"
    proof (cases "finished s")
      case True
      then show ?thesis using r by (auto intro!: exI [of _ 0])
    next
      case False
      have "finished s' \<and> (\<exists>n. ticks' = sdrop n ticks \<and> fold_run step (concat (stake n ticks)) s = Ok s')"
        if res: "r = Ok (s', ticks')"
      proof -
        obtain t where t: "fold_run step (shd ticks) s = Ok t" "w step finished (stl ticks) t = Some r"
          using False r res by (auto split: sum.splits)
        from IH [OF t(2)] res obtain n where n: "finished s'" "ticks' = sdrop n (stl ticks)"
          "fold_run step (concat (stake n (stl ticks))) t = Ok s'" by blast
        have "ticks' = sdrop (Suc n) ticks \<and> fold_run step (concat (stake (Suc n) ticks)) s = Ok s'" using n t(1) by simp
        then show ?thesis using n(1) by blast
      qed
      then show ?thesis by blast
    qed
  qed
  then show ?thesis using assms by blast
qed

subsection \<open>The gateway daemon\<close>

definition or_empty :: "'a list option \<Rightarrow> 'a list" where
  "or_empty xs = (case xs of None \<Rightarrow> [] | Some ys \<Rightarrow> ys)"

lemma or_empty_simps [simp]: "or_empty None = []" "or_empty (Some xs) = xs"
  by (simp_all add: or_empty_def)

text \<open>The handler of SIGTERM and SIGINT of both daemons.\<close>

definition termination_handler :: "bool \<Rightarrow> bool" where
  "termination_handler shutdown_requested = True"

text \<open>The state of a running daemon. \<open>gw_local_service_instances\<close> is \<open>None\<close> while the vector of \<^verbatim>\<open>main\<close> does not exist;
  the searches are those that were started and not stopped.\<close>

record gatewayd_state =
  gw_shutdown_requested :: bool
  gw_binding_client :: Client
  gw_socom_runtime :: "payload Runtime"
  gw_searches :: "(ServiceInstance \<times> ServiceType) list"
  gw_local_service_instances :: "LocalServiceInstance list option"
  gw_remote_service_instances :: "RemoteServiceInstance list"

text \<open>Signals, the two callbacks of the channel, and the callback of a started search.\<close>

datatype gatewayd_event =
    Gw_signal
  | Gw_state_change stop_reason client_state
  | Gw_message runtime_answer nat "u8 list"
  | Gw_service_found ServiceInstance ServiceType "string list option list"

text \<open>The callback of a search keeps a reference to the vector; it stops its search when it has added an instance.\<close>

definition search_callback ::
    "Root option \<Rightarrow> Posix_credentials \<Rightarrow> ServiceInstance \<Rightarrow> ServiceType \<Rightarrow> string list option list \<Rightarrow> gatewayd_state \<Rightarrow> gatewayd_state run" where
  "search_callback plugin cred si st handles w =
    and_then (on_local_service_found plugin si st cred handles (or_empty (gw_local_service_instances w), gw_socom_runtime w))
      (\<lambda>(found, _, instances, rt).
        if \<not> found then Ok (w\<lparr>gw_socom_runtime := rt\<rparr>)
        else if gw_local_service_instances w = None then Err Null_deref
        else Ok (w\<lparr>gw_socom_runtime := rt, gw_searches := remove1 (si, st) (gw_searches w), gw_local_service_instances := Some instances\<rparr>))"

fun gatewayd_step :: "env \<Rightarrow> Root option \<Rightarrow> Posix_credentials \<Rightarrow> gatewayd_event \<Rightarrow> gatewayd_state \<Rightarrow> gatewayd_state run" where
  "gatewayd_step env plugin cred Gw_signal w = Ok (w\<lparr>gw_shutdown_requested := termination_handler (gw_shutdown_requested w)\<rparr>)"
| "gatewayd_step env plugin cred (Gw_state_change reason st) w =
    Ok (w\<lparr>gw_binding_client := on_state_change reason st (gw_binding_client w)\<rparr>)"
| "gatewayd_step env plugin cred (Gw_message ra address data) w =
    and_then (client_on_receive_message env ra address data (gw_binding_client w)) (\<lambda>cl. Ok (w\<lparr>gw_binding_client := cl\<rparr>))"
| "gatewayd_step env plugin cred (Gw_service_found si st handles) w =
    (if (si, st) \<in> set (gw_searches w) then search_callback plugin cred si st handles w else Ok w)"

text \<open>The destructors at the end of \<^verbatim>\<open>main\<close>: the instances, whose connectors deregister and wait for their peers, then the
  binding client, whose destructor stops the channel until it has reported that it is stopped.\<close>

definition client_destroy ::
    "('e \<Rightarrow> 's \<Rightarrow> 's run) \<Rightarrow> ('s \<Rightarrow> Client) \<Rightarrow> 'e list stream \<Rightarrow> 's \<Rightarrow> ('s \<times> 'e list stream) run option" where
  "client_destroy step binding_client = wait_loop step (\<lambda>w. cl_stopped (binding_client w))"

definition gatewayd_exit ::
    "env \<Rightarrow> Root option \<Rightarrow> Posix_credentials \<Rightarrow> gatewayd_event list stream \<Rightarrow> gatewayd_state
      \<Rightarrow> (nat \<times> Root option \<times> gatewayd_state option) run option" where
  "gatewayd_exit env plugin cred ticks w =
    then_wait (Some (and_then (destroy_clients (map ri_client (gw_remote_service_instances w)) (True, gw_socom_runtime w))
                       (destroy_servers (map li_server (or_empty (gw_local_service_instances w)))))) (\<lambda>(ended, rt).
    if \<not> ended then None
    else then_wait (client_destroy (gatewayd_step env plugin cred) gw_binding_client ticks
                (w\<lparr>gw_socom_runtime := rt, gw_local_service_instances := None, gw_remote_service_instances := []\<rparr>)) (\<lambda>(w', _).
      Some (Ok (0, snd (score_com_serializer_deinit plugin), Some w'))))"

text \<open>The searches that were started: \<open>handles\<close> are the answers of \<^verbatim>\<open>StartFindService\<close> for the local instances, in
  the order of the configuration.\<close>

definition started_searches :: "Root \<Rightarrow> (create_error, 'h) result list \<Rightarrow> (ServiceInstance \<times> ServiceType) list" where
  "started_searches config handles =
    map fst (filter (\<lambda>(_, r). is_Ok r)
      (zip (concat (map (\<lambda>st. map (\<lambda>si. (si, st)) (or_empty (st_local_service_instances st))) (or_empty (service_types config)))) handles))"

text \<open>From the connected peer to the end: the instances are created, and the main loop runs.\<close>

definition gatewayd_serve ::
    "env \<Rightarrow> (string \<Rightarrow> bool) \<Rightarrow> (string \<Rightarrow> (create_error, 'h) result) \<Rightarrow> (string \<Rightarrow> (string \<times> size_t \<times> size_t) list \<Rightarrow> (string list \<times> bool) option)
      \<Rightarrow> Posix_credentials \<Rightarrow> Root \<Rightarrow> Root option \<Rightarrow> gatewayd_event list stream \<Rightarrow> gatewayd_state
      \<Rightarrow> (nat \<times> Root option \<times> gatewayd_state option) run option" where
  "gatewayd_serve env specifier_valid start_find make_skeleton cred config plugin ticks w =
    then_wait (Some (start_local_searches specifier_valid start_find config)) (\<lambda>handles.
    then_wait (Some (fold_run (gatewayd_step env plugin cred) (shd ticks)
        (w\<lparr>gw_searches := started_searches config handles, gw_local_service_instances := Some []\<rparr>))) (\<lambda>w1.
    then_wait (Some (create_remote_instances specifier_valid make_skeleton plugin cred config (gw_socom_runtime w1))) (\<lambda>(remotes, rt).
    then_wait (wait_loop (gatewayd_step env plugin cred) gw_shutdown_requested (stl ticks)
                (w1\<lparr>gw_socom_runtime := rt, gw_remote_service_instances := remotes\<rparr>)) (\<lambda>(w2, ticks2).
      gatewayd_exit env plugin cred ticks2 w2))))"

text \<open>From the created binding client to the connected peer. The flag is read once more after the loop.\<close>

definition gatewayd_initial :: "Client \<Rightarrow> gatewayd_state" where
  "gatewayd_initial binding_client =
    \<lparr>gw_shutdown_requested = False, gw_binding_client = binding_client, gw_socom_runtime = create_runtime,
     gw_searches = [], gw_local_service_instances = None, gw_remote_service_instances = []\<rparr>"

definition gatewayd_run ::
    "env \<Rightarrow> (string \<Rightarrow> bool) \<Rightarrow> (string \<Rightarrow> (create_error, 'h) result) \<Rightarrow> (string \<Rightarrow> (string \<times> size_t \<times> size_t) list \<Rightarrow> (string list \<times> bool) option)
      \<Rightarrow> Posix_credentials \<Rightarrow> Root \<Rightarrow> Root option \<Rightarrow> Client \<Rightarrow> gatewayd_event list stream
      \<Rightarrow> (nat \<times> Root option \<times> gatewayd_state option) run option" where
  "gatewayd_run env specifier_valid start_find make_skeleton cred config plugin binding_client ticks =
     then_wait (wait_loop (gatewayd_step env plugin cred) (\<lambda>w. is_connected (gw_binding_client w) \<or> gw_shutdown_requested w) ticks
                 (gatewayd_initial binding_client)) (\<lambda>(w1, ticks1).
     then_wait (Some (fold_run (gatewayd_step env plugin cred) (shd ticks1) w1)) (\<lambda>w2.
       if gw_shutdown_requested w2 then gatewayd_exit env plugin cred (stl ticks1) w2
       else gatewayd_serve env specifier_valid start_find make_skeleton cred config plugin (stl ticks1) w2))"

text \<open>\<^verbatim>\<open>main\<close>: the exit code, the state of the serializer plugin and, when the daemon has started, its last state.\<close>

definition gatewayd_main ::
    "env \<Rightarrow> (string \<Rightarrow> (int \<times> 'b) option) \<Rightarrow> ('b \<Rightarrow> Root) \<Rightarrow> (string \<Rightarrow> bool) \<Rightarrow> (string \<Rightarrow> (create_error, 'h) result)
      \<Rightarrow> (string \<Rightarrow> (string \<times> size_t \<times> size_t) list \<Rightarrow> (string list \<times> bool) option) \<Rightarrow> Posix_credentials
      \<Rightarrow> getopt_result list \<Rightarrow> Root option \<Rightarrow> gatewayd_event list stream
      \<Rightarrow> (nat \<times> Root option \<times> gatewayd_state option) run option" where
  "gatewayd_main env open_file GetRoot specifier_valid start_find make_skeleton cred opts plugin ticks =
    (case gatewayd_start open_file GetRoot opts plugin of
       (Err code, plugin') \<Rightarrow> Some (Ok (code, plugin', None))
     | (Ok config, plugin') \<Rightarrow>
         then_wait (Some (build_shm_configs plugin' config)) (\<lambda>(shm_config, server_shm_config).
         then_wait (Some (make_shared_memory_configs server_shm_config)) (\<lambda>configs.
         then_wait (Some (Client_create shm_config [] configs ''gatewayd'')) (\<lambda>binding_client.
           gatewayd_run env specifier_valid start_find make_skeleton cred config plugin' binding_client ticks))))"

subsection \<open>The connectors of the instances\<close>

text \<open>Every connector of the daemon's runtime belongs to one instance.\<close>

abbreviation instances_ok :: "LocalServiceInstance list \<Rightarrow> RemoteServiceInstance list \<Rightarrow> 'p Runtime \<Rightarrow> bool" where
  "instances_ok lis ris \<equiv> owners_ok (map li_server lis) (map ri_client ris)"

definition gatewayd_ok :: "gatewayd_state \<Rightarrow> bool" where
  "gatewayd_ok w \<longleftrightarrow> instances_ok (or_empty (gw_local_service_instances w)) (gw_remote_service_instances w) (gw_socom_runtime w)"

lemma local_instance_created:
  assumes "LocalServiceInstance_Create plugin si st proxy_events cred rt = Ok (r, rt')" and "owners_ok ss cs rt"
  shows "case r of Err e \<Rightarrow> owners_ok ss cs rt' | Ok (li, calls) \<Rightarrow> owners_ok (ss @ [li_server li]) cs rt'"
proof -
  obtain cfg inst q rt1 where m: "make_server_connector all_server_callbacks cfg inst cred rt = (q, rt1)"
    and r: "(\<exists>e. q = Err e \<and> rt' = rt1 \<and> (\<exists>e'. r = Err e')) \<or> (\<exists>s li calls. q = Ok s \<and> enable_server s rt1 = Ok rt' \<and> r = Ok (li, calls) \<and> li_server li = s)"
    using assms(1)
    by (auto simp: LocalServiceInstance_Create_def Let_def split: prod.splits sum.splits elim!: and_then_OkE)
  from r show ?thesis
  proof (elim disjE exE conjE)
    fix e e' assume "q = Err e" "rt' = rt1" "r = Err e'"
    then show ?thesis using make_server_failed [OF m [unfolded \<open>q = Err e\<close>]] assms(2) by simp
  next
    fix s li calls assume "q = Ok s" "enable_server s rt1 = Ok rt'" "r = Ok (li, calls)" "li_server li = s"
    then show ?thesis using owners_ok_server [OF assms(2)] m by auto
  qed
qed

text \<open>While the connector of an instance is created, its callback cannot change the runtime.\<close>

lemma subscribe_events_null: "subscribe_events None n rt = Ok rt' \<Longrightarrow> rt' = rt"
  unfolding subscribe_events_def by (cases "[0..<n]") simp_all

lemma remote_state_change_null: "remote_on_service_state_change i a rt = Ok rt' \<Longrightarrow> ri_client i = None \<Longrightarrow> rt' = rt"
  by (auto simp: remote_on_service_state_change_def subscribe_events_null split: if_splits elim!: and_then_OkE)

lemma fold_run_same:
  assumes "fold_run f xs s = Ok s'" and "\<And>x s s'. f x s = Ok s' \<Longrightarrow> s' = s"
  shows "s' = s"
  by (rule fold_run_invariant [where I = "\<lambda>t. t = s", OF _ refl assms(1)]) (use assms(2) in blast)

lemma remote_instance_created:
  assumes "RemoteServiceInstance_Create plugin si st was_offered skeleton_events cred rt = Ok (r, rt')" and "owners_ok ss cs rt"
  shows "case r of Err e \<Rightarrow> owners_ok ss cs rt' | Ok ri \<Rightarrow> owners_ok ss (cs @ [ri_client ri]) rt'"
proof -
  consider "rt' = rt" "\<exists>e. r = Err e"
    | cfg inst q i changes rt1 where "make_client_connector all_client_callbacks cfg inst cred rt = Ok (q, rt1)"
        "fold_run (remote_on_service_state_change i) changes rt1 = Ok rt'" "ri_client i = None"
        "(\<exists>e e'. q = Err e \<and> r = Err e') \<or> (\<exists>c. q = Ok c \<and> r = Ok (i\<lparr>ri_client := Some c\<rparr>))"
    using assms(1)
    by (auto simp: RemoteServiceInstance_Create_def Let_def split: if_splits sum.splits elim!: and_then_OkE)
  then show ?thesis
  proof cases
    case 1
    then show ?thesis using assms(2) by auto
  next
    case 2
    have "rt' = rt1" by (rule fold_run_same [OF 2(2)]) (rule remote_state_change_null [OF _ 2(3)])
    then show ?thesis using owners_ok_client [OF assms(2) 2(1)] 2(4) by auto
  qed
qed

lemma local_instances_kept:
  assumes "on_local_service_found plugin si st cred handles (lis, rt) = Ok (found, calls, lis', rt')" and "instances_ok lis ris rt"
  shows "instances_ok lis' ris rt' \<and> (\<not> found \<longrightarrow> lis' = lis)"
proof -
  consider "\<not> found" "lis' = lis" "rt' = rt"
    | ps r where "LocalServiceInstance_Create plugin si st ps cred rt = Ok (r, rt')"
        "(\<exists>e. r = Err e \<and> \<not> found \<and> lis' = lis) \<or> (\<exists>li. r = Ok (li, calls) \<and> found \<and> lis' = lis @ [li])"
    using assms(1) by (auto simp: on_local_service_found_def split: list.splits option.splits sum.splits elim!: and_then_OkE)
  then show ?thesis
  proof cases
    case 2
    show ?thesis using local_instance_created [OF 2(1) assms(2)] 2(2) by auto
  qed (use assms(2) in simp)
qed

lemma remote_instances_kept:
  assumes "CreateAsyncRemoteService specifier_valid make_skeleton plugin cred (Some si) st (ris, rt) = Ok (r, ris', rt')"
    and "instances_ok lis ris rt"
  shows "instances_ok lis ris' rt'"
proof -
  consider "ris' = ris" "rt' = rt"
    | was_offered ses q where "RemoteServiceInstance_Create plugin si st was_offered ses cred rt = Ok (q, rt')"
        "(\<exists>e. q = Err e \<and> ris' = ris) \<or> (\<exists>ri. q = Ok ri \<and> ris' = ris @ [ri])"
    using assms(1)
    by (auto simp: CreateAsyncRemoteService_def split: option.splits sum.splits prod.splits elim!: and_then_OkE)
  then show ?thesis
  proof cases
    case 2
    show ?thesis using remote_instance_created [OF 2(1) assms(2)] 2(2) by auto
  qed (use assms(2) in simp)
qed

lemma created_remote_instances:
  assumes "create_remote_instances specifier_valid make_skeleton plugin cred config rt = Ok (ris', rt')" and "instances_ok lis [] rt"
  shows "instances_ok lis ris' rt'"
proof -
  let ?I = "\<lambda>(ris, rt). instances_ok lis ris rt"
  obtain sts where sts: "fold_run (\<lambda>st acc. (case st_remote_service_instances st of
          None \<Rightarrow> Ok acc
        | Some sis \<Rightarrow> fold_run (\<lambda>si acc. and_then (CreateAsyncRemoteService specifier_valid make_skeleton plugin cred (Some si) st acc)
            (\<lambda>(_, acc'). Ok acc')) sis acc)) sts ([], rt) = Ok (ris', rt')"
    using assms(1) by (auto simp: create_remote_instances_def elim!: and_then_OkE)
  have "?I (ris', rt')"
  proof (rule fold_run_invariant [where I = ?I, OF _ _ sts])
    fix st s s' assume I: "?I s" and s': "(case st_remote_service_instances st of
          None \<Rightarrow> Ok s
        | Some sis \<Rightarrow> fold_run (\<lambda>si acc. and_then (CreateAsyncRemoteService specifier_valid make_skeleton plugin cred (Some si) st acc)
            (\<lambda>(_, acc'). Ok acc')) sis s) = Ok s'"
    show "?I s'"
    proof (cases "st_remote_service_instances st")
      case (Some sis)
      show ?thesis
        by (rule fold_run_invariant [where I = ?I, OF _ I s' [unfolded Some option.case]])
          (auto elim!: and_then_OkE intro: remote_instances_kept)
    qed (use I s' in simp)
  qed (use assms(2) in simp)
  then show ?thesis by simp
qed

subsection \<open>The events of the gateway daemon\<close>

lemma search_callbackE:
  assumes "search_callback plugin cred si st handles w = Ok w'"
  obtains found calls lis rt where
      "on_local_service_found plugin si st cred handles (or_empty (gw_local_service_instances w), gw_socom_runtime w) = Ok (found, calls, lis, rt)"
      "w' = (if found then w\<lparr>gw_socom_runtime := rt, gw_searches := remove1 (si, st) (gw_searches w), gw_local_service_instances := Some lis\<rparr>
             else w\<lparr>gw_socom_runtime := rt\<rparr>)"
  using assms by (auto simp: search_callback_def split: if_splits elim!: and_then_OkE)

lemma gatewayd_step_ok:
  assumes "gatewayd_step env plugin cred e w = Ok w'" and "gatewayd_ok w"
  shows "gatewayd_ok w'"
proof (cases "\<exists>si st handles. e = Gw_service_found si st handles \<and> (si, st) \<in> set (gw_searches w)")
  case True
  then obtain si st handles where "search_callback plugin cred si st handles w = Ok w'" using assms(1) by auto
  then obtain found calls lis rt where
      f: "on_local_service_found plugin si st cred handles (or_empty (gw_local_service_instances w), gw_socom_runtime w) = Ok (found, calls, lis, rt)"
    and w': "w' = (if found then w\<lparr>gw_socom_runtime := rt, gw_searches := remove1 (si, st) (gw_searches w), gw_local_service_instances := Some lis\<rparr>
             else w\<lparr>gw_socom_runtime := rt\<rparr>)" by (rule search_callbackE)
  show ?thesis using local_instances_kept [OF f assms(2) [unfolded gatewayd_ok_def]] by (cases found) (auto simp: w' gatewayd_ok_def)
next
  case False
  then show ?thesis using assms by (cases e) (auto simp: gatewayd_ok_def elim!: and_then_OkE)
qed

lemma on_state_change_stopped: "cl_stopped cl \<Longrightarrow> cl_stopped (on_state_change r st cl)"
  by (cases st) simp_all

lemma receive_stopped: "client_on_receive_message env ra a data cl = Ok cl' \<Longrightarrow> cl_stopped cl' = cl_stopped cl"
  by (auto simp: client_on_receive_message_def client_handle_connect_reply_def Let_def
      split: if_splits option.splits sum.splits message.splits elim!: and_then_OkE)

lemma gatewayd_step_flags:
  assumes "gatewayd_step env plugin cred e w = Ok w'"
  shows "gw_shutdown_requested w' \<longleftrightarrow> gw_shutdown_requested w \<or> e = Gw_signal"
    and "cl_stopped (gw_binding_client w) \<Longrightarrow> cl_stopped (gw_binding_client w')"
  using assms
  by (cases e; auto simp: termination_handler_def on_state_change_stopped receive_stopped split: if_splits elim!: and_then_OkE search_callbackE)+

lemma gatewayd_step_kept:
  assumes "gatewayd_step env plugin cred e w = Ok w'"
  shows "gw_remote_service_instances w' = gw_remote_service_instances w"
    and "gw_local_service_instances w = None \<Longrightarrow> gw_local_service_instances w' = None"
  using assms
  by (cases e; auto simp: search_callback_def split: if_splits elim!: and_then_OkE)+

text \<open>The stop reports after which the channel is not started again.\<close>

definition final_stop :: "gatewayd_event \<Rightarrow> bool" where
  "final_stop e \<longleftrightarrow> (\<exists>r \<in> {kUserRequested, kPermission, kShutdown}. e = Gw_state_change r kStopped)"

lemma final_stop_stops:
  "final_stop e \<Longrightarrow> gatewayd_step env plugin cred e w = Ok w' \<Longrightarrow> cl_stopped (gw_binding_client w')"
  by (auto simp: final_stop_def)

lemma gatewayd_steps_ok:
  assumes "fold_run (gatewayd_step env plugin cred) es w = Ok w'" and "gatewayd_ok w"
  shows "gatewayd_ok w'"
  by (rule fold_run_invariant [where I = gatewayd_ok, OF _ assms(2,1)]) (rule gatewayd_step_ok)

lemma gatewayd_steps_shutdown:
  "fold_run (gatewayd_step env plugin cred) es w = Ok w' \<Longrightarrow> gw_shutdown_requested w' \<longleftrightarrow> gw_shutdown_requested w \<or> Gw_signal \<in> set es"
  by (induction es arbitrary: w) (auto elim!: and_then_OkE dest!: gatewayd_step_flags(1))

lemma gatewayd_loop_ended:
  assumes "wait_loop (gatewayd_step env plugin cred) finished ticks w = Some (Ok (w', ticks'))"
  obtains n where "finished w'" "ticks' = sdrop n ticks"
    "fold_run (gatewayd_step env plugin cred) (concat (stake n ticks)) w = Ok w'"
    "gw_shutdown_requested w' \<longleftrightarrow> gw_shutdown_requested w \<or> (\<exists>i < n. Gw_signal \<in> set (ticks !! i))"
proof -
  obtain n where n: "finished w'" "ticks' = sdrop n ticks"
    "fold_run (gatewayd_step env plugin cred) (concat (stake n ticks)) w = Ok w'" using wait_loop_ended [OF assms] by blast
  have "Gw_signal \<in> set (concat (stake n ticks)) \<longleftrightarrow> (\<exists>i < n. Gw_signal \<in> set (ticks !! i))"
    using in_set_conv_nth [of _ "stake n ticks"] by (auto simp: Bex_def)
  then show thesis using that [OF n] gatewayd_steps_shutdown [OF n(3)] by simp
qed

subsection \<open>The end of the gateway daemon\<close>

lemma gatewayd_exit_returns:
  assumes "gatewayd_ok w" and "\<exists>n e. final_stop e \<and> e \<in> set (ticks !! n)"
  shows "gatewayd_exit env plugin cred ticks w \<noteq> None"
proof -
  obtain rt1 where rt1: "destroy_clients (map ri_client (gw_remote_service_instances w)) (True, gw_socom_runtime w) = Ok (True, rt1)"
    "owners_ok (map li_server (or_empty (gw_local_service_instances w))) [] rt1" using destroy_clients_end [OF assms(1) [unfolded gatewayd_ok_def]] by blast
  obtain rt2 where rt2: "destroy_servers (map li_server (or_empty (gw_local_service_instances w))) (True, rt1) = Ok (True, rt2)"
    using destroy_servers_end [OF rt1(2)] by blast
  obtain n e where e: "final_stop e" "e \<in> set (ticks !! n)" using assms(2) by blast
  have "client_destroy (gatewayd_step env plugin cred) gw_binding_client ticks w' \<noteq> None" for w'
    unfolding client_destroy_def by (rule wait_loop_ends [where P = "\<lambda>w. cl_stopped (gw_binding_client w)", OF e(2)]) (use final_stop_stops [OF e(1)] gatewayd_step_flags(2) in blast)+
  then show ?thesis unfolding gatewayd_exit_def
    by (auto simp: rt1(1) rt2 then_wait_def split: option.splits sum.splits)
qed

lemma gatewayd_exit_ended:
  assumes "gatewayd_exit env plugin cred ticks w = Some (Ok (code, plugin', w'))" and "gatewayd_ok w"
  shows "code = 0 \<and> plugin' = None \<and> (\<exists>w''. w' = Some w'' \<and> cl_stopped (gw_binding_client w'')
    \<and> clients_of (gw_socom_runtime w'') = {} \<and> servers_of (gw_socom_runtime w'') = {})"
proof -
  obtain rt1 where rt1: "destroy_clients (map ri_client (gw_remote_service_instances w)) (True, gw_socom_runtime w) = Ok (True, rt1)"
    "owners_ok (map li_server (or_empty (gw_local_service_instances w))) [] rt1" using destroy_clients_end [OF assms(2) [unfolded gatewayd_ok_def]] by blast
  obtain rt2 where rt2: "destroy_servers (map li_server (or_empty (gw_local_service_instances w))) (True, rt1) = Ok (True, rt2)"
    "owners_ok [] [] rt2" using destroy_servers_end [OF rt1(2)] by blast
  let ?w = "w\<lparr>gw_socom_runtime := rt2, gw_local_service_instances := None, gw_remote_service_instances := []\<rparr>"
  obtain w'' ticks' where d: "client_destroy (gatewayd_step env plugin cred) gw_binding_client ticks ?w = Some (Ok (w'', ticks'))"
    and r: "code = 0" "plugin' = None" "w' = Some w''"
    using assms(1) by (auto simp: gatewayd_exit_def rt1(1) rt2(1) score_com_serializer_deinit_def elim!: then_wait_OkE)
  obtain n where n: "cl_stopped (gw_binding_client w'')"
    "fold_run (gatewayd_step env plugin cred) (concat (stake n ticks)) ?w = Ok w''"
    using d unfolding client_destroy_def by (rule gatewayd_loop_ended)
  let ?I = "\<lambda>w. gatewayd_ok w \<and> gw_remote_service_instances w = [] \<and> gw_local_service_instances w = None"
  have "?I w''"
  proof (rule fold_run_invariant [where I = ?I, OF _ _ n(2)])
    fix e w w' assume I: "?I w" and s: "gatewayd_step env plugin cred e w = Ok w'"
    have "gw_remote_service_instances w' = []" using gatewayd_step_kept(1) [OF s] I by simp
    moreover have "gatewayd_ok w'" using gatewayd_step_ok [OF s] I by blast
    ultimately show "?I w'" using gatewayd_step_kept(2) [OF s] I by simp
  qed (use rt2(2) in \<open>simp add: gatewayd_ok_def\<close>)
  then have "owners_ok [] [] (gw_socom_runtime w'')" by (auto simp: gatewayd_ok_def)
  then show ?thesis using n(1) r owners_ok_none by blast
qed

lemma gatewayd_serve_ok:
  assumes "gatewayd_ok w" and "gw_remote_service_instances w = []" and "gw_local_service_instances w = None"
    and w1: "fold_run (gatewayd_step env plugin cred) es
        (w\<lparr>gw_searches := searches, gw_local_service_instances := Some []\<rparr>) = Ok w1"
    and "create_remote_instances specifier_valid make_skeleton plugin cred config (gw_socom_runtime w1) = Ok (remotes, rt)"
  shows "gatewayd_ok (w1\<lparr>gw_socom_runtime := rt, gw_remote_service_instances := remotes\<rparr>)"
proof -
  let ?I = "\<lambda>w. gatewayd_ok w \<and> gw_remote_service_instances w = []"
  have "?I w1"
  proof (rule fold_run_invariant [where I = ?I, OF _ _ w1])
    fix e w w' assume I: "?I w" and s: "gatewayd_step env plugin cred e w = Ok w'"
    show "?I w'" using gatewayd_step_ok [OF s] gatewayd_step_kept(1) [OF s] I by simp
  qed (use assms(1-3) in \<open>simp add: gatewayd_ok_def\<close>)
  then show ?thesis using created_remote_instances [OF assms(5)] by (auto simp: gatewayd_ok_def)
qed

lemma gatewayd_serve_returns:
  assumes w: "gatewayd_ok w" "gw_remote_service_instances w = []" "gw_local_service_instances w = None"
    and sig: "gw_shutdown_requested w \<or> Gw_signal \<in> set (ticks !! n)"
    and stops: "\<And>k. \<exists>m e. final_stop e \<and> e \<in> set (sdrop k ticks !! m)"
  shows "gatewayd_serve env specifier_valid start_find make_skeleton cred config plugin ticks w \<noteq> None"
proof -
  let ?step = "gatewayd_step env plugin cred" and ?remotes = "create_remote_instances specifier_valid make_skeleton plugin cred config"
  let ?w = "\<lambda>handles. w\<lparr>gw_searches := started_searches config handles, gw_local_service_instances := Some []\<rparr>"
  let ?w1 = "\<lambda>w1 remotes rt. w1\<lparr>gw_socom_runtime := rt, gw_remote_service_instances := remotes\<rparr>"
  have loop: "wait_loop ?step gw_shutdown_requested (stl ticks) (?w1 w1 remotes rt) \<noteq> None"
    if w1: "fold_run ?step (shd ticks) (?w handles) = Ok w1" for w1 :: gatewayd_state and handles :: "(create_error, 'a) result list" and remotes rt
  proof (cases "gw_shutdown_requested w1")
    case True
    then show ?thesis by (simp add: wait_loop.simps)
  next
    case False
    then have "Gw_signal \<in> set (ticks !! n)" "n \<noteq> 0"
      using gatewayd_steps_shutdown [OF w1] sig by (auto intro: gr0I)
    then have "Gw_signal \<in> set (stl ticks !! (n - 1))" by (cases n) simp_all
    then show ?thesis by (rule wait_loop_ends [where P = gw_shutdown_requested]) (use gatewayd_step_flags(1) in blast)+
  qed
  have exit: "gatewayd_exit env plugin cred ticks2 w2 \<noteq> None"
    if w1: "fold_run ?step (shd ticks) (?w handles) = Ok w1" and r: "?remotes (gw_socom_runtime w1) = Ok (remotes, rt)"
      and e: "wait_loop ?step gw_shutdown_requested (stl ticks) (?w1 w1 remotes rt) = Some (Ok (w2, ticks2))"
    for handles :: "(create_error, 'a) result list" and w1 w2 :: gatewayd_state and remotes rt ticks2
  proof -
    obtain k where k: "ticks2 = sdrop k (stl ticks)" "fold_run ?step (concat (stake k (stl ticks))) (?w1 w1 remotes rt) = Ok w2"
      using e by (rule gatewayd_loop_ended)
    have "ticks2 = sdrop (Suc k) ticks" using k(1) by simp
    then show ?thesis
      using gatewayd_exit_returns [OF gatewayd_steps_ok [OF k(2) gatewayd_serve_ok [OF w w1 r]]] stops [of "Suc k"] by blast
  qed
  have "then_wait (wait_loop ?step gw_shutdown_requested (stl ticks) (?w1 w1 remotes rt))
      (\<lambda>(w2, ticks2). gatewayd_exit env plugin cred ticks2 w2) \<noteq> None"
    if w1: "fold_run ?step (shd ticks) (?w handles) = Ok w1" and r: "?remotes (gw_socom_runtime w1) = Ok (remotes, rt)"
    for handles :: "(create_error, 'a) result list" and w1 :: gatewayd_state and remotes rt
    by (rule then_wait_returns [OF loop [OF w1]]) (use exit [OF w1 r] in \<open>simp split: prod.splits\<close>)
  then show ?thesis unfolding gatewayd_serve_def by (intro then_wait_returns) (auto split: prod.splits)
qed

lemma gatewayd_initial_ok:
  assumes "fold_run (gatewayd_step env plugin cred) es (gatewayd_initial cl) = Ok w"
  shows "gatewayd_ok w \<and> gw_remote_service_instances w = [] \<and> gw_local_service_instances w = None"
proof (rule fold_run_invariant [OF _ _ assms])
  fix e w w' assume I: "gatewayd_ok w \<and> gw_remote_service_instances w = [] \<and> gw_local_service_instances w = None"
    and s: "gatewayd_step env plugin cred e w = Ok w'"
  have "gatewayd_ok w'" using gatewayd_step_ok [OF s] I by blast
  then show "gatewayd_ok w' \<and> gw_remote_service_instances w' = [] \<and> gw_local_service_instances w' = None"
    using gatewayd_step_kept [OF s] I by simp
qed (simp add: gatewayd_initial_def create_runtime_owners gatewayd_ok_def)

lemma gatewayd_run_returns:
  assumes sig: "Gw_signal \<in> set (ticks !! n)" and stops: "\<And>k. \<exists>m e. final_stop e \<and> e \<in> set (sdrop k ticks !! m)"
  shows "gatewayd_run env specifier_valid start_find make_skeleton cred config plugin cl ticks \<noteq> None"
proof -
  let ?step = "gatewayd_step env plugin cred" and ?wait = "\<lambda>w. is_connected (gw_binding_client w) \<or> gw_shutdown_requested w"
  have loop: "wait_loop ?step ?wait ticks (gatewayd_initial cl) \<noteq> None"
    by (rule wait_loop_ends [where P = gw_shutdown_requested, OF sig]) (use gatewayd_step_flags(1) in blast)+
  have rest: "(if gw_shutdown_requested w2 then gatewayd_exit env plugin cred (stl ticks1) w2
       else gatewayd_serve env specifier_valid start_find make_skeleton cred config plugin (stl ticks1) w2) \<noteq> None"
    if e: "wait_loop ?step ?wait ticks (gatewayd_initial cl) = Some (Ok (w1, ticks1))" and w2: "fold_run ?step (shd ticks1) w1 = Ok w2"
    for w1 w2 :: gatewayd_state and ticks1
  proof -
    obtain k where k: "ticks1 = sdrop k ticks" "fold_run ?step (concat (stake k ticks)) (gatewayd_initial cl) = Ok w1"
      "gw_shutdown_requested w1 \<longleftrightarrow> gw_shutdown_requested (gatewayd_initial cl) \<or> (\<exists>i < k. Gw_signal \<in> set (ticks !! i))"
      using e by (rule gatewayd_loop_ended)
    have "fold_run ?step (concat (stake k ticks) @ shd ticks1) (gatewayd_initial cl) = Ok w2"
      using k(2) w2 by (simp add: fold_run_append)
    note ok = gatewayd_initial_ok [OF this]
    have stl: "stl ticks1 = sdrop (Suc k) ticks" by (simp add: k(1))
    have stops': "\<exists>m e. final_stop e \<and> e \<in> set (sdrop j (stl ticks1) !! m)" for j
      using stops [of "Suc k + j"] unfolding stl sdrop_add .
    show ?thesis
    proof (cases "gw_shutdown_requested w2")
      case True
      have "gatewayd_exit env plugin cred (stl ticks1) w2 \<noteq> None"
        by (rule gatewayd_exit_returns) (use ok stops' [of 0] in \<open>simp_all only: sdrop.simps\<close>)
      then show ?thesis using True by (simp only: if_True not_False_eq_True)
    next
      case False
      then have "\<not> (\<exists>i < k. Gw_signal \<in> set (ticks !! i))" "Gw_signal \<notin> set (shd ticks1)"
        using gatewayd_steps_shutdown [OF w2] k(3) by auto
      moreover have "shd ticks1 = ticks !! k" by (simp add: k(1))
      ultimately have "Suc k \<le> n" using sig by (metis Suc_leI linorder_neqE_nat)
      then have "Gw_signal \<in> set (stl ticks1 !! (n - Suc k))" using sig by (cases n) (simp_all add: stl sdrop_snth)
      then have "gatewayd_serve env specifier_valid start_find make_skeleton cred config plugin (stl ticks1) w2 \<noteq> None"
        using ok by (intro gatewayd_serve_returns [OF _ _ _ _ stops']) blast+
      then show ?thesis using False by (simp only: if_False not_False_eq_True)
    qed
  qed
  show ?thesis unfolding gatewayd_run_def
  proof (rule then_wait_returns [OF loop])
    fix x assume x: "wait_loop ?step ?wait ticks (gatewayd_initial cl) = Some (Ok x)"
    obtain w1 ticks1 where p: "x = (w1, ticks1)" by (cases x)
    show "(case x of (w1, ticks1) \<Rightarrow> then_wait (Some (fold_run ?step (shd ticks1) w1)) (\<lambda>w2.
       if gw_shutdown_requested w2 then gatewayd_exit env plugin cred (stl ticks1) w2
       else gatewayd_serve env specifier_valid start_find make_skeleton cred config plugin (stl ticks1) w2)) \<noteq> None"
      unfolding p prod.case using rest [OF x [unfolded p]] by (auto simp: then_wait_def simp del: not_None_eq split: sum.splits)
  qed
qed

text \<open>A daemon that has returned was asked to by a signal, and has left nothing behind.\<close>

definition gatewayd_finished :: "nat \<times> Root option \<times> gatewayd_state option \<Rightarrow> bool" where
  "gatewayd_finished = (\<lambda>(code, plugin, w). code = 0 \<and> plugin = None \<and> (\<exists>w'. w = Some w' \<and> cl_stopped (gw_binding_client w')
     \<and> clients_of (gw_socom_runtime w') = {} \<and> servers_of (gw_socom_runtime w') = {}))"

lemma gatewayd_serve_ended:
  assumes "gatewayd_serve env specifier_valid start_find make_skeleton cred config plugin ticks w = Some (Ok r)"
    and w: "gatewayd_ok w" "gw_remote_service_instances w = []" "gw_local_service_instances w = None" and "\<not> gw_shutdown_requested w"
  shows "(\<exists>n. Gw_signal \<in> set (ticks !! n)) \<and> gatewayd_finished r"
proof -
  let ?step = "gatewayd_step env plugin cred"
  obtain handles :: "(create_error, 'a) result list" and w1 remotes rt w2 ticks2 where
      w1: "fold_run ?step (shd ticks) (w\<lparr>gw_searches := started_searches config handles, gw_local_service_instances := Some []\<rparr>) = Ok w1"
    and r: "create_remote_instances specifier_valid make_skeleton plugin cred config (gw_socom_runtime w1) = Ok (remotes, rt)"
    and e: "wait_loop ?step gw_shutdown_requested (stl ticks) (w1\<lparr>gw_socom_runtime := rt, gw_remote_service_instances := remotes\<rparr>) = Some (Ok (w2, ticks2))"
    and x: "gatewayd_exit env plugin cred ticks2 w2 = Some (Ok r)"
    using assms(1) unfolding gatewayd_serve_def by (auto elim!: then_wait_OkE)
  obtain k where k: "gw_shutdown_requested w2"
      "fold_run ?step (concat (stake k (stl ticks))) (w1\<lparr>gw_socom_runtime := rt, gw_remote_service_instances := remotes\<rparr>) = Ok w2"
      "gw_shutdown_requested w2 \<longleftrightarrow> gw_shutdown_requested (w1\<lparr>gw_socom_runtime := rt, gw_remote_service_instances := remotes\<rparr>)
         \<or> (\<exists>i < k. Gw_signal \<in> set (stl ticks !! i))"
    using e by (rule gatewayd_loop_ended)
  have "Gw_signal \<in> set (ticks !! 0) \<or> (\<exists>i. Gw_signal \<in> set (ticks !! Suc i))"
    using k(1,3) gatewayd_steps_shutdown [OF w1] assms(5) by auto
  moreover have "gatewayd_finished r"
    using gatewayd_exit_ended [of env plugin cred ticks2 w2 "fst r" "fst (snd r)" "snd (snd r)"] x
      gatewayd_steps_ok [OF k(2) gatewayd_serve_ok [OF w w1 r]] by (simp add: gatewayd_finished_def case_prod_unfold)
  ultimately show ?thesis by blast
qed

lemma gatewayd_run_ended:
  assumes "gatewayd_run env specifier_valid start_find make_skeleton cred config plugin cl ticks = Some (Ok r)"
  shows "(\<exists>n. Gw_signal \<in> set (ticks !! n)) \<and> gatewayd_finished r"
proof -
  let ?step = "gatewayd_step env plugin cred" and ?wait = "\<lambda>w. is_connected (gw_binding_client w) \<or> gw_shutdown_requested w"
  obtain w1 ticks1 w2 where e: "wait_loop ?step ?wait ticks (gatewayd_initial cl) = Some (Ok (w1, ticks1))"
    and w2: "fold_run ?step (shd ticks1) w1 = Ok w2"
    and rest: "(if gw_shutdown_requested w2 then gatewayd_exit env plugin cred (stl ticks1) w2
       else gatewayd_serve env specifier_valid start_find make_skeleton cred config plugin (stl ticks1) w2) = Some (Ok r)"
    using assms unfolding gatewayd_run_def by (auto elim!: then_wait_OkE)
  obtain k where k: "ticks1 = sdrop k ticks" "fold_run ?step (concat (stake k ticks)) (gatewayd_initial cl) = Ok w1"
    "gw_shutdown_requested w1 \<longleftrightarrow> gw_shutdown_requested (gatewayd_initial cl) \<or> (\<exists>i < k. Gw_signal \<in> set (ticks !! i))"
    using e by (rule gatewayd_loop_ended)
  have "fold_run ?step (concat (stake k ticks) @ shd ticks1) (gatewayd_initial cl) = Ok w2" using k(2) w2 by simp
  note ok = gatewayd_initial_ok [OF this]
  show ?thesis
  proof (cases "gw_shutdown_requested w2")
    case True
    have "\<exists>n. Gw_signal \<in> set (ticks !! n)"
      using True gatewayd_steps_shutdown [OF w2] k(3) by (auto simp: k(1) gatewayd_initial_def)
    moreover have "gatewayd_exit env plugin cred (stl ticks1) w2 = Some (Ok (fst r, fst (snd r), snd (snd r)))" using rest True by simp
    from gatewayd_exit_ended [OF this] ok have "gatewayd_finished r" by (simp add: gatewayd_finished_def case_prod_unfold)
    ultimately show ?thesis by blast
  next
    case False
    then obtain n where "Gw_signal \<in> set (stl ticks1 !! n)" "gatewayd_finished r"
      using gatewayd_serve_ended rest ok by (simp only: if_False) blast
    moreover have "stl ticks1 !! n = ticks !! (Suc k + n)" unfolding sdrop_snth [symmetric] by (simp add: k(1))
    ultimately show ?thesis by metis
  qed
qed


text \<open>An execution in which the signal arrives before the peer does.\<close>

definition example_ticks :: "gatewayd_event list stream" where
  "example_ticks = [Gw_signal] ## sconst [Gw_state_change kUserRequested kStopped]"

definition example_credentials :: Posix_credentials where
  "example_credentials = \<lparr>uid = 0, gid = 0\<rparr>"

lemma example_client:
  obtains a b c cl where "build_shm_configs (Some example_root) example_root = Ok (a, b)" "make_shared_memory_configs b = Ok c"
    "Client_create a [] c ''gatewayd'' = Ok cl" "\<not> is_connected cl" "\<not> cl_stopped cl"
proof -
  obtain c1 c2 where c: "make_shared_memory_path ''S'' 0x1234 = Ok c1" "make_counterpart_shared_memory_path ''S'' 0x1234 = Ok c2"
    by (simp add: make_shared_memory_path_def make_counterpart_shared_memory_path_def make_path_def fixed_string_from_string_def
        flatten_service_type_name_def decimal.simps kMax_shared_memory_path_size_def)
  have "is_Ok (event_slot_size (Some example_root) example_service)" by code_simp
  then obtain n where n: "event_slot_size (Some example_root) example_service = Ok n" by (auto simp: is_Ok_iff)
  let ?i = "\<lparr>sii_id = ''S'', sii_version = \<lparr>major = 1, minor = 0\<rparr>\<rparr>"
  have s: "service_identifier example_service = Ok ?i" "service_instance_name example_service = Ok ''S''"
    "st_service_id example_service = 0x1234" "st_local_service_instances example_service \<noteq> None" by code_simp+
  let ?e = "\<lparr>path = contents c1, slot_size = n, slot_count = kMaxSampleCount\<rparr>" and ?m = "\<lparr>path = contents c2, slot_size = 1, slot_count = 1\<rparr>"
  have build: "build_shm_configs (Some example_root) example_root = Ok (update2 ?i ''S'' ?e [], update2 ?i ''S'' ?m [])"
    using s(4) by (simp add: build_shm_configs_def shm_config_step_def n [unfolded example_root_def] s(1-3) c example_root_def)
  have "is_Ok (make_service ?i)" "is_Ok (make_instance_id ''S'')" by code_simp+
  then obtain configs where "make_shared_memory_configs (update2 ?i ''S'' ?m []) = Ok configs"
    by (auto simp: make_shared_memory_configs_def make_config_entry_def update2_def get_or_def kMax_find_service_elements_def is_Ok_iff)
  moreover obtain cl where "Client_create (update2 ?i ''S'' ?e []) [] configs ''gatewayd'' = Ok cl" "\<not> is_connected cl" "\<not> cl_stopped cl"
    by (simp add: Client_create_def fixed_string_from_string_def kMax_client_identifier_size_def is_connected_def)
  ultimately show thesis using that [OF build] by blast
qed

lemma example_run:
  assumes "\<not> is_connected cl" and "\<not> cl_stopped cl"
  shows "\<exists>r. gatewayd_run env specifier_valid start_find make_skeleton cred config plugin cl example_ticks = Some (Ok r)"
  using assms
  by (simp add: gatewayd_run_def wait_loop_done wait_loop_tick example_ticks_def gatewayd_initial_def
      termination_handler_def gatewayd_exit_def destroy_clients_def destroy_servers_def client_destroy_def)


text \<open>C22. A search that has not been stopped outlives the vector its callback writes to: \<^verbatim>\<open>main\<close> destroys the vector of
  local instances while the binding client is still to be stopped, and never stops the searches. If the service is
  found then, the callback creates an instance and appends it to an object whose lifetime has ended.\<close>

theorem search_outlives_instances:
  assumes "(si, st) \<in> set (gw_searches w)" and "\<not> cl_stopped (gw_binding_client w)"
    and "and_then (destroy_clients (map ri_client (gw_remote_service_instances w)) (True, gw_socom_runtime w))
        (destroy_servers (map li_server (or_empty (gw_local_service_instances w)))) = Ok (True, rt)"
    and "LocalServiceInstance_Create plugin si st proxy_events cred rt = Ok (Ok (li, calls), rt')"
  shows "gatewayd_exit env plugin cred ([Gw_service_found si st (Some proxy_events # handles)] ## ticks) w = Some (Err Null_deref)"
  using assms
  by (simp add: gatewayd_exit_def client_destroy_def wait_loop_tick search_callback_def on_local_service_found_def)

theorem search_outlives_instances_witness:
  "\<exists>cl. gatewayd_exit demo_env (Some example_root) example_credentials
      ([Gw_service_found example_instance example_service [Some [''a'', ''b'']]] ## sconst [])
      ((gatewayd_initial cl)\<lparr>gw_shutdown_requested := True, gw_searches := [(example_instance, example_service)], gw_local_service_instances := Some []\<rparr>)
    = Some (Err Null_deref)"
proof -
  obtain cl :: Client where cl: "\<not> cl_stopped cl" by (rule example_client)
  let ?w = "(gatewayd_initial cl)\<lparr>gw_shutdown_requested := True, gw_searches := [(example_instance, example_service)], gw_local_service_instances := Some []\<rparr>"
  have "(case LocalServiceInstance_Create (Some example_root) example_instance example_service [''a'', ''b''] example_credentials
      (create_runtime :: payload Runtime) of Ok (Ok _, _) \<Rightarrow> True | _ \<Rightarrow> False)" by code_simp
  then obtain li calls rt' where c: "LocalServiceInstance_Create (Some example_root) example_instance example_service [''a'', ''b''] example_credentials
      (create_runtime :: payload Runtime) = Ok (Ok (li, calls), rt')" by (auto split: sum.splits)
  have "and_then (destroy_clients (map ri_client (gw_remote_service_instances ?w)) (True, gw_socom_runtime ?w))
        (destroy_servers (map li_server (or_empty (gw_local_service_instances ?w)))) = Ok (True, create_runtime)"
    by (simp add: destroy_clients_def destroy_servers_def gatewayd_initial_def)
  from search_outlives_instances [OF _ _ this c, of demo_env "[]" "sconst []"] cl
  show ?thesis by (auto simp: gatewayd_initial_def)
qed

end
