(* ===== verification/Someipd_Main.thy ===== *)
theory Someipd_Main
  imports Daemon_Main
begin

text \<open>
  The main program of the SOME/IP daemon (\<^verbatim>\<open>someipd/main.cpp\<close>, \<^verbatim>\<open>Routing::Run\<close> and \<^verbatim>\<open>Routing::ProcessMessages\<close> in
  \<^verbatim>\<open>someipd/impl/routing.cpp\<close>): the IPC server, the network services and the network stack, from the start until a
  signal asks for shutdown. The model is that of the gateway daemon: what happens while the daemon waits is a
  stream of lists of events, and what is asked of the network stack is recorded in the order in which it is asked.
\<close>

subsection \<open>State and events\<close>

datatype routing_action = Register_state_handler | Start_thread | Vsomeip vsomeip_call | Stop_application | Join_thread

record someipd_state =
  sd_shutdown_requested :: bool
  sd_binding_server :: Server
  sd_memory :: byte_memory
  sd_socom_runtime :: "payload Runtime"
  sd_local_network_services :: "LocalNetworkService list"
  sd_remote_network_services :: "RemoteNetworkService list"
  sd_actions :: "routing_action list"

text \<open>Signals, the callbacks of the IPC server, writes of the other process to shared memory, the state and message handlers of
  the network stack, and the callbacks of the local network services.\<close>

datatype someipd_event =
    Sd_signal
  | Sd_connect channel
  | Sd_disconnect Client_id
  | Sd_message runtime_answer nat Client_id channel nat "u8 list"
  | Sd_memory_written byte_memory
  | Sd_vsomeip_state bool
  | Sd_network_message "client_ref \<Rightarrow> (Server_connector_error, payload) result" RemoteNetworkService Event_id u16 vsomeip_message
  | Sd_service_state_change LocalNetworkService bool
  | Sd_event_update LocalNetworkService Event_id payload

text \<open>The network stack runs its handlers between the start of its thread and the end of it.\<close>

definition network_running :: "someipd_state \<Rightarrow> bool" where
  "network_running w \<longleftrightarrow> Start_thread \<in> set (sd_actions w) \<and> Join_thread \<notin> set (sd_actions w)"

definition handler_registered :: "RemoteNetworkService \<Rightarrow> Event_id \<Rightarrow> u16 \<Rightarrow> someipd_state \<Rightarrow> bool" where
  "handler_registered rn socom_event_id vsomeip_event_id w \<longleftrightarrow> rn \<in> set (sd_remote_network_services w)
     \<and> Vsomeip (Register_message_handler (st_service_id (rn_type_config rn)) (si_instance_id (rn_instance_config rn)) vsomeip_event_id socom_event_id)
         \<in> set (sd_actions w)"

text \<open>What the callbacks of ended payloads do: report a slot of the peer, or release one of the own.\<close>

definition payload_ended :: "env \<Rightarrow> destroy_callback list \<Rightarrow> Server \<Rightarrow> Server" where
  "payload_ended env cbs sv =
    foldl (\<lambda>sv cb. sv\<lparr>sv_binding := (case cb of
        Notify_consumed client required h \<Rightarrow> on_payload_destruction env client required h (sv_binding sv)
      | _ \<Rightarrow> (sv_binding sv)\<lparr>b_slot_managers := snd (run_callback cb (b_slot_managers (sv_binding sv)))\<rparr>)\<rparr>) sv cbs"

fun someipd_step :: "env \<Rightarrow> Root \<Rightarrow> someipd_event \<Rightarrow> someipd_state \<Rightarrow> someipd_state run" where
  "someipd_step env config Sd_signal w = Ok (w\<lparr>sd_shutdown_requested := termination_handler (sd_shutdown_requested w)\<rparr>)"
| "someipd_step env config (Sd_connect conn) w =
    and_then (server_connect_callback conn (sd_binding_server w)) (\<lambda>(_, sv). Ok (w\<lparr>sd_binding_server := sv\<rparr>))"
| "someipd_step env config (Sd_disconnect client) w =
    Ok (w\<lparr>sd_binding_server := server_disconnect_callback client (sd_binding_server w)\<rparr>)"
| "someipd_step env config (Sd_message ra identity client conn address data) w =
    and_then (server_message_callback env ra identity client conn address data (sd_binding_server w)) (\<lambda>sv. Ok (w\<lparr>sd_binding_server := sv\<rparr>))"
| "someipd_step env config (Sd_memory_written mem) w = Ok (w\<lparr>sd_memory := mem\<rparr>)"
| "someipd_step env config (Sd_vsomeip_state registered) w =
    (if \<not> network_running w then Ok w
     else and_then (on_vsomeip_state config (sd_remote_network_services w) registered) (\<lambda>calls.
       Ok (w\<lparr>sd_actions := sd_actions w @ map Vsomeip calls\<rparr>)))"
| "someipd_step env config (Sd_network_message answer rn socom_event_id vsomeip_event_id msg) w =
    (if \<not> network_running w \<or> \<not> handler_registered rn socom_event_id vsomeip_event_id w then Ok w
     else and_then (on_vsomeip_message answer rn socom_event_id vsomeip_event_id msg (sd_memory w, sd_socom_runtime w)) (\<lambda>(mem, rt).
       Ok (w\<lparr>sd_memory := mem, sd_socom_runtime := rt\<rparr>)))"
| "someipd_step env config (Sd_service_state_change ln available) w =
    (if ln \<notin> set (sd_local_network_services w) then Ok w
     else and_then (local_on_service_state_change ln available (sd_socom_runtime w)) (\<lambda>rt. Ok (w\<lparr>sd_socom_runtime := rt\<rparr>)))"
| "someipd_step env config (Sd_event_update ln event_id payload) w =
    (if ln \<notin> set (sd_local_network_services w) then Ok w
     else and_then (forward_to_vsomeip ln event_id payload (sd_memory w)) (\<lambda>(calls, cbs).
       Ok (w\<lparr>sd_actions := sd_actions w @ map Vsomeip calls, sd_binding_server := payload_ended env cbs (sd_binding_server w)\<rparr>)))"

subsection \<open>Main program\<close>

definition ProcessMessages ::
    "(someipd_event \<Rightarrow> someipd_state \<Rightarrow> someipd_state run) \<Rightarrow> someipd_event list stream \<Rightarrow> someipd_state
      \<Rightarrow> (someipd_state \<times> someipd_event list stream) run option" where
  "ProcessMessages step = wait_loop step sd_shutdown_requested"

text \<open>\<^verbatim>\<open>stop\<close> makes \<^verbatim>\<open>start\<close> return in the thread that is joined.\<close>

definition Routing_Run ::
    "env \<Rightarrow> Root \<Rightarrow> someipd_event list stream \<Rightarrow> someipd_state \<Rightarrow> (someipd_state \<times> someipd_event list stream) run option" where
  "Routing_Run env config ticks w =
    then_wait (ProcessMessages (someipd_step env config) ticks (w\<lparr>sd_actions := sd_actions w @ [Register_state_handler, Start_thread]\<rparr>)) (\<lambda>(w1, ticks1).
      Some (Ok (w1\<lparr>sd_actions := sd_actions w1 @ [Stop_application, Join_thread]\<rparr>, ticks1)))"

text \<open>The destructors at the end of \<^verbatim>\<open>main\<close>: the connectors of the remote and of the local network services.\<close>

definition someipd_exit :: "someipd_state \<Rightarrow> (nat \<times> someipd_state option) run option" where
  "someipd_exit w =
    then_wait (Some (and_then (destroy_servers (map rn_server (sd_remote_network_services w)) (True, sd_socom_runtime w))
                       (destroy_clients (map ln_client (sd_local_network_services w))))) (\<lambda>(ended, rt).
      if \<not> ended then None else Some (Ok (0, Some (w\<lparr>sd_socom_runtime := rt\<rparr>))))"

definition someipd_initial :: "bool \<Rightarrow> byte_memory \<Rightarrow> someipd_state" where
  "someipd_initial listen_ok mem =
    \<lparr>sd_shutdown_requested = False, sd_binding_server = snd (server_start listen_ok (Server_create [])), sd_memory = mem,
     sd_socom_runtime = create_runtime, sd_local_network_services = [], sd_remote_network_services = [], sd_actions = []\<rparr>"

definition someipd_serve ::
    "env \<Rightarrow> Posix_credentials \<Rightarrow> Root \<Rightarrow> someipd_event list stream \<Rightarrow> someipd_state \<Rightarrow> (nat \<times> someipd_state option) run option" where
  "someipd_serve env cred config ticks w =
    then_wait (Some (fold_run (someipd_step env config) (shd ticks) w)) (\<lambda>w1.
    then_wait (Some (create_local_network_services cred config (sd_socom_runtime w1))) (\<lambda>(lns, rt1).
    then_wait (Some (fold_run (someipd_step env config) (shd (stl ticks))
        (w1\<lparr>sd_socom_runtime := rt1, sd_local_network_services := lns\<rparr>))) (\<lambda>w2.
    then_wait (Some (create_remote_network_services cred config (sd_socom_runtime w2))) (\<lambda>(rns, rt2).
    then_wait (Routing_Run env config (stl (stl ticks)) (w2\<lparr>sd_socom_runtime := rt2, sd_remote_network_services := rns\<rparr>)) (\<lambda>(w3, _).
      someipd_exit w3)))))"

definition someipd_main ::
    "env \<Rightarrow> (string \<Rightarrow> (int \<times> 'b) option) \<Rightarrow> ('b \<Rightarrow> Root) \<Rightarrow> Posix_credentials \<Rightarrow> bool \<Rightarrow> bool \<Rightarrow> getopt_result list
      \<Rightarrow> byte_memory \<Rightarrow> someipd_event list stream \<Rightarrow> (nat \<times> someipd_state option) run option" where
  "someipd_main env open_file GetRoot cred listen_ok stack_initialised opts mem ticks =
    (case someipd_start open_file GetRoot opts (is_Ok (fst (server_start listen_ok (Server_create [])))) stack_initialised of
       Err code \<Rightarrow> Some (Ok (code, None))
     | Ok config \<Rightarrow> someipd_serve env cred config ticks (someipd_initial listen_ok mem))"

subsection \<open>Connectors of the network services\<close>

definition someipd_ok :: "someipd_state \<Rightarrow> bool" where
  "someipd_ok w \<longleftrightarrow> owners_ok (map rn_server (sd_remote_network_services w)) (map ln_client (sd_local_network_services w)) (sd_socom_runtime w)"

lemma local_state_change_null: "local_on_service_state_change ln a rt = Ok rt' \<Longrightarrow> ln_client ln = None \<Longrightarrow> rt' = rt"
  by (auto simp: local_on_service_state_change_def subscribe_events_null split: if_splits elim!: and_then_OkE)

lemma local_network_service_created:
  assumes "LocalNetworkService_Create si st cred rt = Ok (r, rt')" and "owners_ok ss cs rt"
  shows "case r of Err e \<Rightarrow> owners_ok ss cs rt' | Ok ln \<Rightarrow> owners_ok ss (cs @ [ln_client ln]) rt'"
proof -
  obtain cfg inst q i changes rt1 where c: "make_client_connector all_client_callbacks cfg inst cred rt = Ok (q, rt1)"
        "fold_run (local_on_service_state_change i) changes rt1 = Ok rt'" "ln_client i = None"
        "(\<exists>e e'. q = Err e \<and> r = Err e') \<or> (\<exists>c. q = Ok c \<and> r = Ok (i\<lparr>ln_client := Some c\<rparr>))"
    using assms(1)
    by (auto simp: LocalNetworkService_Create_def Let_def split: if_splits sum.splits elim!: and_then_OkE)
  have "rt' = rt1" by (rule fold_run_same [OF c(2)]) (rule local_state_change_null [OF _ c(3)])
  then show ?thesis using owners_ok_client [OF assms(2) c(1)] c(4) by auto
qed

lemma remote_network_service_created:
  assumes "RemoteNetworkService_Create si st cred rt = Ok (r, rt')" and "owners_ok ss cs rt"
  shows "case r of Err e \<Rightarrow> owners_ok ss cs rt' | Ok rn \<Rightarrow> owners_ok (ss @ [rn_server rn]) cs rt'"
proof -
  obtain cfg inst q rt1 where m: "make_server_connector all_server_callbacks cfg inst cred rt = (q, rt1)"
    and r: "(\<exists>e. q = Err e \<and> rt' = rt1 \<and> (\<exists>e'. r = Err e')) \<or> (\<exists>s rn. q = Ok s \<and> enable_server s rt1 = Ok rt' \<and> r = Ok rn \<and> rn_server rn = s)"
    using assms(1)
    by (auto simp: RemoteNetworkService_Create_def Let_def split: prod.splits sum.splits elim!: and_then_OkE)
  from r show ?thesis
  proof (elim disjE exE conjE)
    fix e e' assume "q = Err e" "rt' = rt1" "r = Err e'"
    then show ?thesis using make_server_failed [OF m [unfolded \<open>q = Err e\<close>]] assms(2) by simp
  next
    fix s rn assume "q = Ok s" "enable_server s rt1 = Ok rt'" "r = Ok rn" "rn_server rn = s"
    then show ?thesis using owners_ok_server [OF assms(2)] m by auto
  qed
qed

text \<open>Both creation loops are nested loops over the configuration.\<close>

lemma nested_loop_invariant:
  assumes "fold_run (\<lambda>st acc. case f st of None \<Rightarrow> Ok acc | Some sis \<Rightarrow> fold_run (g st) sis acc) sts s = Ok s'" and "I s"
    and "\<And>st si s s'. g st si s = Ok s' \<Longrightarrow> I s \<Longrightarrow> I s'"
  shows "I s'"
proof (rule fold_run_invariant [where I = I, OF _ assms(2,1)])
  fix st s s' assume I: "I s" and s': "(case f st of None \<Rightarrow> Ok s | Some sis \<Rightarrow> fold_run (g st) sis s) = Ok s'"
  show "I s'"
  proof (cases "f st")
    case (Some sis)
    show ?thesis by (rule fold_run_invariant [where I = I, OF _ I s' [unfolded Some option.case]]) (rule assms(3))
  qed (use I s' in simp)
qed

lemma created_local_network_services:
  assumes "create_local_network_services cred config rt = Ok (lns, rt')" and "owners_ok ss [] rt"
  shows "owners_ok ss (map ln_client lns) rt'"
proof -
  obtain sts where "fold_run (\<lambda>st acc. case st_local_service_instances st of
          None \<Rightarrow> Ok acc
        | Some sis \<Rightarrow> fold_run (\<lambda>si (lns, rt). and_then (LocalNetworkService_Create si st cred rt) (\<lambda>(r, rt').
            (case r of Err e \<Rightarrow> Ok (lns, rt') | Ok ln \<Rightarrow> Ok (lns @ [ln], rt')))) sis acc) sts ([], rt) = Ok (lns, rt')"
    using assms(1) by (auto simp: create_local_network_services_def elim!: and_then_OkE)
  then have "case (lns, rt') of (lns, rt') \<Rightarrow> owners_ok ss (map ln_client lns) rt'"
    by (rule nested_loop_invariant [where I = "\<lambda>(lns, rt'). owners_ok ss (map ln_client lns) rt'"])
      (use assms(2) in \<open>auto split: sum.splits elim!: and_then_OkE dest!: local_network_service_created\<close>)
  then show ?thesis by simp
qed

lemma created_remote_network_services:
  assumes "create_remote_network_services cred config rt = Ok (rns, rt')" and "owners_ok [] cs rt"
  shows "owners_ok (map rn_server rns) cs rt'"
proof -
  obtain sts where "fold_run (\<lambda>st acc. case st_remote_service_instances st of
          None \<Rightarrow> Ok acc
        | Some sis \<Rightarrow> fold_run (\<lambda>si (rns, rt). and_then (RemoteNetworkService_Create si st cred rt) (\<lambda>(r, rt').
            (case r of Err e \<Rightarrow> Ok (rns, rt') | Ok rn \<Rightarrow> Ok (rns @ [rn], rt')))) sis acc) sts ([], rt) = Ok (rns, rt')"
    using assms(1) by (auto simp: create_remote_network_services_def elim!: and_then_OkE)
  then have "case (rns, rt') of (rns, rt') \<Rightarrow> owners_ok (map rn_server rns) cs rt'"
    by (rule nested_loop_invariant [where I = "\<lambda>(rns, rt'). owners_ok (map rn_server rns) cs rt'"])
      (use assms(2) in \<open>auto split: sum.splits elim!: and_then_OkE dest!: remote_network_service_created\<close>)
  then show ?thesis by simp
qed

subsection \<open>The events of the SOME/IP daemon\<close>

lemma subscribe_events_owners:
  assumes "subscribe_events c n rt = Ok rt'" and "owners_ok ss cs rt" and "c \<in> set cs"
  shows "owners_ok ss cs rt'"
  using assms(1) unfolding subscribe_events_def
proof (rule fold_run_invariant [where I = "owners_ok ss cs", rotated 2])
  fix i :: nat and s s' assume ok: "owners_ok ss cs s"
    and s: "and_then (deref c) (\<lambda>c. and_then (subscribe_event c (of_nat i) update s) (\<lambda>(_, rt'). Ok rt')) = Ok s'"
  note inv = owners_okD [OF ok]
  obtain c' r where c': "c = Some c'" "subscribe_event c' (of_nat i) update s = Ok (r, s')"
    using s by (auto elim!: and_then_OkE)
  have "c' \<in> clients_of s" using assms(3) inv(5) c'(1) by auto
  then have "runtime_ok s'" using requests_ok(1) [OF inv(1), of c' _ "of_nat i" update] c'(2) unfolding connector_lookup by auto
  then show "owners_ok ss cs s'" by (rule owners_ok_same [OF ok _ subscribe_event_same [OF c'(2)]])
qed (rule assms(2))

lemma update_event_emits:
  assumes "rt_update_event s i p rt = Ok (r, rt')"
  shows "rt' = rt \<or> (\<exists>es. rt' = rt_emit es rt)"
  using assms by (cases "map_of (rt_servers rt) s") (auto simp: rt_update_event_def split: sum.splits option.splits)

lemma on_vsomeip_message_owners:
  assumes "on_vsomeip_message answer rn i eid msg (mem, rt) = Ok (mem', rt')" and "owners_ok ss cs rt"
  shows "owners_ok ss cs rt'"
proof -
  have "rt' = rt \<or> (\<exists>p r. rt_update_event (rn_server rn) i p rt = Ok (r, rt'))"
    using assms(1) by (auto simp: on_vsomeip_message_def Let_def split: sum.splits if_splits elim!: and_then_OkE)
  then have "rt' = rt \<or> (\<exists>es. rt' = rt_emit es rt)" by (auto dest: update_event_emits)
  then show ?thesis using assms(2) owners_ok_same [OF assms(2)] owners_okD(1) [OF assms(2)] by auto
qed

lemma someipd_step_ok:
  assumes "someipd_step env config e w = Ok w'" and "someipd_ok w"
  shows "someipd_ok w'"
proof (cases e)
  case (Sd_network_message answer rn i eid msg)
  then show ?thesis using assms on_vsomeip_message_owners
    by (auto simp: someipd_ok_def split: if_splits elim!: and_then_OkE)
next
  case (Sd_service_state_change ln available)
  show ?thesis
  proof (cases "w' = w")
    case False
    then obtain rt' where ln: "ln \<in> set (sd_local_network_services w)" and c: "local_on_service_state_change ln available (sd_socom_runtime w) = Ok rt'"
      and w': "w' = w\<lparr>sd_socom_runtime := rt'\<rparr>" using assms(1) Sd_service_state_change by (auto split: if_splits elim!: and_then_OkE)
    have "rt' = sd_socom_runtime w \<or> (\<exists>n. subscribe_events (ln_client ln) n (sd_socom_runtime w) = Ok rt')"
      using c by (auto simp: local_on_service_state_change_def split: if_splits elim!: and_then_OkE)
    moreover have "ln_client ln \<in> set (map ln_client (sd_local_network_services w))" using ln by simp
    ultimately show ?thesis using subscribe_events_owners [OF _ assms(2) [unfolded someipd_ok_def]] assms(2)
      by (auto simp: someipd_ok_def w')
  qed (use assms(2) in simp)
qed (use assms in \<open>auto simp: someipd_ok_def split: if_splits elim!: and_then_OkE\<close>)

lemma someipd_step_kept:
  assumes "someipd_step env config e w = Ok w'"
  shows "sd_local_network_services w' = sd_local_network_services w" "sd_remote_network_services w' = sd_remote_network_services w"
    and "sd_shutdown_requested w' \<longleftrightarrow> sd_shutdown_requested w \<or> e = Sd_signal"
  using assms by (cases e; auto simp: termination_handler_def split: if_splits elim!: and_then_OkE)+

lemma someipd_steps:
  assumes "fold_run (someipd_step env config) es w = Ok w'"
  shows "sd_local_network_services w' = sd_local_network_services w \<and> sd_remote_network_services w' = sd_remote_network_services w
    \<and> (sd_shutdown_requested w' \<longleftrightarrow> sd_shutdown_requested w \<or> Sd_signal \<in> set es) \<and> (someipd_ok w \<longrightarrow> someipd_ok w')"
  using assms
proof (induction es arbitrary: w)
  case (Cons e es)
  then obtain w1 where w1: "someipd_step env config e w = Ok w1" "fold_run (someipd_step env config) es w1 = Ok w'"
    by (auto elim!: and_then_OkE)
  then show ?case using Cons.IH [OF w1(2)] someipd_step_kept [OF w1(1)] someipd_step_ok [OF w1(1)] by auto
qed simp

subsection \<open>Calls of the network stack\<close>

fun setup_call :: "vsomeip_call \<Rightarrow> bool" where
  "setup_call (Notify sid iid eid bytes) = False"
| "setup_call _ = True"

lemma forward_notifies: "forward_to_vsomeip ln e p mem = Ok (calls, cbs) \<Longrightarrow> filter setup_call calls = []"
  by (auto simp: forward_to_vsomeip_def Let_def split: if_splits elim!: and_then_OkE)

lemma state_sets_up:
  assumes "on_vsomeip_state config rns b = Ok calls"
  shows "filter setup_call calls = calls"
proof (cases b)
  case True
  let ?I = "list_all setup_call"
  obtain offers sts where o: "fold_run (\<lambda>st calls. case st_local_service_instances st of
          None \<Rightarrow> Ok calls
        | Some sis \<Rightarrow> fold_run (\<lambda>si calls. and_then (offer_instance st si) (\<lambda>cs. Ok (calls @ cs))) sis calls) sts [] = Ok offers"
    and s: "fold_run (\<lambda>rn calls. and_then (setup_vsomeip rn) (\<lambda>cs. Ok (calls @ cs))) rns offers = Ok calls"
    using assms True by (auto simp: on_vsomeip_state_def SetupOfferings_def elim!: and_then_OkE)
  have "?I offers"
    by (rule nested_loop_invariant [where I = ?I, OF o])
      (auto simp: offer_instance_def list_all_iff elim!: and_then_OkE)
  then have "?I calls"
    by (rule fold_run_invariant [where I = ?I, OF _ _ s, rotated])
      (auto simp: setup_vsomeip_def Let_def list_all_iff elim!: and_then_OkE)
  then show ?thesis by (simp add: list_all_iff)
qed (use assms in \<open>simp add: on_vsomeip_state_def\<close>)

text \<open>While the stack runs, the events add notifications, and each report that the application is registered adds the whole
  set-up: all offers, then all subscriptions.\<close>

lemma someipd_steps_calls:
  assumes "fold_run (someipd_step env config) es w = Ok w'" and "network_running w"
  shows "\<exists>calls. sd_actions w' = sd_actions w @ map Vsomeip calls
    \<and> (let k = count_list es (Sd_vsomeip_state True) in
       k = 0 \<and> filter setup_call calls = []
       \<or> (\<exists>setup. on_vsomeip_state config (sd_remote_network_services w) True = Ok setup \<and> filter setup_call calls = concat (replicate k setup)))"
  using assms
proof (induction es arbitrary: w)
  case Nil
  then show ?case by simp
next
  case (Cons e es)
  then obtain w1 where w1: "someipd_step env config e w = Ok w1" "fold_run (someipd_step env config) es w1 = Ok w'"
    by (auto elim!: and_then_OkE)
  have "\<exists>calls. sd_actions w1 = sd_actions w @ map Vsomeip calls
    \<and> (if e = Sd_vsomeip_state True then on_vsomeip_state config (sd_remote_network_services w) True = Ok calls else filter setup_call calls = [])"
    using w1(1) Cons.prems(2)
    by (cases e) (auto simp: on_vsomeip_state_def [of _ _ False] dest!: forward_notifies split: if_splits elim!: and_then_OkE)
  then obtain c1 where c1: "sd_actions w1 = sd_actions w @ map Vsomeip c1"
    "if e = Sd_vsomeip_state True then on_vsomeip_state config (sd_remote_network_services w) True = Ok c1 else filter setup_call c1 = []" by blast
  have "network_running w1" using Cons.prems(2) c1(1) by (auto simp: network_running_def)
  from Cons.IH [OF w1(2) this] obtain c2 where c2: "sd_actions w' = sd_actions w1 @ map Vsomeip c2"
    "count_list es (Sd_vsomeip_state True) = 0 \<and> filter setup_call c2 = []
       \<or> (\<exists>setup. on_vsomeip_state config (sd_remote_network_services w1) True = Ok setup
            \<and> filter setup_call c2 = concat (replicate (count_list es (Sd_vsomeip_state True)) setup))" by (auto simp: Let_def)
  have "sd_actions w' = sd_actions w @ map Vsomeip (c1 @ c2)" using c1(1) c2(1) by simp
  then show ?case using c1(2) c2(2) someipd_step_kept(2) [OF w1(1)]
    by (intro exI [of _ "c1 @ c2"]) (auto simp: Let_def state_sets_up split: if_splits)
qed

lemma early_calls:
  assumes "fold_run (someipd_step env config) es w = Ok w'" and "\<not> network_running w" and "Start_thread \<notin> set (sd_actions w)"
  shows "\<exists>calls. sd_actions w' = sd_actions w @ map Vsomeip calls \<and> filter setup_call calls = []"
  using assms
proof (induction es arbitrary: w)
  case (Cons e es)
  then obtain w1 where w1: "someipd_step env config e w = Ok w1" "fold_run (someipd_step env config) es w1 = Ok w'"
    by (auto elim!: and_then_OkE)
  have "\<exists>calls. sd_actions w1 = sd_actions w @ map Vsomeip calls \<and> filter setup_call calls = []"
    using w1(1) Cons.prems(2) by (cases e) (auto dest!: forward_notifies split: if_splits elim!: and_then_OkE)
  then obtain c1 where c1: "sd_actions w1 = sd_actions w @ map Vsomeip c1" "filter setup_call c1 = []" by blast
  have "\<not> network_running w1" "Start_thread \<notin> set (sd_actions w1)" using Cons.prems(3) c1(1) by (auto simp: network_running_def)
  from Cons.IH [OF w1(2) this] obtain c2 where "sd_actions w' = sd_actions w1 @ map Vsomeip c2" "filter setup_call c2 = []" by blast
  then show ?case using c1 by (intro exI [of _ "c1 @ c2"]) simp
qed simp

subsection \<open>The end of the SOME/IP daemon\<close>

lemma someipd_exit_ends:
  assumes "someipd_ok w"
  shows "\<exists>rt. someipd_exit w = Some (Ok (0, Some (w\<lparr>sd_socom_runtime := rt\<rparr>))) \<and> clients_of rt = {} \<and> servers_of rt = {}"
proof -
  obtain rt1 where rt1: "destroy_servers (map rn_server (sd_remote_network_services w)) (True, sd_socom_runtime w) = Ok (True, rt1)"
    "owners_ok [] (map ln_client (sd_local_network_services w)) rt1" using destroy_servers_end [OF assms [unfolded someipd_ok_def]] by blast
  obtain rt2 where rt2: "destroy_clients (map ln_client (sd_local_network_services w)) (True, rt1) = Ok (True, rt2)" "owners_ok [] [] rt2"
    using destroy_clients_end [OF rt1(2)] by blast
  show ?thesis using owners_ok_none [OF rt2(2)] by (intro exI [of _ rt2]) (simp add: someipd_exit_def rt1(1) rt2(1))
qed

text \<open>The state in which \<^verbatim>\<open>Run\<close> begins, with what was asked of the stack before.\<close>

definition ready_to_run :: "someipd_state \<Rightarrow> bool" where
  "ready_to_run w \<longleftrightarrow> someipd_ok w \<and> (\<exists>calls. sd_actions w = map Vsomeip calls \<and> filter setup_call calls = [])"

lemma someipd_serve_ready:
  assumes "fold_run (someipd_step env config) es1 (someipd_initial listen_ok mem) = Ok w1"
    and "create_local_network_services cred config (sd_socom_runtime w1) = Ok (lns, rt1)"
    and "fold_run (someipd_step env config) es2 (w1\<lparr>sd_socom_runtime := rt1, sd_local_network_services := lns\<rparr>) = Ok w2"
    and "create_remote_network_services cred config (sd_socom_runtime w2) = Ok (rns, rt2)"
  shows "ready_to_run (w2\<lparr>sd_socom_runtime := rt2, sd_remote_network_services := rns\<rparr>)
    \<and> (sd_shutdown_requested w2 \<longleftrightarrow> Sd_signal \<in> set es1 \<union> set es2)"
proof -
  let ?w0 = "someipd_initial listen_ok mem" and ?w1 = "w1\<lparr>sd_socom_runtime := rt1, sd_local_network_services := lns\<rparr>"
  have w0: "someipd_ok ?w0" "sd_actions ?w0 = []" "\<not> sd_shutdown_requested ?w0" "sd_local_network_services ?w0 = []" "sd_remote_network_services ?w0 = []"
    using create_runtime_owners by (simp_all add: someipd_ok_def someipd_initial_def)
  have w1: "owners_ok [] [] (sd_socom_runtime w1)" "sd_remote_network_services w1 = []"
    using someipd_steps [OF assms(1)] w0 by (auto simp: someipd_ok_def)
  have "someipd_ok ?w1" using created_local_network_services [OF assms(2) w1(1)] w1(2) by (simp add: someipd_ok_def)
  then have w2: "owners_ok [] (map ln_client (sd_local_network_services w2)) (sd_socom_runtime w2)"
    using someipd_steps [OF assms(3)] w1(2) by (auto simp: someipd_ok_def)
  obtain c1 where c1: "sd_actions w1 = map Vsomeip c1" "filter setup_call c1 = []"
    using early_calls [OF assms(1)] w0(2) by (auto simp: network_running_def)
  have "Start_thread \<notin> set (sd_actions w1)" using c1(1) by auto
  then obtain c2 where c2: "sd_actions w2 = map Vsomeip (c1 @ c2)" "filter setup_call c2 = []"
    using early_calls [OF assms(3)] c1(1) by (auto simp: network_running_def)
  have "sd_shutdown_requested w2 \<longleftrightarrow> Sd_signal \<in> set es1 \<union> set es2"
    using someipd_steps [OF assms(1)] someipd_steps [OF assms(3)] w0(3) by auto
  moreover have "\<exists>calls. sd_actions w2 = map Vsomeip calls \<and> filter setup_call calls = []"
    using c1(2) c2 by (intro exI [of _ "c1 @ c2"]) simp
  ultimately show ?thesis using created_remote_network_services [OF assms(4) w2] by (simp add: ready_to_run_def someipd_ok_def)
qed

text \<open>What a finished daemon has asked of the network stack, given the events that were handled while the stack ran.\<close>

definition network_trace_ok :: "Root \<Rightarrow> someipd_event list \<Rightarrow> someipd_state \<Rightarrow> bool" where
  "network_trace_ok config es w \<longleftrightarrow>
    (\<exists>early calls. sd_actions w = map Vsomeip early @ [Register_state_handler, Start_thread] @ map Vsomeip calls @ [Stop_application, Join_thread]
      \<and> filter setup_call early = []
      \<and> (let k = count_list es (Sd_vsomeip_state True) in
         k = 0 \<and> filter setup_call calls = []
         \<or> (\<exists>setup. on_vsomeip_state config (sd_remote_network_services w) True = Ok setup \<and> filter setup_call calls = concat (replicate k setup))))"

lemma Routing_Run_ended:
  assumes "Routing_Run env config ticks w = Some (Ok (w', ticks'))" and "ready_to_run w"
  obtains n where "sd_shutdown_requested w \<or> Sd_signal \<in> set (concat (stake n ticks))" "someipd_ok w'" "network_trace_ok config (concat (stake n ticks)) w'"
proof -
  let ?w = "w\<lparr>sd_actions := sd_actions w @ [Register_state_handler, Start_thread]\<rparr>"
  obtain w1 where l: "wait_loop (someipd_step env config) sd_shutdown_requested ticks ?w = Some (Ok (w1, ticks'))"
    and w': "w' = w1\<lparr>sd_actions := sd_actions w1 @ [Stop_application, Join_thread]\<rparr>"
    using assms(1) by (auto simp: Routing_Run_def ProcessMessages_def elim!: then_wait_OkE)
  obtain n where n: "sd_shutdown_requested w1" "fold_run (someipd_step env config) (concat (stake n ticks)) ?w = Ok w1"
    using wait_loop_ended [OF l] by blast
  obtain early where early: "sd_actions w = map Vsomeip early" "filter setup_call early = []" "someipd_ok ?w"
    using assms(2) by (auto simp: ready_to_run_def someipd_ok_def)
  have "network_running ?w" using early(1) by (auto simp: network_running_def)
  note calls = someipd_steps_calls [OF n(2) this] and steps = someipd_steps [OF n(2)]
  have "network_trace_ok config (concat (stake n ticks)) w'"
    using calls steps early(1,2) unfolding network_trace_ok_def w' Let_def by (elim exE conjE) (rule exI [of _ early], auto)
  moreover have "someipd_ok w'" using steps early(3) by (auto simp: w' someipd_ok_def)
  ultimately show thesis using that steps n(1) by auto
qed

lemma Routing_Run_returns:
  assumes "sd_shutdown_requested w \<or> Sd_signal \<in> set (ticks !! n)"
  shows "Routing_Run env config ticks w \<noteq> None"
proof -
  let ?w = "w\<lparr>sd_actions := sd_actions w @ [Register_state_handler, Start_thread]\<rparr>"
  have "wait_loop (someipd_step env config) sd_shutdown_requested ticks ?w \<noteq> None"
  proof (cases "sd_shutdown_requested w")
    case True
    then show ?thesis by (simp add: wait_loop_done)
  next
    case False
    then have "Sd_signal \<in> set (ticks !! n)" using assms by blast
    then show ?thesis by (rule wait_loop_ends [where P = sd_shutdown_requested]) (use someipd_step_kept(3) in blast)+
  qed
  then show ?thesis by (auto simp: Routing_Run_def ProcessMessages_def then_wait_def split: sum.splits)
qed

lemma then_wait_Some_returns:
  "(\<exists>y. then_wait (Some r) f = Some y) \<longleftrightarrow> (\<forall>x. r = Ok x \<longrightarrow> (\<exists>y. f x = Some y))"
  by (cases r) simp_all

text \<open>The events of the first two lists happen before \<^verbatim>\<open>Run\<close>.\<close>

lemma someipd_rest_returns:
  assumes w: "fold_run (someipd_step env config) (shd ticks) (someipd_initial listen_ok mem) = Ok w1"
      "create_local_network_services cred config (sd_socom_runtime w1) = Ok (lns, rt1)"
      "fold_run (someipd_step env config) (shd (stl ticks)) (w1\<lparr>sd_socom_runtime := rt1, sd_local_network_services := lns\<rparr>) = Ok w2"
      "create_remote_network_services cred config (sd_socom_runtime w2) = Ok (rns, rt2)"
    and sig: "Sd_signal \<in> set (ticks !! n)"
  shows "then_wait (Routing_Run env config (sdrop 2 ticks) (w2\<lparr>sd_socom_runtime := rt2, sd_remote_network_services := rns\<rparr>))
    (\<lambda>(w3, _). someipd_exit w3) \<noteq> None"
proof (rule then_wait_returns)
  let ?w = "w2\<lparr>sd_socom_runtime := rt2, sd_remote_network_services := rns\<rparr>"
  note ready = someipd_serve_ready [OF w]
  have "sd_shutdown_requested w2 \<or> Sd_signal \<in> set (sdrop 2 ticks !! (n - 2))"
  proof (cases "n < 2")
    case True
    then have "Sd_signal \<in> set (shd ticks) \<union> set (shd (stl ticks))" using sig by (auto simp: less_2_cases_iff)
    then show ?thesis using ready by blast
  next
    case False
    then have "2 + (n - 2) = n" by simp
    then have "sdrop 2 ticks !! (n - 2) = ticks !! n" unfolding sdrop_snth by (rule arg_cong)
    then show ?thesis using sig by (simp only: simp_thms)
  qed
  then show "Routing_Run env config (sdrop 2 ticks) ?w \<noteq> None" by (intro Routing_Run_returns) simp
  fix x assume x: "Routing_Run env config (sdrop 2 ticks) ?w = Some (Ok x)"
  obtain w3 ticks3 where p: "x = (w3, ticks3)" by (cases x)
  have "someipd_ok w3" by (rule Routing_Run_ended [OF x [unfolded p]]) (use ready in blast)+
  then show "(case x of (w3, _) \<Rightarrow> someipd_exit w3) \<noteq> None" using someipd_exit_ends [of w3] by (auto simp: p)
qed

lemma someipd_rest_ended:
  assumes w: "fold_run (someipd_step env config) (shd ticks) (someipd_initial listen_ok mem) = Ok w1"
      "create_local_network_services cred config (sd_socom_runtime w1) = Ok (lns, rt1)"
      "fold_run (someipd_step env config) (shd (stl ticks)) (w1\<lparr>sd_socom_runtime := rt1, sd_local_network_services := lns\<rparr>) = Ok w2"
      "create_remote_network_services cred config (sd_socom_runtime w2) = Ok (rns, rt2)"
    and r: "Routing_Run env config (sdrop 2 ticks) (w2\<lparr>sd_socom_runtime := rt2, sd_remote_network_services := rns\<rparr>) = Some (Ok (w3, ticks3))"
      "someipd_exit w3 = Some (Ok (code, w))"
  shows "\<exists>n w'. Sd_signal \<in> set (concat (stake (n + 2) ticks)) \<and> code = 0 \<and> w = Some w'
      \<and> clients_of (sd_socom_runtime w') = {} \<and> servers_of (sd_socom_runtime w') = {} \<and> network_trace_ok config (concat (stake n (sdrop 2 ticks))) w'"
proof -
  note ready = someipd_serve_ready [OF w]
  obtain n where n: "sd_shutdown_requested (w2\<lparr>sd_socom_runtime := rt2, sd_remote_network_services := rns\<rparr>)
      \<or> Sd_signal \<in> set (concat (stake n (sdrop 2 ticks)))" "someipd_ok w3"
    "network_trace_ok config (concat (stake n (sdrop 2 ticks))) w3" by (rule Routing_Run_ended [OF r(1)]) (use ready in blast)+
  obtain rt where rt: "code = 0" "w = Some (w3\<lparr>sd_socom_runtime := rt\<rparr>)" "clients_of rt = {}" "servers_of rt = {}"
    using someipd_exit_ends [OF n(2)] r(2) by auto
  have "stake (n + 2) ticks = [shd ticks, shd (stl ticks)] @ stake n (sdrop 2 ticks)" by (simp add: numeral_2_eq_2)
  then have "Sd_signal \<in> set (concat (stake (n + 2) ticks))" using n(1) ready by auto
  moreover have "network_trace_ok config (concat (stake n (sdrop 2 ticks))) (w3\<lparr>sd_socom_runtime := rt\<rparr>)"
    using n(3) by (simp add: network_trace_ok_def)
  ultimately show ?thesis using rt by (intro exI [of _ n] exI [of _ "w3\<lparr>sd_socom_runtime := rt\<rparr>"]) simp
qed


text \<open>A loop that ends with the last of the given lists of events.\<close>

fun loop_prefix :: "('e \<Rightarrow> 's \<Rightarrow> 's run) \<Rightarrow> ('s \<Rightarrow> bool) \<Rightarrow> 'e list list \<Rightarrow> 's \<Rightarrow> 's run" where
  "loop_prefix step finished [] s = assert_run (finished s) (Ok s)"
| "loop_prefix step finished (es # ess) s = assert_run (\<not> finished s) (and_then (fold_run step es s) (loop_prefix step finished ess))"

lemma wait_loop_prefix:
  "loop_prefix step finished ess s = Ok s' \<Longrightarrow> wait_loop step finished (ess @- ticks) s = Some (Ok (s', ticks))"
  by (induction ess arbitrary: s) (auto simp: wait_loop_done wait_loop_tick assert_run_def split: if_splits elim!: and_then_OkE)

text \<open>An execution of a configuration with one service of the network: the stack is registered twice.\<close>

definition example_network_root :: Root where
  "example_network_root = \<lparr>service_types = Some [example_service\<lparr>st_local_service_instances := None, st_remote_service_instances := Some [example_instance]\<rparr>]\<rparr>"

definition example_network_events :: "someipd_event list list" where
  "example_network_events = [[Sd_vsomeip_state True], [Sd_vsomeip_state False, Sd_vsomeip_state True], [Sd_signal]]"

lemma example_network_run:
  obtains lns rt1 rns rt2 w where "create_local_network_services example_credentials example_network_root create_runtime = Ok (lns, rt1)"
    "create_remote_network_services example_credentials example_network_root rt1 = Ok (rns, rt2)"
    "loop_prefix (someipd_step demo_env example_network_root) sd_shutdown_requested example_network_events
      ((someipd_initial True (\<lambda>_. 0))\<lparr>sd_local_network_services := lns, sd_socom_runtime := rt2, sd_remote_network_services := rns,
         sd_actions := [Register_state_handler, Start_thread]\<rparr>) = Ok w"
proof -
  have "is_Ok (and_then (create_local_network_services example_credentials example_network_root create_runtime) (\<lambda>(lns, rt1).
    and_then (create_remote_network_services example_credentials example_network_root rt1) (\<lambda>(rns, rt2).
      loop_prefix (someipd_step demo_env example_network_root) sd_shutdown_requested example_network_events
      ((someipd_initial True (\<lambda>_. 0))\<lparr>sd_local_network_services := lns, sd_socom_runtime := rt2, sd_remote_network_services := rns,
         sd_actions := [Register_state_handler, Start_thread]\<rparr>))))" by code_simp
  then show thesis using that by (auto simp: is_Ok_iff elim!: and_then_OkE)
qed


end
