(* ===== verification/Socom_Support.thy ===== *)
theory Socom_Support
  imports Socom_Payload Error_Domains "HOL-Library.Multiset"
begin

text \<open>
  Small parts of SOCom the connectors are built with: the function that runs when an object is
  destroyed (\<^verbatim>\<open>socom/final_action.hpp\<close>), the results of method calls (\<^verbatim>\<open>socom/method.hpp\<close>), and
  the detection of connectors destroyed inside their own callbacks
  (\<^verbatim>\<open>socom/impl/temporary_thread_id_add.hpp\<close> and \<^verbatim>\<open>.cpp\<close>). Termination by \<^verbatim>\<open>std::abort\<close> is the
  fault of a failed assertion.
\<close>

subsection \<open>Final actions\<close>

text \<open>The stored function, \<open>None\<close> once it is disarmed; operations return the calls they make.\<close>

type_synonym 'f Final_action = "'f option"

definition make_final_action :: "'f \<Rightarrow> 'f Final_action" where
  "make_final_action f = Some f"

definition final_action_move :: "'f Final_action \<Rightarrow> 'f Final_action \<times> 'f Final_action" where
  "final_action_move other = (other, None)"

definition final_action_execute :: "'f Final_action \<Rightarrow> 'f list \<times> 'f Final_action" where
  "final_action_execute a = ((case a of None \<Rightarrow> [] | Some f \<Rightarrow> [f]), None)"

definition final_action_destroy :: "'f Final_action \<Rightarrow> 'f list" where
  "final_action_destroy a = fst (final_action_execute a)"

text \<open>However it is moved and executed, the function runs once.\<close>

lemma final_action_once:
  "final_action_move (make_final_action f) = (a, b) \<Longrightarrow> final_action_destroy b @ final_action_destroy a = [f]"
  "final_action_execute (make_final_action f) = (fs, a) \<Longrightarrow> fs @ final_action_destroy a = [f]"
  by (auto simp: final_action_move_def make_final_action_def final_action_destroy_def final_action_execute_def)

subsection \<open>Results of method calls\<close>

datatype 'cb Method_result =
    Application_return "'cb Payload"
  | Application_error "32 word" "'cb Payload"
  | Method_error Error

definition application_return_eq :: "(size_t \<Rightarrow> u8) \<Rightarrow> 'cb Payload \<Rightarrow> 'cb Payload \<Rightarrow> bool run" where
  "application_return_eq mem lhs rhs = payload_eq mem lhs rhs"

definition application_error_eq ::
    "(size_t \<Rightarrow> u8) \<Rightarrow> 32 word \<times> 'cb Payload \<Rightarrow> 32 word \<times> 'cb Payload \<Rightarrow> bool run" where
  "application_error_eq mem lhs rhs = (if fst lhs = fst rhs then payload_eq mem (snd lhs) (snd rhs) else Ok False)"

lemma application_error_eq_refl:
  "payload_wf p \<Longrightarrow> application_error_eq mem (c, p) (c, p) = Ok True"
  by (simp add: application_error_eq_def payload_eq_def payload_header_wf payload_data_wf)

subsection \<open>Deadlock detection\<close>

text \<open>The threads inside callbacks, with repetitions for nested ones.\<close>

definition enter_callback :: "'t \<Rightarrow> 't list \<Rightarrow> 't list" where
  "enter_callback t thread_ids = thread_ids @ [t]"

definition leave_callback :: "'t \<Rightarrow> 't list \<Rightarrow> 't list run" where
  "leave_callback t thread_ids = assert_run (t \<in> set thread_ids) (Ok (remove1 t thread_ids))"

definition check_deadlock :: "'t \<Rightarrow> 't list \<Rightarrow> unit run" where
  "check_deadlock t thread_ids = (if t \<in> set thread_ids then Err Assert_failed else Ok ())"

text \<open>Callbacks start and end; a thread ends only callbacks it has started. \<open>active\<close> counts them.\<close>

inductive callbacks_run :: "('t \<Rightarrow> nat) \<Rightarrow> 't list \<Rightarrow> bool" where
  idle: "callbacks_run (\<lambda>_. 0) []"
| enter: "callbacks_run active ids \<Longrightarrow> callbacks_run (active(t := active t + 1)) (enter_callback t ids)"
| leave: "callbacks_run active ids \<Longrightarrow> 0 < active t \<Longrightarrow> leave_callback t ids = Ok ids' \<Longrightarrow> callbacks_run (active(t := active t - 1)) ids'"

lemma callbacks_run_count: "callbacks_run active ids \<Longrightarrow> count (mset ids) t = active t"
  by (induction rule: callbacks_run.induct) (auto simp: enter_callback_def leave_callback_def)

text \<open>Leaving never fails, and a destructor is stopped exactly inside a callback of the same thread.\<close>

lemma deadlock_detection_exact:
  assumes "callbacks_run active ids"
  shows "check_deadlock t ids = Ok () \<longleftrightarrow> active t = 0"
    and "0 < active t \<Longrightarrow> \<exists>ids'. leave_callback t ids = Ok ids' \<and> callbacks_run (active(t := active t - 1)) ids'"
proof -
  have m: "t \<in> set ids \<longleftrightarrow> active t \<noteq> 0"
    using callbacks_run_count [OF assms, of t] by (simp add: count_greater_zero_iff [symmetric] flip: set_mset_mset) 
  show "check_deadlock t ids = Ok () \<longleftrightarrow> active t = 0" using m by (simp add: check_deadlock_def)
  show "\<exists>ids'. leave_callback t ids = Ok ids' \<and> callbacks_run (active(t := active t - 1)) ids'" if "0 < active t"
  proof -
    have "leave_callback t ids = Ok (remove1 t ids)" using m that by (simp add: leave_callback_def)
    then show ?thesis using callbacks_run.leave [OF assms that] by blast
  qed
qed

end
