(* ===== verification/Spec2Isabelle.thy ===== *)
theory Spec2Isabelle
  imports Ipc_Endpoints Runtime_Bridges Server_Callbacks Network_Path Process_Path Someipd_Main Socom_Support
begin

text \<open>
  Verification of the SOME/IP gateway.

  \<^bold>\<open>The program.\<close> The gateway connects applications of one node to a SOME/IP network. Two processes share the
  work: \<^verbatim>\<open>gatewayd\<close> talks to the local applications through \<^verbatim>\<open>mw::com\<close>, \<^verbatim>\<open>someipd\<close> talks to the network through
  \<^verbatim>\<open>vsomeip\<close>. Inside each process clients and servers of a service meet in the SOCom runtime (\<^verbatim>\<open>score/socom\<close>).
  Between the processes the IPC binding (\<^verbatim>\<open>score/gateway_ipc_binding\<close>) makes the servers of one runtime available to the
  clients of the other one: control messages go through a message channel, the data of events through
  reference-counted slots of shared memory. The serializer plugin (\<^verbatim>\<open>score/serializer\<close>) converts between samples and
  messages. All paths below are relative to \<^verbatim>\<open>src/score\<close>.

  \<^bold>\<open>Theories of the foundations.\<close>
  \<^item> \<^verbatim>\<open>Prelude\<close>: machine integers, results, runs with faults (failed assertion, null pointer, out of bounds), association
    lists for the standard maps. \<^verbatim>\<open>Byte_Memory\<close>: bytes at addresses, \<^verbatim>\<open>memcpy\<close> and writing through spans.
    \<^verbatim>\<open>C_Layout\<close>: object representation under the x86-64 ABI.
  \<^item> \<^verbatim>\<open>Ipc_Errors\<close>, \<^verbatim>\<open>Error_Domains\<close>: the error enumerations, their numbers and texts (\<^verbatim>\<open>error.hpp\<close>, \<^verbatim>\<open>error.cpp\<close> of the
    three libraries).

  \<^bold>\<open>Theories of the IPC binding\<close> (\<^verbatim>\<open>gateway_ipc_binding\<close>).
  \<^item> \<^verbatim>\<open>Fixed_Container\<close>, \<^verbatim>\<open>Ipc_Types\<close>, \<^verbatim>\<open>Wire_Format\<close>: containers with a length word, the data types with equality and hash, the names of
    shared memory objects, the structs of the messages, and \<^verbatim>\<open>check_and_cast\<close>. Shown: names of different services
    differ; every message survives the trip through bytes, sizes fit the channel; and that length words of received
    containers are trusted.
  \<^item> \<^verbatim>\<open>Slot_Manager\<close>, \<^verbatim>\<open>Shm_Factory\<close>, \<^verbatim>\<open>Shared_Memory_Managers\<close>: slots with guards as a transition system, configuration of the
    blocks, payloads waiting for their consumers. The locale \<open>counted_pool\<close> is the contract of the counters, interpreted
    on the slot manager. Shown: counts are exact in every reachable state, an allocated slot is exclusive, slots do
    not overlap, writer and reader agree on addresses, a payload is released with its last consumer, configurations survive \<^verbatim>\<open>Connect\<close>.
  \<^item> \<^verbatim>\<open>Keys\<close>, \<^verbatim>\<open>Connection_Metadata\<close>, \<^verbatim>\<open>Peer_Tables\<close>, \<^verbatim>\<open>Service_State\<close>: the tables of the binding. The locales \<open>id_registry\<close> and
    \<open>connection_table\<close> state what the binding relies on and are interpreted on these tables. Shown: keys
    identify service instances, the index of the connections is exact, subscriptions refine a relation.
  \<^item> \<^verbatim>\<open>Binding_Base\<close>, \<^verbatim>\<open>Binding_Handlers\<close>: one definition per method of \<^verbatim>\<open>impl/binding_base.cpp\<close> on the record \<open>Binding\<close>.
    \<^verbatim>\<open>Binding_Invariant\<close>: the invariant of the tables, one lemma per handler. \<^verbatim>\<open>Binding_Properties\<close>: all executions. Shown: whoever
    occurs in a table has a channel, the handshake leaves both sides with the same pair of handles, events go to each connected
    client once and the count of recipients is right, offers reach the interested peers, a removed client leaves no
    trace; and two sequences of messages that end in an assertion or in a pointer to an erased entry. \<^verbatim>\<open>Binding_Slots\<close>: the
    blocks of shared memory in all executions. Shown: a block that was announced to a peer keeps its place and its shape.
  \<^item> \<^verbatim>\<open>Ipc_Endpoints\<close>: the callbacks of server and client (\<^verbatim>\<open>impl/gateway_ipc_binding_server.cpp\<close>, \<^verbatim>\<open>..._client.cpp\<close>) on bytes.
    Shown: the server's peers are those the binding knows; a request that overtakes the connect reply aborts the client.

  \<^bold>\<open>Theories of SOCom\<close> (\<^verbatim>\<open>socom\<close>).
  \<^item> \<^verbatim>\<open>Socom_Payload\<close>, \<^verbatim>\<open>Socom_Identifiers\<close>, \<^verbatim>\<open>String_Registry\<close>, \<^verbatim>\<open>Socom_Support\<close>: payloads, identifiers and their orders, interned strings over an
    explicit memory, final actions, method results, the deadlock detector. Shown: interning makes pointer
    equality string equality; the detector stops a destructor exactly inside a callback of the same thread.
  \<^item> \<^verbatim>\<open>Server_Connector\<close>, \<^verbatim>\<open>Server_Callbacks\<close>: \<^verbatim>\<open>impl/server_connector_impl.cpp\<close>. Shown: client operations refine the set of subscribed
    events, and the callbacks describe its changes.
  \<^item> \<^verbatim>\<open>Socom_Runtime\<close>: \<^verbatim>\<open>impl/runtime_impl.cpp\<close> and \<^verbatim>\<open>impl/client_connector_impl.cpp\<close> on the record \<open>Runtime\<close>. \<^verbatim>\<open>Runtime_Invariant\<close>,
    \<^verbatim>\<open>Runtime_Properties\<close>, \<^verbatim>\<open>Runtime_Bridges\<close>: the invariant, the public operations as steps, and the service bridges. Shown: exactly
    the compatible clients and servers are connected, destruction ends, every request to a bridge is given
    back, the registration loop of a bridge ends and misses nothing, event tables stay well formed; and that
    two servers which differ in the minor version only end in an assertion. \<^verbatim>\<open>Runtime_Connectors\<close>: which connectors exist after each
    operation, and that the destructors of their owners end.

  \<^bold>\<open>Theories of the daemons.\<close>
  \<^item> \<^verbatim>\<open>Gateway_Config\<close>, \<^verbatim>\<open>Null_Serializer\<close>: the configuration schema, and all functions of the plugin. The locale
    \<open>message_serializer\<close> is what the daemons need of a plugin, interpreted on this one. Shown: messages survive
    deserialization and serialization, object sizes are those of the compiler.
  \<^item> \<^verbatim>\<open>Gatewayd\<close> (\<^verbatim>\<open>gatewayd/main.cpp\<close>, \<^verbatim>\<open>local_service_instance.cpp\<close>, \<^verbatim>\<open>remote_service_instance.cpp\<close>) and \<^verbatim>\<open>Someipd\<close>
    (\<^verbatim>\<open>someipd/main.cpp\<close>, \<^verbatim>\<open>local_network_service.cpp\<close>, \<^verbatim>\<open>remote_network_service.cpp\<close>, \<^verbatim>\<open>routing.cpp\<close>): creation of the instances and
    their handlers on the runtime and the payload memory.
  \<^item> \<^verbatim>\<open>Event_Path\<close>, \<^verbatim>\<open>Network_Path\<close> and the theorem of this theory: the size of the slots, events from application to
    network, from network to application and across two nodes, the offers on the network; and that a long network message leaves its slot, and
    that a service which is there already makes the creation of its client use a null pointer.
  \<^item> \<^verbatim>\<open>Process_Path\<close>: the two processes together. With the contract of shared memory as hypothesis (both processes see the
    same bytes), a sample goes through a slot from the daemon that writes it to the daemon that notifies it, and the slot is
    free again exactly after the last acknowledgement.
  \<^item> \<^verbatim>\<open>Daemon_Main\<close>, \<^verbatim>\<open>Someipd_Main\<close>: \<^verbatim>\<open>main\<close> of the daemons from the first line to the last destructor, with \<^verbatim>\<open>Routing::Run\<close>. Signals and
    callbacks that run while a daemon waits are a stream of lists of events. Shown: both daemons run until a signal
    arrives and then return, without connectors left; the network stack is set up completely at each registration; and that
    a search which is still active writes to the vector of instances after its destruction.

  \<^bold>\<open>Correspondence.\<close> A class is a record, a method a function from the old to the new state; what it sends, logs or calls back is
  part of the result or appended to a log in the state. References between objects are numbers or keys of the
  tables. \<^verbatim>\<open>score::Result\<close> is a sum. Assertions, null pointers and out-of-bounds accesses are faults of a run, so a
  theorem that an operation returns \<open>Ok\<close> includes that it has none of them. Integers have the width of the source.

  \<^bold>\<open>Bounds.\<close> Definitions are total functions without fuel: loops run over finite containers. The waiting loops of the daemons
  are the exception: \<open>wait_loop\<close> is a partial function whose value is \<open>None\<close> if the loop never ends, and that it
  ends is part of the theorems. The other loop whose end is not obvious, the registration of a bridge, is given the contents of the table at each locking and is shown to
  end. Conditions on sizes in the theorems are those of the types: fewer than \<open>2 ^ 16\<close> events of a service, as event
  identifiers have 16 bits, messages below \<open>2 ^ 32\<close> bytes, as \<^verbatim>\<open>vsomeip\<close> has 32-bit lengths, identifiers that do not wrap at 64 bits.

  \<^bold>\<open>Not modelled.\<close>
  \<^item> Libraries that are not in the repository: \<^verbatim>\<open>message_passing\<close>, \<^verbatim>\<open>mw::com\<close>, \<^verbatim>\<open>vsomeip\<close>, flatbuffers, shared memory of the operating system. Their
    answers are arguments.
  \<^item> Threads. Operations run one after the other, as their mutexes make them, except where the source releases a mutex on purpose: the reply
    handler of the binding and the registration loop of the runtime, whose gaps are modelled. Callbacks of SOCom are
    recorded and do not call the runtime again; the daemons apply them as separate steps.
  \<^item> Time and process control: the lengths of the sleeps, the schedule of the threads (the lists of events say what happened between two
    readings of a flag), the removal of shared memory objects from the file system, logging.
  \<^item> Abstract interfaces and message structs of SOCom, which have no behaviour; mocks, tests, benchmarks, conformance stubs, build and test tooling.
\<close>

section \<open>The channel\<close>

text \<open>Both daemons configure the channel for messages of \<^verbatim>\<open>kMaxIpcMessageSize\<close> bytes: every frame fits, as the static assertion
  in \<^verbatim>\<open>gatewayd/main.cpp\<close> demands for the largest one.\<close>

lemma frames_fit_channel: "csize (c_Message_frame t) \<le> unat kMaxIpcMessageSize"
  using frame_sizes [of t] by (simp add: kMaxIpcMessageSize_def)

section \<open>From application to application\<close>

text \<open>C17. An event crosses two nodes unchanged. A sample that fits the payloads on both nodes and the size configured on the
  receiving one is notified on the network by the sending node, and a network message with the notified bytes makes
  the receiving node hand a sample with the same message to its application, as the event that the receiving
  configuration has at the position of the handler.\<close>

theorem end_to_end_event:
  fixes p q :: "'cb Payload"
  assumes sender: "LocalServiceInstance_Create plugin si st proxy_events cred rt0 = Ok (Ok (li, calls), rt1)"
      "st_events st = Some events" "length events < 2 ^ 16" "SetReceiveHandler name ctx \<in> set calls"
      "event_payload answer (li_server li) (lctx_socom_event_id ctx) rt = Some (c, p)"
      "payload_wf p" "payload_data p = Ok d" "16 + unat (psd_size obj) \<le> unat (span_size d)"
      "unat (psd_size obj) \<le> length (psd_data obj)" "unat (psd_size obj) < 2 ^ 32"
    and handler: "setup_vsomeip rn = Ok calls'" "Register_message_handler sid iid evid eid \<in> set calls'"
      "rn_type_config rn = st'" "st_events st' = Some events'" "length events' < 2 ^ 16"
      "event_payload answer' (rn_server rn) eid rt' = Some (c', q)"
      "payload_wf q" "payload_data q = Ok e" "16 + unat (psd_size obj) \<le> unat (span_size e)"
    and receiver: "RemoteServiceInstance_Create plugin' si' st' has_offer skeleton_events cred' rt2 = Ok (Ok ri, rt3)"
      "map_of (ri_event_contexts ri) eid = Some rctx" "rctx_serializer rctx = Some cfg" "unat (psd_size obj) \<le> unat (max_message_size cfg)"
      "alloc (rctx_ipc_event rctx) = Some sample" "unat (max_message_size cfg) \<le> length (psd_data sample)"
  shows "\<exists>p1 d1 mem1. on_local_sample answer li ctx (Some obj) (released, mem, rt)
        = Ok (released, mem1, rt_emit [Client_event_update c (lctx_socom_event_id ctx) p1] rt) \<and> payload_data p1 = Ok d1
    \<and> (\<forall>(p2 :: 'cb Payload) d2 mem2 cl. payload_data p2 = Ok d2 \<and> span_bytes mem2 d2 = span_bytes mem1 d1 \<longrightarrow>
        (forward_to_vsomeip \<lparr>ln_instance_config = si, ln_type_config = st, ln_client = cl\<rparr> (lctx_socom_event_id ctx) p2 mem2
            = Ok ([Notify (st_service_id st) (si_instance_id si) (ev_event_id (lctx_config ctx)) (psd_message obj)], call_payload_destroyed p2)
          \<and> (\<forall>msg. msg_payload msg = psd_message obj \<longrightarrow>
              (\<exists>q1 e1 mem3. on_vsomeip_message answer' rn eid evid msg (mem', rt') = Ok (mem3, rt_emit [Client_event_update c' eid q1] rt')
                \<and> payload_data q1 = Ok e1
                \<and> (\<forall>(q2 :: 'cb Payload) e2 mem4. payload_data q2 = Ok e2 \<and> span_bytes mem4 e2 = span_bytes mem3 e1 \<longrightarrow>
                    (\<exists>s. forward_event alloc ri eid q2 mem4 = Ok (Some (rctx_ipc_event rctx, s), call_payload_destroyed q2)
                      \<and> psd_message s = psd_message obj))))))"
proof -
  let ?bytes = "psd_message obj"
  have len: "length ?bytes = unat (psd_size obj)" using sender(9) by (simp add: psd_message_def)
  have small: "unat (of_nat (length ?bytes) :: size_t) = length ?bytes"
    using len unsigned_less [of "psd_size obj", where ?'a = nat] by (simp add: unat_of_nat_small)
  let ?received = "\<lambda>msg. \<exists>q1 e1 mem3. on_vsomeip_message answer' rn eid evid msg (mem', rt') = Ok (mem3, rt_emit [Client_event_update c' eid q1] rt')
      \<and> payload_data q1 = Ok e1
      \<and> (\<forall>(q2 :: 'cb Payload) e2 mem4. payload_data q2 = Ok e2 \<and> span_bytes mem4 e2 = span_bytes mem3 e1 \<longrightarrow>
          (\<exists>s. forward_event alloc ri eid q2 mem4 = Ok (Some (rctx_ipc_event rctx, s), call_payload_destroyed q2) \<and> psd_message s = ?bytes))"
  have receive: "?received msg" if msg: "msg_payload msg = ?bytes" for msg
  proof -
    from network_path [where alloc = alloc and msg = msg and mem = mem', OF handler(1-8) _ receiver(1-3) _ receiver(5,6)]
    obtain q1 e1 mem3 where r: "on_vsomeip_message answer' rn eid evid msg (mem', rt') = Ok (mem3, rt_emit [Client_event_update c' eid q1] rt')"
      "payload_data q1 = Ok e1"
      "\<forall>(q2 :: 'cb Payload) e2 mem4. payload_data q2 = Ok e2 \<and> span_bytes mem4 e2 = span_bytes mem3 e1 \<longrightarrow>
         forward_event alloc ri eid q2 mem4
           = Ok (Some (rctx_ipc_event rctx, \<lparr>psd_size = of_nat (length ?bytes), psd_data = ?bytes @ drop (length ?bytes) (psd_data sample)\<rparr>),
               call_payload_destroyed q2)"
      using handler(9) receiver(4) len msg by auto
    have "psd_message \<lparr>psd_size = of_nat (length ?bytes), psd_data = ?bytes @ drop (length ?bytes) (psd_data sample)\<rparr> = ?bytes"
      using small by (simp add: psd_message_def [of "\<lparr>psd_size = _, psd_data = _\<rparr>"])
    then show ?thesis using r by blast
  qed
  from local_path [OF sender, of released mem] obtain p1 d1 mem1 where
    w: "on_local_sample answer li ctx (Some obj) (released, mem, rt)
        = Ok (released, mem1, rt_emit [Client_event_update c (lctx_socom_event_id ctx) p1] rt)" "payload_data p1 = Ok d1"
      "\<forall>(p2 :: 'cb Payload) d2 mem2 cl. payload_data p2 = Ok d2 \<and> span_bytes mem2 d2 = span_bytes mem1 d1 \<longrightarrow>
         forward_to_vsomeip \<lparr>ln_instance_config = si, ln_type_config = st, ln_client = cl\<rparr> (lctx_socom_event_id ctx) p2 mem2
           = Ok ([Notify (st_service_id st) (si_instance_id si) (ev_event_id (lctx_config ctx)) ?bytes], call_payload_destroyed p2)"
    unfolding psd_message_def by blast
  have "forward_to_vsomeip \<lparr>ln_instance_config = si, ln_type_config = st, ln_client = cl\<rparr> (lctx_socom_event_id ctx) p2 mem2
        = Ok ([Notify (st_service_id st) (si_instance_id si) (ev_event_id (lctx_config ctx)) ?bytes], call_payload_destroyed p2)
      \<and> (\<forall>msg. msg_payload msg = ?bytes \<longrightarrow> ?received msg)"
    if "payload_data p2 = Ok d2 \<and> span_bytes mem2 d2 = span_bytes mem1 d1" for p2 :: "'cb Payload" and d2 mem2 cl
    using w(3) [THEN spec, THEN spec, THEN spec, THEN spec, THEN mp, OF that] receive
    by - (intro conjI allI impI, assumption, assumption)
  then show ?thesis using w(1,2)
    by - (rule exI [of _ p1], rule exI [of _ d1], rule exI [of _ mem1], rule conjI, assumption, rule conjI, assumption, intro allI impI, assumption)
qed

theorem end_to_end_event_witness:
  "\<exists>p1 mem1 q1 mem3 s. on_local_sample (\<lambda>_. Ok example_payload) (fst example_local) (snd (hd (li_event_contexts (fst example_local))))
       (Some \<lparr>psd_size = 2, psd_data = [7, 9, 0]\<rparr>) ([], \<lambda>_. 0, example_runtime) = Ok ([], mem1, rt_emit [Client_event_update 1 1 p1] example_runtime)
    \<and> forward_to_vsomeip \<lparr>ln_instance_config = example_instance, ln_type_config = example_service, ln_client = None\<rparr> 1 p1 mem1
        = Ok ([Notify 0x1234 3 0x8002 [7, 9]], call_payload_destroyed p1)
    \<and> on_vsomeip_message (\<lambda>_. Ok example_payload) example_remote 1 0x8002 (example_message [7, 9]) (\<lambda>_. 0, example_runtime)
        = Ok (mem3, rt_emit [Client_event_update 1 1 q1] example_runtime)
    \<and> forward_event (\<lambda>_. Some \<lparr>psd_size = 0, psd_data = replicate 20 0\<rparr>) example_remote_instance 1 q1 mem3
        = Ok (Some (''b'', s), call_payload_destroyed q1)
    \<and> psd_message s = [7, 9]"
proof -
  let ?ctx = "snd (hd (li_event_contexts (fst example_local)))" and ?obj = "\<lparr>psd_size = 2, psd_data = [7, 9, 0]\<rparr>"
  let ?rctx = "\<lparr>rctx_config = example_event ''b'' 0x8002 20, rctx_serializer = Some \<lparr>max_message_size = 20\<rparr>, rctx_ipc_event = ''b''\<rparr>"
  let ?events = "[example_event ''a'' 0x8001 8, example_event ''b'' 0x8002 20]" and ?cfg = "\<lparr>max_message_size = 20\<rparr>"
  let ?sample = "\<lparr>psd_size = 0, psd_data = replicate 20 0\<rparr>"
  obtain rt1 :: "unit Payload Runtime" where
    c: "LocalServiceInstance_Create (Some example_root) example_instance example_service [''b''] \<lparr>uid = 0, gid = 0\<rparr> create_runtime
      = Ok (Ok (fst example_local, snd example_local), rt1)"
    using example_local_created by auto
  have ev: "st_events example_service = Some ?events" "length ?events < 2 ^ 16" "SetReceiveHandler ''b'' ?ctx \<in> set (snd example_local)"
    by (simp_all add: example_service_def example_local_def Let_def)
  have s: "event_payload (\<lambda>_. Ok example_payload) (li_server (fst example_local)) (lctx_socom_event_id ?ctx) example_runtime = Some (1, example_payload)"
    by (simp add: event_payload_def example_local_def example_runtime_def Server_connector_init_def Let_def)
  have o: "16 + unat (psd_size ?obj) \<le> unat (span_size \<lparr>span_data = 4096, span_size = 36\<rparr>)"
    "unat (psd_size ?obj) \<le> length (psd_data ?obj)" "unat (psd_size ?obj) < 2 ^ 32" by simp_all
  obtain calls where h: "setup_vsomeip example_remote = Ok calls" "Register_message_handler 0x1234 3 0x8002 1 \<in> set calls"
    "rn_type_config example_remote = example_service"
    using example_remote_handler by (auto simp: example_remote_def)
  obtain rt3 :: "unit Payload Runtime" where r: "RemoteServiceInstance_Create (Some example_root) example_instance example_service True [''b'']
      \<lparr>uid = 0, gid = 0\<rparr> create_runtime = Ok (Ok example_remote_instance, rt3)"
    using example_remote_created by blast
  have x: "map_of (ri_event_contexts example_remote_instance) 1 = Some ?rctx" "rctx_serializer ?rctx = Some ?cfg"
    "unat (psd_size ?obj) \<le> unat (max_message_size ?cfg)" "(\<lambda>_. Some ?sample) (rctx_ipc_event ?rctx) = Some ?sample"
    "unat (max_message_size ?cfg) \<le> length (psd_data ?sample)"
    by (simp_all add: example_remote_instance_def)
  have v: "lctx_socom_event_id ?ctx = 1" "ev_event_id (lctx_config ?ctx) = 0x8002" "st_service_id example_service = 0x1234"
    "si_instance_id example_instance = 3" "psd_message ?obj = [7, 9]" "msg_payload (example_message [7, 9]) = [7, 9]" "rctx_ipc_event ?rctx = ''b''"
    by (simp_all add: example_local_def Let_def example_event_def example_service_def example_instance_def psd_message_def example_message_def)
  note e = end_to_end_event [where alloc = "\<lambda>_. Some ?sample" and released = "[]" and mem = "\<lambda>_. 0" and mem' = "\<lambda>_. 0",
    OF c ev s example_payload_data o h ev(1,2) example_event_payload example_payload_data o(1) r x, unfolded v]
  then obtain p1 d1 mem1 where "on_local_sample (\<lambda>_. Ok example_payload) (fst example_local) ?ctx (Some ?obj) ([], \<lambda>_. 0, example_runtime)
      = Ok ([], mem1, rt_emit [Client_event_update 1 1 p1] example_runtime)" "payload_data p1 = Ok d1"
    "forward_to_vsomeip \<lparr>ln_instance_config = example_instance, ln_type_config = example_service, ln_client = None\<rparr> 1 p1 mem1
        = Ok ([Notify 0x1234 3 0x8002 [7, 9]], call_payload_destroyed p1)" by blast
  moreover from e have "\<forall>msg. msg_payload msg = [7, 9] \<longrightarrow>
      (\<exists>q1 e1 mem3. on_vsomeip_message (\<lambda>_. Ok example_payload) example_remote 1 0x8002 msg (\<lambda>_. 0, example_runtime)
          = Ok (mem3, rt_emit [Client_event_update 1 1 q1] example_runtime) \<and> payload_data q1 = Ok e1
        \<and> (\<forall>(q2 :: unit Payload) e2 mem4. payload_data q2 = Ok e2 \<and> span_bytes mem4 e2 = span_bytes mem3 e1 \<longrightarrow>
            (\<exists>s. forward_event (\<lambda>_. Some ?sample) example_remote_instance 1 q2 mem4 = Ok (Some (''b'', s), call_payload_destroyed q2)
              \<and> psd_message s = [7, 9])))" by blast
  from this [THEN spec, THEN mp, OF v(6)] obtain q1 e1 mem3 where
    q: "on_vsomeip_message (\<lambda>_. Ok example_payload) example_remote 1 0x8002 (example_message [7, 9]) (\<lambda>_. 0, example_runtime)
      = Ok (mem3, rt_emit [Client_event_update 1 1 q1] example_runtime)" "payload_data q1 = Ok e1"
    and f: "\<forall>(q2 :: unit Payload) e2 mem4. payload_data q2 = Ok e2 \<and> span_bytes mem4 e2 = span_bytes mem3 e1 \<longrightarrow>
        (\<exists>s. forward_event (\<lambda>_. Some ?sample) example_remote_instance 1 q2 mem4 = Ok (Some (''b'', s), call_payload_destroyed q2)
          \<and> psd_message s = [7, 9])" by blast
  from f [THEN spec, THEN spec, THEN spec, THEN mp, OF conjI [OF q(2) refl]] obtain s where
    "forward_event (\<lambda>_. Some ?sample) example_remote_instance 1 q1 mem3 = Ok (Some (''b'', s), call_payload_destroyed q1)" "psd_message s = [7, 9]"
    by blast
  ultimately show ?thesis using q(1) by blast
qed

end
